(* ===== verification/Prelude.thy ===== *)
theory Prelude
  imports Complex_Main "HOL-Library.Word" "HOL-Library.Sublist" "HOL-Library.Char_ord"
    "HOL-Library.List_Lexorder"
begin

text \<open>
  What every component shares: the parts of Go's standard library the source uses
  (\<open>strings\<close>, \<open>strconv\<close>, \<open>unicode/utf8\<close>, \<open>time\<close>), the HTTP replies handlers write, and the
  generic lemmas on lists that the component proofs rest on.

  A Go string is a sequence of bytes, and so is an Isabelle \<open>string\<close> (a list of 8-bit
  characters): lengths and indices count bytes on both sides. Integers are \<open>int\<close>, with
  \<open>int64\<close> written out where the code can wrap around.
\<close>

named_theorems go_defs \<open>definitions of the standard library functions, for evaluation\<close>

section \<open>Integers and time\<close>

text \<open>Wrap-around of a 64-bit signed integer.\<close>

definition int64 :: "int \<Rightarrow> int" where
  "int64 x = (x + 2 ^ 63) mod 2 ^ 64 - 2 ^ 63"

lemma int64_id: "- (2 ^ 63) \<le> x \<Longrightarrow> x < 2 ^ 63 \<Longrightarrow> int64 x = x"
  by (simp add: int64_def)

lemma int64_range: "- (2 ^ 63) \<le> int64 x \<and> int64 x < 2 ^ 63"
  using pos_mod_bound [of "2 ^ 64" "x + 2 ^ 63"] pos_mod_sign [of "2 ^ 64" "x + 2 ^ 63"]
  by (simp add: int64_def)

text \<open>Go's integer division truncates towards zero.\<close>

definition go_div :: "int \<Rightarrow> int \<Rightarrow> int" where
  "go_div a b = (if 0 \<le> a then a div b else - ((- a) div b))"

lemma go_div_nonneg [simp]: "0 \<le> a \<Longrightarrow> go_div a b = a div b"
  by (simp add: go_div_def)

text \<open>
  A \<open>time.Time\<close> is its number of nanoseconds since the Unix epoch; the zero \<open>Time\<close> is
  January 1 of year 1, and \<open>Sub\<close> saturates at the range of a \<open>Duration\<close>.
\<close>

type_synonym go_time = int
type_synonym duration = int

abbreviation second :: duration where "second \<equiv> 1000000000"
abbreviation minute :: duration where "minute \<equiv> 60 * second"
abbreviation hour :: duration where "hour \<equiv> 3600 * second"

definition zero_time :: go_time where
  "zero_time = - 62135596800 * second"

definition is_zero :: "go_time \<Rightarrow> bool" where
  "is_zero t \<longleftrightarrow> t = zero_time"

definition time_sub :: "go_time \<Rightarrow> go_time \<Rightarrow> duration" where
  "time_sub t u = max (- (2 ^ 63)) (min (2 ^ 63 - 1) (t - u))"

definition unix_time :: "int \<Rightarrow> go_time" where
  "unix_time s = s * second"

text \<open>\<open>Time.Unix()\<close> rounds down to the second.\<close>

definition unix_of :: "go_time \<Rightarrow> int" where
  "unix_of t = t div second"

lemma unix_of_unix_time [simp]: "unix_of (unix_time s) = s"
  by (simp add: unix_of_def unix_time_def)

lemma time_sub_less_iff:
  "- (2 ^ 63) < d \<Longrightarrow> d < 2 ^ 63 \<Longrightarrow> time_sub t u < d \<longleftrightarrow> t - u < d"
  by (auto simp: time_sub_def min_def max_def)

lemma time_sub_ge_iff:
  "- (2 ^ 63) < d \<Longrightarrow> d < 2 ^ 63 \<Longrightarrow> d \<le> time_sub t u \<longleftrightarrow> d \<le> t - u"
  using time_sub_less_iff [of d t u] by (auto simp: not_less)

section \<open>Strings\<close>

abbreviation byte :: "char \<Rightarrow> nat" where "byte c \<equiv> of_char c"

definition HasPrefix :: "string \<Rightarrow> string \<Rightarrow> bool" where
  [go_defs]: "HasPrefix s p \<longleftrightarrow> take (length p) s = p"

definition TrimPrefix :: "string \<Rightarrow> string \<Rightarrow> string" where
  [go_defs]: "TrimPrefix s p = (if HasPrefix s p then drop (length p) s else s)"

definition HasSuffix :: "string \<Rightarrow> string \<Rightarrow> bool" where
  [go_defs]: "HasSuffix s p \<longleftrightarrow> length p \<le> length s \<and> drop (length s - length p) s = p"

definition TrimSuffix :: "string \<Rightarrow> string \<Rightarrow> string" where
  [go_defs]: "TrimSuffix s p = (if HasSuffix s p then take (length s - length p) s else s)"

definition ContainsAny :: "string \<Rightarrow> string \<Rightarrow> bool" where
  [go_defs]: "ContainsAny s cs \<longleftrightarrow> list_ex (\<lambda>c. List.member cs c) s"

fun Contains :: "string \<Rightarrow> string \<Rightarrow> bool" where
  "Contains [] p \<longleftrightarrow> p = []"
| "Contains (c # s) p \<longleftrightarrow> HasPrefix (c # s) p \<or> Contains s p"

text \<open>\<open>strings.Cut\<close> and \<open>strings.Split\<close> at a one-byte separator.\<close>

fun Cut :: "char \<Rightarrow> string \<Rightarrow> string \<times> string \<times> bool" where
  "Cut sep [] = ([], [], False)"
| "Cut sep (c # s) =
     (if c = sep then ([], s, True)
      else (case Cut sep s of (a, b, f) \<Rightarrow> (c # a, b, f)))"

fun Split :: "char \<Rightarrow> string \<Rightarrow> string list" where
  "Split sep [] = [[]]"
| "Split sep (c # s) =
     (if c = sep then [] # Split sep s
      else (case Split sep s of [] \<Rightarrow> [[c]] | w # ws \<Rightarrow> (c # w) # ws))"

text \<open>\<open>strings.Join\<close>.\<close>

fun Join :: "string list \<Rightarrow> string \<Rightarrow> string" where
  "Join [] sep = []"
| "Join [w] sep = w"
| "Join (w # v # ws) sep = w @ sep @ Join (v # ws) sep"

text \<open>\<open>strings.ReplaceAll\<close> of a one-byte string.\<close>

definition ReplaceAll :: "string \<Rightarrow> char \<Rightarrow> string \<Rightarrow> string" where
  [go_defs]: "ReplaceAll s old new = concat (map (\<lambda>c. if c = old then new else [c]) s)"

lemma Split_nonempty [simp]: "Split sep s \<noteq> []"
  by (induction s) (auto split: list.splits)

lemma Split_no_sep: "w \<in> set (Split sep s) \<Longrightarrow> sep \<notin> set w"
proof (induction s arbitrary: w)
  case Nil
  then show ?case by simp
next
  case (Cons c s)
  show ?case
  proof (cases "c = sep")
    case True
    with Cons show ?thesis by auto
  next
    case False
    obtain v vs where v: "Split sep s = v # vs" by (cases "Split sep s") auto
    with Cons.prems False have "w = c # v \<or> w \<in> set vs" by simp
    moreover have "sep \<notin> set v" using Cons.IH [of v] v by simp
    moreover have "w \<in> set vs \<Longrightarrow> sep \<notin> set w" using Cons.IH [of w] v by simp
    ultimately show ?thesis using False by auto
  qed
qed

lemma Join_Split: "Join (Split sep s) [sep] = s"
proof (induction s)
  case Nil
  then show ?case by simp
next
  case (Cons c s)
  obtain v vs where v: "Split sep s = v # vs" by (cases "Split sep s") auto
  with Cons show ?case by (cases vs) auto
qed

lemma ReplaceAll_eliminates: "old \<notin> set new \<Longrightarrow> old \<notin> set (ReplaceAll s old new)"
  by (auto simp: ReplaceAll_def)

text \<open>ASCII lower case, as in SQLite's \<open>NOCASE\<close> collation.\<close>

definition ascii_lower1 :: "char \<Rightarrow> char" where
  [go_defs]: "ascii_lower1 c = (if 65 \<le> byte c \<and> byte c \<le> 90 then char_of (byte c + 32) else c)"

definition ascii_lower :: "string \<Rightarrow> string" where
  [go_defs]: "ascii_lower s = map ascii_lower1 s"

definition nocase_eq :: "string \<Rightarrow> string \<Rightarrow> bool" where
  [go_defs]: "nocase_eq s t \<longleftrightarrow> ascii_lower s = ascii_lower t"

lemma nocase_eq_refl [simp]: "nocase_eq s s"
  by (simp add: nocase_eq_def)

lemma nocase_eq_sym: "nocase_eq s t \<longleftrightarrow> nocase_eq t s"
  by (auto simp: nocase_eq_def)

lemma nocase_eq_trans: "nocase_eq s t \<Longrightarrow> nocase_eq t u \<Longrightarrow> nocase_eq s u"
  by (simp add: nocase_eq_def)

text \<open>
  \<open>strings.EqualFold\<close> against an ASCII constant: beyond ASCII, Unicode's simple folding
  takes only the long s (U+017F) and the Kelvin sign (U+212A) to ASCII letters.
\<close>

fun fold_to_ascii :: "string \<Rightarrow> string" where
  "fold_to_ascii (a # b # c # s) =
     (if byte a = 0xC5 \<and> byte b = 0xBF then CHR ''s'' # fold_to_ascii (c # s)
      else if byte a = 0xE2 \<and> byte b = 0x84 \<and> byte c = 0xAA then CHR ''k'' # fold_to_ascii s
      else a # fold_to_ascii (b # c # s))"
| "fold_to_ascii [a, b] = (if byte a = 0xC5 \<and> byte b = 0xBF then [CHR ''s''] else [a, b])"
| "fold_to_ascii s = s"

definition EqualFold :: "string \<Rightarrow> string \<Rightarrow> bool" where
  [go_defs]: "EqualFold s ascii \<longleftrightarrow> ascii_lower (fold_to_ascii s) = ascii_lower ascii"

section \<open>White space\<close>

text \<open>The UTF-8 encodings of the characters \<open>unicode.IsSpace\<close> accepts.\<close>

definition space_encs :: "string list" where
  "space_encs =
     [[CHR 0x20], [CHR 0x09], [CHR 0x0A], [CHR 0x0B], [CHR 0x0C], [CHR 0x0D],
      [CHR 0xC2, CHR 0x85], [CHR 0xC2, CHR 0xA0], [CHR 0xE1, CHR 0x9A, CHR 0x80],
      [CHR 0xE2, CHR 0x80, CHR 0x80], [CHR 0xE2, CHR 0x80, CHR 0x81],
      [CHR 0xE2, CHR 0x80, CHR 0x82], [CHR 0xE2, CHR 0x80, CHR 0x83],
      [CHR 0xE2, CHR 0x80, CHR 0x84], [CHR 0xE2, CHR 0x80, CHR 0x85],
      [CHR 0xE2, CHR 0x80, CHR 0x86], [CHR 0xE2, CHR 0x80, CHR 0x87],
      [CHR 0xE2, CHR 0x80, CHR 0x88], [CHR 0xE2, CHR 0x80, CHR 0x89],
      [CHR 0xE2, CHR 0x80, CHR 0x8A], [CHR 0xE2, CHR 0x80, CHR 0xA8],
      [CHR 0xE2, CHR 0x80, CHR 0xA9], [CHR 0xE2, CHR 0x80, CHR 0xAF],
      [CHR 0xE2, CHR 0x81, CHR 0x9F], [CHR 0xE3, CHR 0x80, CHR 0x80]]"

text \<open>The length of a leading encoding of the list, 0 when there is none.\<close>

fun lead_len :: "string list \<Rightarrow> string \<Rightarrow> nat" where
  "lead_len [] s = 0"
| "lead_len (e # es) s = (if HasPrefix s e then length e else lead_len es s)"

function trim_lead :: "string list \<Rightarrow> string \<Rightarrow> string" where
  "trim_lead es s =
     (if lead_len es s = 0 \<or> s = [] then s else trim_lead es (drop (lead_len es s) s))"
  by pat_completeness auto
termination
  by (relation "measure (\<lambda>(es, s). length s)") auto

declare trim_lead.simps [simp del]

definition TrimSpace :: "string \<Rightarrow> string" where
  "TrimSpace s = rev (trim_lead (map rev space_encs) (rev (trim_lead space_encs s)))"

lemma trim_lead_suffix: "suffix (trim_lead es s) s"
proof (induction es s rule: trim_lead.induct)
  case (1 es s)
  show ?case
  proof (cases "lead_len es s = 0 \<or> s = []")
    case True
    then show ?thesis by (subst trim_lead.simps) simp
  next
    case False
    with "1.IH" have "suffix (trim_lead es (drop (lead_len es s) s)) (drop (lead_len es s) s)"
      by blast
    with False show ?thesis
      by (subst trim_lead.simps) (auto intro: suffix_order.trans suffix_drop)
  qed
qed

lemma trim_lead_stuck: "lead_len es (trim_lead es s) = 0 \<or> trim_lead es s = []"
proof (induction es s rule: trim_lead.induct)
  case (1 es s)
  then show ?case by (cases "lead_len es s = 0 \<or> s = []") (subst (1 2) trim_lead.simps, simp)+
qed

lemma length_TrimSpace: "length (TrimSpace s) \<le> length s"
proof -
  have "length (TrimSpace s) \<le> length (trim_lead space_encs s)"
    using suffix_length_le [OF trim_lead_suffix [of "map rev space_encs" "rev (trim_lead space_encs s)"]]
    by (simp add: TrimSpace_def)
  also have "\<dots> \<le> length s" by (rule suffix_length_le [OF trim_lead_suffix])
  finally show ?thesis .
qed

lemma set_TrimSpace: "set (TrimSpace s) \<subseteq> set s"
  using set_mono_suffix [OF trim_lead_suffix [of "map rev space_encs" "rev (trim_lead space_encs s)"]]
    set_mono_suffix [OF trim_lead_suffix [of space_encs s]]
  by (auto simp: TrimSpace_def)

text \<open>Evaluation of \<open>TrimSpace\<close> on a concrete string.\<close>

lemmas TrimSpace_eval = TrimSpace_def space_encs_def trim_lead.simps HasPrefix_def

section \<open>UTF-8\<close>

text \<open>
  \<open>utf8.RuneStart\<close>; the number of bytes a leading byte announces and the range of the
  second byte (the \<open>first\<close> and \<open>acceptRanges\<close> tables); \<open>FullRune\<close>, the width of the first
  character (an invalid byte counts as one character) and \<open>RuneCountInString\<close>.
\<close>

definition RuneStart :: "char \<Rightarrow> bool" where
  [go_defs]: "RuneStart c \<longleftrightarrow> \<not> (0x80 \<le> byte c \<and> byte c \<le> 0xBF)"

definition rune_need :: "char \<Rightarrow> nat" where
  [go_defs]: "rune_need c =
     (if 0xC2 \<le> byte c \<and> byte c \<le> 0xDF then 2
      else if 0xE0 \<le> byte c \<and> byte c \<le> 0xEF then 3
      else if 0xF0 \<le> byte c \<and> byte c \<le> 0xF4 then 4 else 1)"

definition second_ok :: "char \<Rightarrow> char \<Rightarrow> bool" where
  [go_defs]: "second_ok c d \<longleftrightarrow>
     (if byte c = 0xE0 then 0xA0 \<le> byte d \<and> byte d \<le> 0xBF
      else if byte c = 0xED then 0x80 \<le> byte d \<and> byte d \<le> 0x9F
      else if byte c = 0xF0 then 0x90 \<le> byte d \<and> byte d \<le> 0xBF
      else if byte c = 0xF4 then 0x80 \<le> byte d \<and> byte d \<le> 0x8F
      else 0x80 \<le> byte d \<and> byte d \<le> 0xBF)"

fun FullRune :: "string \<Rightarrow> bool" where
  "FullRune [] = False"
| "FullRune (c # cs) =
     (rune_need c \<le> length (c # cs) \<or>
      (case cs of [] \<Rightarrow> False
       | d # ds \<Rightarrow> \<not> second_ok c d \<or> (case ds of [] \<Rightarrow> False | e # _ \<Rightarrow> RuneStart e)))"

fun rune_width :: "string \<Rightarrow> nat" where
  "rune_width [] = 0"
| "rune_width (c # cs) =
     (let n = rune_need c in
      if n = 1 \<or> length (c # cs) < n then 1
      else if \<not> second_ok c (cs ! 0) then 1
      else if 3 \<le> n \<and> RuneStart (cs ! 1) then 1
      else if 4 \<le> n \<and> RuneStart (cs ! 2) then 1
      else n)"

lemma rune_width_pos: "s \<noteq> [] \<Longrightarrow> 0 < rune_width s"
  by (cases s) (auto simp: Let_def rune_need_def)

function RuneCountInString :: "string \<Rightarrow> nat" where
  "RuneCountInString s =
     (if s = [] then 0 else Suc (RuneCountInString (drop (rune_width s) s)))"
  by pat_completeness auto
termination
  by (relation "measure length") (auto simp: rune_width_pos)

declare RuneCountInString.simps [simp del]

lemma RuneCountInString_le: "RuneCountInString s \<le> length s"
proof (induction s rule: RuneCountInString.induct)
  case (1 s)
  show ?case
  proof (cases "s = []")
    case True
    then show ?thesis by (subst RuneCountInString.simps) simp
  next
    case False
    with "1.IH" have "RuneCountInString (drop (rune_width s) s) \<le> length s - rune_width s" by simp
    with False rune_width_pos [OF False] show ?thesis
      by (subst RuneCountInString.simps) (cases s, auto simp del: rune_width.simps)
  qed
qed

lemmas RuneCount_eval = RuneCountInString.simps rune_need_def second_ok_def RuneStart_def Let_def

section \<open>Numbers as strings\<close>

definition is_digit :: "char \<Rightarrow> bool" where
  [go_defs]: "is_digit c \<longleftrightarrow> 48 \<le> byte c \<and> byte c \<le> 57"

definition digits_val :: "string \<Rightarrow> int" where
  [go_defs]: "digits_val s = foldl (\<lambda>n c. 10 * n + (int (byte c) - 48)) 0 s"

text \<open>
  \<open>strconv.ParseInt(s, 10, 64)\<close> (and \<open>Atoi\<close>): the value and whether there was an error. A
  syntax error gives 0, a value out of range the nearest bound.
\<close>

definition ParseInt :: "string \<Rightarrow> int \<times> bool" where
  [go_defs]: "ParseInt s =
     (let neg = HasPrefix s ''-'';
          d = (if neg \<or> HasPrefix s ''+'' then tl s else s);
          v = (if neg then - digits_val d else digits_val d)
      in if d = [] \<or> \<not> list_all is_digit d then (0, True)
         else if v < - (2 ^ 63) then (- (2 ^ 63), True)
         else if 2 ^ 63 \<le> v then (2 ^ 63 - 1, True)
         else (v, False))"

text \<open>\<open>%d\<close> of a number.\<close>

fun show_nat :: "nat \<Rightarrow> string" where
  "show_nat n = (if n < 10 then [char_of (48 + n)] else show_nat (n div 10) @ [char_of (48 + n mod 10)])"

declare show_nat.simps [simp del]

definition show_int :: "int \<Rightarrow> string" where
  "show_int i = (if i < 0 then CHR ''-'' # show_nat (nat (- i)) else show_nat (nat i))"

lemma byte_digit: "n < 10 \<Longrightarrow> byte (char_of (48 + n :: nat)) = 48 + n"
  by (simp add: take_bit_eq_mod)

lemma show_nat_digits: "list_all is_digit (show_nat n)"
proof (induction n rule: show_nat.induct)
  case (1 n)
  have "n mod 10 < 10" by simp
  then have "is_digit (char_of (48 + n mod 10))"
    by (simp only: is_digit_def byte_digit) simp
  moreover have "n < 10 \<Longrightarrow> is_digit (char_of (48 + n))"
    by (simp only: is_digit_def byte_digit) simp
  ultimately show ?case using "1.IH" by (subst show_nat.simps) auto
qed

lemma digits_val_show_nat: "digits_val (show_nat n) = int n"
proof (induction n rule: show_nat.induct)
  case (1 n)
  have d: "n mod 10 < 10" by simp
  show ?case
  proof (cases "n < 10")
    case True
    then show ?thesis
      by (subst show_nat.simps) (simp add: digits_val_def byte_digit del: of_char_of)
  next
    case False
    with "1.IH" have "foldl (\<lambda>n c. 10 * n + (int (byte c) - 48)) 0 (show_nat (n div 10)) = int (n div 10)"
      by (simp add: digits_val_def)
    with False show ?thesis
      by (subst show_nat.simps)
        (simp add: digits_val_def byte_digit [OF d] zdiv_int zmod_int del: of_char_of)
  qed
qed

lemma show_nat_inject [simp]: "show_nat m = show_nat n \<longleftrightarrow> m = n"
  by (metis digits_val_show_nat of_nat_eq_iff)

text \<open>Evaluation of \<open>show_int\<close> on a numeral.\<close>

lemmas show_eval = show_int_def show_nat.simps char_of_def bit_0

lemma show_nat_Nil [simp]: "show_nat n \<noteq> []"
  by (subst show_nat.simps) simp

section \<open>HTTP replies\<close>

text \<open>
  What a handler writes: an error message with its status, the request to confirm the
  password first, a JSON value, or no content.
\<close>

datatype 'a reply =
    WriteError nat string
  | ReauthRequired
  | WriteJSON nat 'a
  | NoContent

definition is_success :: "'a reply \<Rightarrow> bool" where
  "is_success r \<longleftrightarrow> (case r of WriteJSON n _ \<Rightarrow> n = 200 | NoContent \<Rightarrow> True | _ \<Rightarrow> False)"

definition internalError :: "'a reply" where
  "internalError = WriteError 500 ''internal error''"

definition badJSON :: "'a reply" where
  "badJSON = WriteError 400 ''invalid JSON body''"

lemma is_success_simps [simp]:
  "\<not> is_success (WriteError n m)" "\<not> is_success ReauthRequired" "is_success NoContent"
  "is_success (WriteJSON n x) \<longleftrightarrow> n = 200"
  "\<not> is_success internalError" "\<not> is_success badJSON"
  by (simp_all add: is_success_def internalError_def badJSON_def)

section \<open>Lists\<close>

text \<open>The last \<open>n\<close> elements of a list.\<close>

definition last_n :: "nat \<Rightarrow> 'a list \<Rightarrow> 'a list" where
  "last_n n xs = drop (length xs - n) xs"

lemma length_last_n [simp]: "length (last_n n xs) = min n (length xs)"
  by (simp add: last_n_def)

lemma last_n_all: "length xs \<le> n \<Longrightarrow> last_n n xs = xs"
  by (simp add: last_n_def)

lemma last_n_append: "n \<le> length ys \<Longrightarrow> last_n n (xs @ ys) = last_n n ys"
  by (simp add: last_n_def)

lemma last_n_append_more:
  "length ys \<le> n \<Longrightarrow> last_n n (xs @ ys) = last_n (n - length ys) xs @ ys"
  by (simp add: last_n_def)

lemma last_n_last_n_append: "last_n n (last_n n xs @ ys) = last_n n (xs @ ys)"
proof (cases "n \<le> length xs")
  case True
  then have "length xs + length ys - n = length xs - n + length ys" by simp
  with True show ?thesis by (simp add: last_n_def add.commute)
next
  case False
  then show ?thesis by (simp add: last_n_all)
qed

lemma find_SomeD: "find P xs = Some x \<Longrightarrow> x \<in> set xs \<and> P x"
  by (auto simp: find_Some_iff)

text \<open>Sorting commutes with a change that keeps the keys in step.\<close>

lemma insort_key_map: "insort_key k (f x) (map f xs) = map f (insort_key (\<lambda>x. k (f x)) x xs)"
  by (induction xs) auto

lemma sort_key_map: "sort_key k (map f xs) = map f (sort_key (\<lambda>x. k (f x)) xs)"
  by (induction xs) (simp_all add: insort_key_map)

end
