(* ===== verification/Interfaces.thy ===== *)
theory Interfaces
  imports Prelude
begin

text \<open>
  The contracts several components rely on, each as a locale: a three-way comparison
  function (\<open>compare\<close> of versions), a table of rows with a primary key (the database), and
  a transition system with an invariant (the state machines). The components that
  provide them interpret the locales on their own definitions.
\<close>

section \<open>Three-way comparison\<close>

text \<open>A comparison function in Go's style: negative, zero or positive.\<close>

locale three_way =
  fixes cmp :: "'a \<Rightarrow> 'a \<Rightarrow> int"
  assumes swap: "cmp b a = - cmp a b"
    and le_trans: "cmp a b \<le> 0 \<Longrightarrow> cmp b c \<le> 0 \<Longrightarrow> cmp a c \<le> 0"
begin

lemma refl: "cmp a a = 0"
  using swap [of a a] by simp

lemma total: "cmp a b \<le> 0 \<or> cmp b a \<le> 0"
  using swap [of a b] by linarith

lemma asym: "0 < cmp a b \<Longrightarrow> \<not> 0 < cmp b a"
  using swap [of a b] by linarith

lemma gt_trans: "0 < cmp a b \<Longrightarrow> 0 < cmp b c \<Longrightarrow> 0 < cmp a c"
proof (rule ccontr)
  assume gt: "0 < cmp a b" "0 < cmp b c" and "\<not> 0 < cmp a c"
  then have "cmp a c \<le> 0" by simp
  moreover have "cmp c b \<le> 0" using gt(2) swap [of b c] by linarith
  ultimately have "cmp a b \<le> 0" by (rule le_trans)
  with gt(1) show False by simp
qed

lemma gt_le_trans: "0 < cmp a b \<Longrightarrow> 0 \<le> cmp b c \<Longrightarrow> 0 < cmp a c"
proof (rule ccontr)
  assume gt: "0 < cmp a b" "0 \<le> cmp b c" and "\<not> 0 < cmp a c"
  then have "cmp a c \<le> 0" by simp
  moreover have "cmp c b \<le> 0" using gt(2) swap [of b c] by linarith
  ultimately have "cmp a b \<le> 0" by (rule le_trans)
  with gt(1) show False by simp
qed

end

text \<open>The reference comparison of a linear order.\<close>

definition cmp3 :: "'a::linorder \<Rightarrow> 'a \<Rightarrow> int" where
  "cmp3 a b = (if a < b then - 1 else if a = b then 0 else 1)"

lemma cmp3_simps [simp]:
  "cmp3 a b = 0 \<longleftrightarrow> a = b" "0 < cmp3 a b \<longleftrightarrow> b < a" "cmp3 a b < 0 \<longleftrightarrow> a < b"
  "cmp3 a b \<le> 0 \<longleftrightarrow> a \<le> b" "cmp3 a b = 1 \<longleftrightarrow> b < a" "cmp3 a b = - 1 \<longleftrightarrow> a < b"
  by (auto simp: cmp3_def not_less)

text \<open>Any comparison that agrees with the reference on some key meets the contract.\<close>

lemma three_way_by_key:
  assumes "\<And>a b. cmp a b = cmp3 (key a) (key b)"
  shows "three_way cmp"
proof
  fix a b c
  show "cmp b a = - cmp a b" by (auto simp: assms cmp3_def)
  show "cmp a b \<le> 0 \<Longrightarrow> cmp b c \<le> 0 \<Longrightarrow> cmp a c \<le> 0" by (simp add: assms)
qed

section \<open>Tables\<close>

text \<open>
  A table holds rows with an integer primary key. A row is found by its key; an insert
  takes the next free key, an update rewrites the rows it selects without touching
  their keys, a delete removes the rows it selects.
\<close>

locale keyed_table =
  fixes key :: "'r \<Rightarrow> int"
    and get :: "int \<Rightarrow> 'r list \<Rightarrow> 'r option"
    and next_key :: "'r list \<Rightarrow> int"
  assumes get_find: "get i t = find (\<lambda>r. key r = i) t"
    and next_fresh: "next_key t \<notin> key ` set t"
    and next_pos: "0 < next_key t"
begin

lemma get_SomeD: "get i t = Some r \<Longrightarrow> r \<in> set t \<and> key r = i"
  by (auto simp: get_find find_Some_iff)

lemma get_None: "get i t = None \<longleftrightarrow> i \<notin> key ` set t"
  by (auto simp: get_find find_None_iff)

lemma get_in: "distinct (map key t) \<Longrightarrow> r \<in> set t \<Longrightarrow> get (key r) t = Some r"
proof (induction t)
  case Nil
  then show ?case by simp
next
  case (Cons a t)
  then show ?case by (auto simp: get_find rev_image_eqI)
qed

lemma get_insert:
  "key r = next_key t \<Longrightarrow> get i (t @ [r]) = (if i = next_key t then Some r else get i t)"
proof -
  assume k: "key r = next_key t"
  have app: "find P (xs @ [x]) = (case find P xs of None \<Rightarrow> if P x then Some x else None | Some y \<Rightarrow> Some y)"
    for P and xs :: "'r list" and x
    by (induction xs) auto
  have "get (next_key t) t = None" using next_fresh [of t] by (simp add: get_None)
  with k show ?thesis by (auto simp: get_find app split: option.splits)
qed

lemma insert_distinct:
  "distinct (map key t) \<Longrightarrow> key r = next_key t \<Longrightarrow> distinct (map key (t @ [r]))"
  using next_fresh [of t] by auto

lemma delete_distinct: "distinct (map key t) \<Longrightarrow> distinct (map key (filter P t))"
  by (simp add: distinct_map_filter)

lemma get_delete:
  "distinct (map key t) \<Longrightarrow>
   get i (filter P t) = (case get i t of None \<Rightarrow> None | Some r \<Rightarrow> if P r then Some r else None)"
proof (induction t)
  case Nil
  then show ?case by (simp add: get_find)
next
  case (Cons a t)
  have "i = key a \<Longrightarrow> find (\<lambda>r. key r = i) (filter P t) = None"
    using Cons.prems by (auto simp: find_None_iff) (metis image_eqI)
  with Cons show ?case by (auto simp: get_find)
qed

lemma map_update: "(\<And>r. key (f r) = key r) \<Longrightarrow> map key (map f t) = map key t"
  by (simp add: comp_def)

lemma get_update: "(\<And>r. key (f r) = key r) \<Longrightarrow> get i (map f t) = map_option f (get i t)"
  by (induction t) (auto simp: get_find)

end

text \<open>
  \<open>INTEGER PRIMARY KEY\<close> in SQLite: a row inserted without a key gets one more than the
  largest key in use.
\<close>

definition row_get :: "('r \<Rightarrow> int) \<Rightarrow> int \<Rightarrow> 'r list \<Rightarrow> 'r option" where
  "row_get key i t = find (\<lambda>r. key r = i) t"

definition next_rowid :: "('r \<Rightarrow> int) \<Rightarrow> 'r list \<Rightarrow> int" where
  "next_rowid key t = fold (\<lambda>r m. max m (key r)) t 0 + 1"

lemma fold_max_ge: "(m::int) \<le> fold (\<lambda>r m. max m (key r)) t m"
  by (induction t arbitrary: m) (simp_all, metis max.bounded_iff)

lemma fold_max_upper: "r \<in> set t \<Longrightarrow> (key r :: int) \<le> fold (\<lambda>r m. max m (key r)) t m"
proof (induction t arbitrary: m)
  case Nil
  then show ?case by simp
next
  case (Cons a t)
  have "max m (key a) \<le> fold (\<lambda>r m. max m (key r)) t (max m (key a))" by (rule fold_max_ge)
  with Cons show ?case by auto
qed

lemma keyed_table_rows: "keyed_table key (row_get key) (next_rowid key)"
proof
  fix i t show "row_get key i t = find (\<lambda>r. key r = i) t" by (simp add: row_get_def)
next
  fix t show "next_rowid key t \<notin> key ` set t"
  proof
    assume "next_rowid key t \<in> key ` set t"
    then obtain r where "r \<in> set t" and "next_rowid key t = key r" by auto
    with fold_max_upper [of r t key 0] show False by (simp add: next_rowid_def)
  qed
next
  fix t show "0 < next_rowid key t"
    using fold_max_ge [of 0 key t] by (simp add: next_rowid_def)
qed

section \<open>State machines\<close>

text \<open>
  A component with an initial state, a step relation and an invariant that holds at
  the start and is kept by every step: it holds in every state a run can reach.
\<close>

inductive reaches :: "('s \<Rightarrow> 's \<Rightarrow> bool) \<Rightarrow> 's \<Rightarrow> 's \<Rightarrow> bool" for step where
  reaches_refl: "reaches step s s"
| reaches_step: "reaches step s t \<Longrightarrow> step t u \<Longrightarrow> reaches step s u"

inductive_cases reaches_stepE: "reaches step s u"

lemma reaches_single: "step s t \<Longrightarrow> reaches step s t"
  by (rule reaches_step [OF reaches_refl])

lemma reaches_trans: "reaches step s t \<Longrightarrow> reaches step t u \<Longrightarrow> reaches step s u"
  by (rotate_tac, induction rule: reaches.induct) (auto intro: reaches.intros)

locale invariant_system =
  fixes init :: "'s \<Rightarrow> bool"
    and step :: "'s \<Rightarrow> 's \<Rightarrow> bool"
    and inv :: "'s \<Rightarrow> bool"
  assumes inv_init: "init s \<Longrightarrow> inv s"
    and inv_step: "inv s \<Longrightarrow> step s t \<Longrightarrow> inv t"
begin

lemma inv_from: "reaches step s t \<Longrightarrow> inv s \<Longrightarrow> inv t"
  by (induction rule: reaches.induct) (auto intro: inv_step)

lemma inv_reachable: "init s \<Longrightarrow> reaches step s t \<Longrightarrow> inv t"
  by (auto intro: inv_from inv_init)

end

end
