(* ===== verification/Encoding.thy ===== *)
theory Encoding
  imports Prelude
begin

text \<open>
  Base64 and hexadecimal as in Go's \<open>encoding/base64\<close> (\<open>StdEncoding\<close> and
  \<open>RawURLEncoding\<close>) and \<open>encoding/hex\<close>, with the round trip the passkey code relies on:
  decoding what \<open>RawURLEncoding\<close> wrote gives the bytes back.
\<close>

definition b64_index :: "bool \<Rightarrow> char \<Rightarrow> nat option" where
  "b64_index url c =
     (let n = byte c in
      if 65 \<le> n \<and> n \<le> 90 then Some (n - 65)
      else if 97 \<le> n \<and> n \<le> 122 then Some (n - 71)
      else if 48 \<le> n \<and> n \<le> 57 then Some (n + 4)
      else if n = (if url then 45 else 43) then Some 62
      else if n = (if url then 95 else 47) then Some 63
      else None)"

definition b64_char :: "bool \<Rightarrow> nat \<Rightarrow> char" where
  "b64_char url v =
     (if v < 26 then char_of (v + 65)
      else if v < 52 then char_of (v + 71)
      else if v < 62 then char_of (v - 4)
      else if v = 62 then (if url then CHR ''-'' else CHR ''+'')
      else (if url then CHR ''_'' else CHR ''/''))"

definition b64_bytes3 :: "nat \<Rightarrow> nat \<Rightarrow> nat \<Rightarrow> nat \<Rightarrow> string" where
  "b64_bytes3 a b c d =
     [char_of (a * 4 + b div 16), char_of ((b mod 16) * 16 + c div 4), char_of ((c mod 4) * 64 + d)]"

text \<open>Decoding by quanta of four characters; line breaks have been skipped before.\<close>

fun b64_decode_quanta :: "bool \<Rightarrow> bool \<Rightarrow> string \<Rightarrow> string option" where
  "b64_decode_quanta url pad [] = Some []"
| "b64_decode_quanta url pad (a # b # c # d # s) =
     (case (b64_index url a, b64_index url b) of
        (Some va, Some vb) \<Rightarrow>
          (if pad \<and> d = CHR ''='' then
             (if s \<noteq> [] then None
              else if c = CHR ''='' then Some (take 1 (b64_bytes3 va vb 0 0))
              else (case b64_index url c of
                      None \<Rightarrow> None
                    | Some vc \<Rightarrow> Some (take 2 (b64_bytes3 va vb vc 0))))
           else (case (b64_index url c, b64_index url d) of
                   (Some vc, Some vd) \<Rightarrow>
                     map_option (\<lambda>r. b64_bytes3 va vb vc vd @ r) (b64_decode_quanta url pad s)
                 | _ \<Rightarrow> None))
      | _ \<Rightarrow> None)"
| "b64_decode_quanta url pad [a, b] =
     (if pad then None
      else (case (b64_index url a, b64_index url b) of
              (Some va, Some vb) \<Rightarrow> Some (take 1 (b64_bytes3 va vb 0 0))
            | _ \<Rightarrow> None))"
| "b64_decode_quanta url pad [a, b, c] =
     (if pad then None
      else (case (b64_index url a, b64_index url b, b64_index url c) of
              (Some va, Some vb, Some vc) \<Rightarrow> Some (take 2 (b64_bytes3 va vb vc 0))
            | _ \<Rightarrow> None))"
| "b64_decode_quanta url pad [a] = None"

definition b64_std_decode :: "string \<Rightarrow> string option" where
  "b64_std_decode s = b64_decode_quanta False True (filter (\<lambda>c. c \<noteq> CHR 0x0A \<and> c \<noteq> CHR 0x0D) s)"

definition b64_url_decode :: "string \<Rightarrow> string option" where
  "b64_url_decode s = b64_decode_quanta True False (filter (\<lambda>c. c \<noteq> CHR 0x0A \<and> c \<noteq> CHR 0x0D) s)"

fun b64_url_encode :: "string \<Rightarrow> string" where
  "b64_url_encode (x # y # z # s) =
     b64_char True (byte x div 4) # b64_char True ((byte x mod 4) * 16 + byte y div 16)
     # b64_char True ((byte y mod 16) * 4 + byte z div 64) # b64_char True (byte z mod 64)
     # b64_url_encode s"
| "b64_url_encode [x, y] =
     [b64_char True (byte x div 4), b64_char True ((byte x mod 4) * 16 + byte y div 16),
      b64_char True ((byte y mod 16) * 4)]"
| "b64_url_encode [x] = [b64_char True (byte x div 4), b64_char True ((byte x mod 4) * 16)]"
| "b64_url_encode [] = []"

definition hex_digit :: "nat \<Rightarrow> char" where
  "hex_digit n = (if n < 10 then char_of (48 + n) else char_of (87 + n))"

definition hex_encode :: "string \<Rightarrow> string" where
  "hex_encode s = concat (map (\<lambda>c. [hex_digit (byte c div 16), hex_digit (byte c mod 16)]) s)"

section \<open>Round trip\<close>

lemma byte_less: "byte c < 256"
  by simp

lemma byte_char_of: "n < 256 \<Longrightarrow> byte (char_of n) = n"
  by (simp add: take_bit_eq_mod)

lemma b64_index_char: "v < 64 \<Longrightarrow> b64_index True (b64_char True v) = Some v"
  by (auto simp: b64_index_def b64_char_def byte_char_of Let_def)

lemma b64_char_not_newline:
  "v < 64 \<Longrightarrow> b64_char True v \<noteq> CHR 0x0A \<and> b64_char True v \<noteq> CHR 0x0D"
  using b64_index_char [of v] by (auto simp: b64_index_def Let_def split: if_splits)

lemma six_bit_split:
  fixes x y z :: nat
  assumes "x < 256" "y < 256" "z < 256"
  shows "x div 4 * 4 + ((x mod 4) * 16 + y div 16) div 16 = x"
    and "((x mod 4) * 16 + y div 16) mod 16 * 16 + ((y mod 16) * 4 + z div 64) div 4 = y"
    and "((y mod 16) * 4 + z div 64) mod 4 * 64 + z mod 64 = z"
proof -
  have y: "y div 16 < 16" and z: "z div 64 < 4" using assms by auto
  have "((x mod 4) * 16 + y div 16) div 16 = x mod 4" using y by (simp add: div_add1_eq)
  then show "x div 4 * 4 + ((x mod 4) * 16 + y div 16) div 16 = x" by simp
  have "((x mod 4) * 16 + y div 16) mod 16 = y div 16" using y by (simp add: mod_add_eq)
  moreover have "((y mod 16) * 4 + z div 64) div 4 = y mod 16" using z by simp
  ultimately show "((x mod 4) * 16 + y div 16) mod 16 * 16 + ((y mod 16) * 4 + z div 64) div 4 = y"
    by simp
  have "((y mod 16) * 4 + z div 64) mod 4 = z div 64" using z by simp
  then show "((y mod 16) * 4 + z div 64) mod 4 * 64 + z mod 64 = z" by simp
qed

lemma b64_bytes3_split:
  "b64_bytes3 (byte x div 4) ((byte x mod 4) * 16 + byte y div 16)
     ((byte y mod 16) * 4 + byte z div 64) (byte z mod 64) = [x, y, z]"
  unfolding b64_bytes3_def six_bit_split [OF byte_less [of x] byte_less [of y] byte_less [of z]]
  by simp

lemma b64_take2:
  "take 2 (b64_bytes3 (byte x div 4) ((byte x mod 4) * 16 + byte y div 16) ((byte y mod 16) * 4) 0) = [x, y]"
  using b64_bytes3_split [of x y "CHR 0x00"] by simp

lemma b64_take1: "take 1 (b64_bytes3 (byte x div 4) ((byte x mod 4) * 16) 0 0) = [x]"
  using b64_bytes3_split [of x "CHR 0x00" "CHR 0x00"] by simp

lemma six_bit_small:
  fixes x y z :: nat
  assumes "x < 256" "y < 256" "z < 256"
  shows "x div 4 < 64" "(x mod 4) * 16 + y div 16 < 64" "(x mod 4) * 16 < 64"
    "(y mod 16) * 4 + z div 64 < 64" "(y mod 16) * 4 < 64" "z mod 64 < 64"
proof -
  have "x mod 4 < 4" "y mod 16 < 16" "y div 16 < 16" "z div 64 < 4" "x div 4 < 64" "z mod 64 < 64"
    using assms by auto
  then show "x div 4 < 64" "(x mod 4) * 16 + y div 16 < 64" "(x mod 4) * 16 < 64"
    "(y mod 16) * 4 + z div 64 < 64" "(y mod 16) * 4 < 64" "z mod 64 < 64"
    by linarith+
qed

lemmas b64_values_small = six_bit_small [OF byte_less byte_less byte_less]

lemma b64_url_no_newline: "c \<in> set (b64_url_encode s) \<Longrightarrow> c \<noteq> CHR 0x0A \<and> c \<noteq> CHR 0x0D"
  by (induction s rule: b64_url_encode.induct)
    (auto simp: b64_char_not_newline [OF b64_values_small(1)] b64_char_not_newline [OF b64_values_small(2)]
      b64_char_not_newline [OF b64_values_small(3)] b64_char_not_newline [OF b64_values_small(4)]
      b64_char_not_newline [OF b64_values_small(5)] b64_char_not_newline [OF b64_values_small(6)]
      dest: sym)

lemma b64_decode_encode_quanta: "b64_decode_quanta True False (b64_url_encode s) = Some s"
  by (induction s rule: b64_url_encode.induct)
    (simp_all only: b64_url_encode.simps b64_decode_quanta.simps b64_index_char [OF b64_values_small(1)]
      b64_index_char [OF b64_values_small(2)] b64_index_char [OF b64_values_small(3)]
      b64_index_char [OF b64_values_small(4)] b64_index_char [OF b64_values_small(5)]
      b64_index_char [OF b64_values_small(6)] b64_bytes3_split b64_take1 b64_take2
      option.case prod.case if_False simp_thms option.map append.simps)

theorem b64_url_round_trip: "b64_url_decode (b64_url_encode s) = Some s"
proof -
  have "filter (\<lambda>c. c \<noteq> CHR 0x0A \<and> c \<noteq> CHR 0x0D) (b64_url_encode s) = b64_url_encode s"
    using b64_url_no_newline [of _ s] by (simp add: filter_id_conv)
  then show ?thesis by (simp add: b64_url_decode_def b64_decode_encode_quanta)
qed

lemma b64_url_encode_inject: "b64_url_encode s = b64_url_encode t \<Longrightarrow> s = t"
  by (metis b64_url_round_trip option.inject)

end
