(* ===== verification/Crypto.thy ===== *)
theory Crypto
  imports Prelude
begin

text \<open>
  The cryptographic primitives the code calls and does not implement: SHA-256,
  Ed25519, ECDSA and RSA verification, the parser of public keys, bcrypt and TOTP codes.
  They are the fields of a record that the definitions using them take as an argument;
  what a theorem needs of them is one of its hypotheses.
\<close>

datatype pubkey =
    EcdsaKey bool string   \<comment> \<open>whether the curve is P-256, and the key\<close>
  | Ed25519Key string
  | RsaKey nat string      \<comment> \<open>bit length of the modulus, and the key\<close>

record crypto =
  sha256 :: "string \<Rightarrow> string"
  ed25519_verify :: "string \<Rightarrow> string \<Rightarrow> string \<Rightarrow> bool"   \<comment> \<open>key, message, signature\<close>
  ecdsa_verify :: "string \<Rightarrow> string \<Rightarrow> string \<Rightarrow> bool"     \<comment> \<open>key, digest, signature\<close>
  rsa_verify :: "string \<Rightarrow> string \<Rightarrow> string \<Rightarrow> bool"       \<comment> \<open>key, digest, signature\<close>
  parse_pkix :: "string \<Rightarrow> pubkey option"
  bcrypt_generate :: "string \<Rightarrow> string option"
  bcrypt_compare :: "string \<Rightarrow> string \<Rightarrow> bool"           \<comment> \<open>hash, password\<close>
  totp_code :: "string \<Rightarrow> int \<Rightarrow> string option"         \<comment> \<open>secret, time step\<close>

end
