(* ===== verification/Update.thy ===== *)
theory Update
  imports Interfaces Encoding Crypto "HOL-Library.Product_Lexorder"
begin

text \<open>
  Signed agent updates: versions and manifests (\<open>internal/update/update.go\<close>), the updates
  the hub offers (\<open>internal/hub/agentupdate.go\<close>) and how the agent checks and installs one
  (\<open>internal/agent/update.go\<close>). Ed25519 verification and SHA-256 are parameters.
\<close>

section \<open>Versions\<close>

record semver =
  core :: "int \<times> int \<times> int"
  pre :: "string list"

definition parse_core_part :: "string \<Rightarrow> int option" where
  "parse_core_part p =
     (case ParseInt p of (n, err) \<Rightarrow>
        if err \<or> n < 0 \<or> (1 < length p \<and> hd p = CHR ''0'') then None else Some n)"

definition parseVersion :: "string \<Rightarrow> semver option" where
  "parseVersion s0 =
     (let s = fst (Cut CHR ''+'' (TrimPrefix s0 ''v'')) in
      case Cut CHR ''-'' s of (c, p, hasPre) \<Rightarrow>
        (case map parse_core_part (Split CHR ''.'' c) of
           [Some a, Some b, Some d] \<Rightarrow>
             (if hasPre then
                if p = [] then None
                else Some \<lparr>core = (a, b, d), pre = Split CHR ''.'' p\<rparr>
              else Some \<lparr>core = (a, b, d), pre = []\<rparr>)
         | _ \<Rightarrow> None))"

definition cmp_int :: "int \<Rightarrow> int \<Rightarrow> int" where
  "cmp_int a b = (if a \<noteq> b then (if a < b then - 1 else 1) else 0)"

text \<open>The loop over the pre-release identifiers, then the shorter list first.\<close>

fun compare_pre :: "string list \<Rightarrow> string list \<Rightarrow> int" where
  "compare_pre (x # xs) (y # ys) =
     (case (ParseInt x, ParseInt y) of
        ((xn, xerr), (yn, yerr)) \<Rightarrow>
          if \<not> xerr \<and> \<not> yerr then
            (if xn \<noteq> yn then (if xn < yn then - 1 else 1) else compare_pre xs ys)
          else if \<not> xerr then - 1
          else if \<not> yerr then 1
          else if x \<noteq> y then (if x < y then - 1 else 1)
          else compare_pre xs ys)"
| "compare_pre xs ys =
     (if length xs < length ys then - 1 else if length ys < length xs then 1 else 0)"

definition compare :: "semver \<Rightarrow> semver \<Rightarrow> int" where
  "compare a b =
     (case (core a, core b) of ((a0, a1, a2), (b0, b1, b2)) \<Rightarrow>
        if a0 \<noteq> b0 then (if a0 < b0 then - 1 else 1)
        else if a1 \<noteq> b1 then (if a1 < b1 then - 1 else 1)
        else if a2 \<noteq> b2 then (if a2 < b2 then - 1 else 1)
        else if pre a = [] \<and> pre b = [] then 0
        else if pre a = [] then 1
        else if pre b = [] then - 1
        else compare_pre (pre a) (pre b))"

definition IsRelease :: "string \<Rightarrow> bool" where
  "IsRelease v = (parseVersion v \<noteq> None)"

definition Newer :: "string \<Rightarrow> string \<Rightarrow> bool" where
  "Newer candidate current =
     (case parseVersion candidate of
        None \<Rightarrow> False
      | Some c \<Rightarrow> (case parseVersion current of None \<Rightarrow> True | Some cur \<Rightarrow> 0 < compare c cur))"

subsection \<open>The order behind compare\<close>

text \<open>
  A pre-release identifier counts as its number, or as its text; numbers come first.
  This is the reference order that \<open>compare\<close> implements.
\<close>

datatype ident = NumId int | TextId string

instantiation ident :: linorder
begin

fun less_eq_ident :: "ident \<Rightarrow> ident \<Rightarrow> bool" where
  "less_eq_ident (NumId m) (NumId n) = (m \<le> n)"
| "less_eq_ident (NumId m) (TextId t) = True"
| "less_eq_ident (TextId s) (NumId n) = False"
| "less_eq_ident (TextId s) (TextId t) = (s \<le> t)"

definition less_ident :: "ident \<Rightarrow> ident \<Rightarrow> bool" where
  "less_ident a b = (a \<le> b \<and> \<not> b \<le> a)"

instance
proof
  fix a b c :: ident
  show "(a < b) = (a \<le> b \<and> \<not> b \<le> a)" by (rule less_ident_def)
  show "a \<le> a" by (cases a) auto
  show "a \<le> b \<Longrightarrow> b \<le> c \<Longrightarrow> a \<le> c" by (cases a; cases b; cases c) auto
  show "a \<le> b \<Longrightarrow> b \<le> a \<Longrightarrow> a = b" by (cases a; cases b) auto
  show "a \<le> b \<or> b \<le> a" by (cases a; cases b) auto
qed

end

lemma less_ident_simps [simp]:
  "NumId m < NumId n \<longleftrightarrow> m < n" "NumId m < TextId t" "\<not> TextId s < NumId n" "TextId s < TextId t \<longleftrightarrow> s < t"
  by (auto simp: less_ident_def)

definition ident_of :: "string \<Rightarrow> ident" where
  "ident_of s = (case ParseInt s of (n, err) \<Rightarrow> if err then TextId s else NumId n)"

definition version_key :: "semver \<Rightarrow> (int \<times> int \<times> int) \<times> bool \<times> ident list" where
  "version_key v = (core v, pre v = [], map ident_of (pre v))"

lemma compare_pre_cmp3: "compare_pre xs ys = cmp3 (map ident_of xs) (map ident_of ys)"
proof (induction xs ys rule: list_induct2')
  case (4 x xs y ys)
  then show ?case
    by (auto simp: ident_of_def cmp3_def split: prod.splits)
qed (auto simp: cmp3_def)

theorem compare_key: "compare a b = cmp3 (version_key a) (version_key b)"
  by (cases a; cases b)
    (auto simp: compare_def version_key_def cmp3_def compare_pre_cmp3 less_prod_def split: prod.splits)

interpretation semver_cmp: three_way compare
  by (rule three_way_by_key [where key = version_key]) (rule compare_key)

lemma newer_trans: "Newer a b \<Longrightarrow> Newer b c \<Longrightarrow> Newer a c"
  using semver_cmp.gt_trans by (auto simp: Newer_def split: option.splits)

lemma newer_irrefl: "\<not> Newer a a"
  by (simp add: Newer_def semver_cmp.refl split: option.splits)

text \<open>
  \<open>Newer\<close> is a strict order on version strings, whatever the strings are: no
  version is newer than itself, two versions are never newer than each other, and newer
  than newer is newer. So no chain of accepted updates ever leads back to a version the
  agent already had.
\<close>

theorem newer_strict_order:
  "\<not> Newer a a \<and> \<not> (Newer a b \<and> Newer b a) \<and> (Newer a b \<and> Newer b c \<longrightarrow> Newer a c)"
proof (intro conjI impI)
  show "\<not> Newer a a" by (rule newer_irrefl)
  show "\<not> (Newer a b \<and> Newer b a)" using newer_irrefl newer_trans by blast
  show "Newer a b \<and> Newer b c \<Longrightarrow> Newer a c" using newer_trans by blast
qed

theorem newer_strict_order_witness:
  "Newer ''1.2.0'' ''v1.2.0-rc.1'' \<and> Newer ''v1.2.0-rc.1'' ''main-abc1234'' \<and>
   Newer ''1.2.0'' ''main-abc1234''"
proof -
  have "Newer ''1.2.0'' ''v1.2.0-rc.1''" and "Newer ''v1.2.0-rc.1'' ''main-abc1234''"
    by code_simp+
  with newer_strict_order [of "''1.2.0''" "''v1.2.0-rc.1''" "''main-abc1234''"] show ?thesis by simp
qed

section \<open>Manifests\<close>

record manifest =
  m_file :: string
  m_version :: string
  m_size :: int
  m_sha256 :: string
  m_signature :: string

datatype update_error =
    BadField | NotReleaseVersion string | NoSize | MalformedSignature | NotTrusted

definition AgentFile :: "string \<Rightarrow> string \<Rightarrow> string" where
  "AgentFile goos goarch =
     ''lotse-agent-'' @ goos @ ''-'' @ goarch @ (if goos = ''windows'' then ''.exe'' else [])"

definition signedPrefix :: string where
  "signedPrefix = ''lotse-agent-update-v1''"

definition bad_field :: "string \<Rightarrow> bool" where
  "bad_field f \<longleftrightarrow> f = [] \<or> ContainsAny f [CHR 0x0A, CHR 0x0D]"

definition message :: "manifest \<Rightarrow> update_error + string" where
  "message m =
     (if list_ex bad_field [m_file m, m_version m, m_sha256 m] then Inl BadField
      else if parseVersion (m_version m) = None then Inl (NotReleaseVersion (m_version m))
      else if m_size m \<le> 0 then Inl NoSize
      else Inr (signedPrefix @ [CHR 0x0A] @ m_file m @ [CHR 0x0A] @ m_version m @ [CHR 0x0A]
                @ show_int (m_size m) @ [CHR 0x0A] @ m_sha256 m @ [CHR 0x0A]))"

definition TrustedKeys :: "string list" where
  "TrustedKeys = [''lITcC4wbtAxvFw8+vlnsF174FzVYVYm8Qgn9D+0aT64='']"

fun verify_with :: "crypto \<Rightarrow> string list \<Rightarrow> string \<Rightarrow> string \<Rightarrow> bool" where
  "verify_with cr [] msg sig = False"
| "verify_with cr (k # ks) msg sig =
     (case b64_std_decode k of
        None \<Rightarrow> verify_with cr ks msg sig
      | Some pub \<Rightarrow>
          if length pub \<noteq> 32 then verify_with cr ks msg sig
          else if ed25519_verify cr pub msg sig then True
          else verify_with cr ks msg sig)"

text \<open>\<open>Verify\<close> returns no error (\<open>None\<close>) or the error.\<close>

definition Verify :: "crypto \<Rightarrow> manifest \<Rightarrow> update_error option" where
  "Verify cr m =
     (case message m of
        Inl e \<Rightarrow> Some e
      | Inr msg \<Rightarrow>
          (case b64_std_decode (m_signature m) of
             None \<Rightarrow> Some MalformedSignature
           | Some sig \<Rightarrow>
               if length sig \<noteq> 64 then Some MalformedSignature
               else if verify_with cr TrustedKeys msg sig then None
               else Some NotTrusted))"

lemma cut_unique:
  assumes "c \<notin> set a" "c \<notin> set a'" "a @ [c] @ b = a' @ [c] @ b'"
  shows "a = a' \<and> b = b'"
  using assms
proof (induction a arbitrary: a')
  case Nil
  then show ?case by (cases a') auto
next
  case (Cons x a)
  then show ?case by (cases a') auto
qed

lemma show_int_no_newline: "CHR 0x0A \<notin> set (show_int n)"
proof -
  have "CHR 0x0A \<notin> set (show_nat k)" for k
    using show_nat_digits [of k] by (auto simp: list_all_iff is_digit_def)
  then show ?thesis by (simp add: show_int_def)
qed

lemma show_int_inject: "show_int m = show_int n \<Longrightarrow> m = n"
proof -
  have neq: "show_nat k \<noteq> CHR ''-'' # s" for k s
    using show_nat_digits [of k] by (auto simp: list_all_iff is_digit_def)
  show "show_int m = show_int n \<Longrightarrow> m = n"
    by (auto simp: show_int_def neq dest: neq [symmetric, THEN notE] split: if_splits)
qed

lemma bad_field_newline: "\<not> bad_field f \<Longrightarrow> CHR 0x0A \<notin> set f"
  by (auto simp: bad_field_def ContainsAny_def list_ex_iff)

lemma message_inject:
  assumes "message m = Inr x" and "message m' = Inr x"
  shows "m_file m = m_file m' \<and> m_version m = m_version m' \<and>
    m_size m = m_size m' \<and> m_sha256 m = m_sha256 m'"
proof -
  let ?n = "[CHR 0x0A] :: string"
  have x: "x = signedPrefix @ ?n @ m_file m @ ?n @ m_version m @ ?n @ show_int (m_size m) @ ?n @ m_sha256 m @ ?n"
    and fields: "CHR 0x0A \<notin> set (m_file m)" "CHR 0x0A \<notin> set (m_version m)" "CHR 0x0A \<notin> set (m_sha256 m)"
    using assms(1) by (auto simp: message_def bad_field_newline split: if_splits)
  have x': "x = signedPrefix @ ?n @ m_file m' @ ?n @ m_version m' @ ?n @ show_int (m_size m') @ ?n @ m_sha256 m' @ ?n"
    and fields': "CHR 0x0A \<notin> set (m_file m')" "CHR 0x0A \<notin> set (m_version m')" "CHR 0x0A \<notin> set (m_sha256 m')"
    using assms(2) by (auto simp: message_def bad_field_newline split: if_splits)
  have "m_file m @ ?n @ m_version m @ ?n @ show_int (m_size m) @ ?n @ m_sha256 m @ ?n =
      m_file m' @ ?n @ m_version m' @ ?n @ show_int (m_size m') @ ?n @ m_sha256 m' @ ?n"
    using x x' by simp
  from cut_unique [OF fields(1) fields'(1) this] have f: "m_file m = m_file m'"
    and "m_version m @ ?n @ show_int (m_size m) @ ?n @ m_sha256 m @ ?n =
      m_version m' @ ?n @ show_int (m_size m') @ ?n @ m_sha256 m' @ ?n" by blast+
  from cut_unique [OF fields(2) fields'(2) this(2)] have v: "m_version m = m_version m'"
    and "show_int (m_size m) @ ?n @ m_sha256 m @ ?n = show_int (m_size m') @ ?n @ m_sha256 m' @ ?n"
    by blast+
  from cut_unique [OF show_int_no_newline show_int_no_newline this(2)] show ?thesis
    using f v by (auto dest: show_int_inject)
qed

text \<open>
  The signed message determines the manifest: two manifests that produce the same
  message agree on file, version, size and checksum. A signature for one binary can
  therefore not be moved to another name, version, length or content.
\<close>

theorem message_injective:
  assumes "message m = Inr x" and "message m' = Inr x"
  shows "m_file m = m_file m' \<and> m_version m = m_version m' \<and>
    m_size m = m_size m' \<and> m_sha256 m = m_sha256 m'"
  using assms by (rule message_inject)

theorem message_injective_witness:
  "let m = \<lparr>m_file = ''a'', m_version = ''1.0.0'', m_size = 7, m_sha256 = ''f'', m_signature = ''s''\<rparr>;
       m' = m\<lparr>m_signature := ''t''\<rparr>;
       x = signedPrefix @ [CHR 0x0A] @ ''a'' @ [CHR 0x0A] @ ''1.0.0'' @ [CHR 0x0A] @ ''7'' @ [CHR 0x0A]
          @ ''f'' @ [CHR 0x0A]
   in message m = Inr x \<and> message m' = Inr x \<and> m_sha256 m = m_sha256 m'"
proof -
  let ?m = "\<lparr>m_file = ''a'', m_version = ''1.0.0'', m_size = 7, m_sha256 = ''f'', m_signature = ''s''\<rparr>"
  let ?x = "signedPrefix @ [CHR 0x0A] @ ''a'' @ [CHR 0x0A] @ ''1.0.0'' @ [CHR 0x0A] @ ''7'' @ [CHR 0x0A]
          @ ''f'' @ [CHR 0x0A]"
  have "parseVersion ''1.0.0'' \<noteq> None" by code_simp
  then have x: "message ?m = Inr ?x" "message (?m\<lparr>m_signature := ''t''\<rparr>) = Inr ?x"
    by (simp_all add: message_def bad_field_def ContainsAny_def show_eval)
  show ?thesis using x message_injective [OF x] by (simp only: Let_def)
qed

end
