(* ===== verification/SelfUpdate.thy ===== *)
theory SelfUpdate
  imports Update
begin

text \<open>
  Agent self-updates on both ends: the manifests the hub offers
  (\<open>hub/agentupdate.go\<close>) and what the agent checks and installs (\<open>agent/update.go\<close>).

  The file system is a map from paths to contents. What the operating system answers
  (whether a file can be created, written, renamed; what the new binary prints) is the
  record \<open>os_env\<close>; the theorems hold for every answer.
\<close>

section \<open>The hub: which updates are offered\<close>

definition ManifestExt :: string where
  "ManifestExt = ''.sig''"

text \<open>
  The agent directory: the manifest files found by \<open>Glob\<close> (base name and the result of
  \<open>ReadManifest\<close>, \<open>None\<close> when unreadable or not JSON) and the files by name.
\<close>

record agent_dir =
  sig_files :: "(string \<times> manifest option) list"
  dir_files :: "string \<Rightarrow> string option"
  gunzip :: "string \<Rightarrow> string option"

definition openAgentBinary :: "agent_dir \<Rightarrow> string \<Rightarrow> string option" where
  "openAgentBinary d name =
     (case dir_files d (name @ ''.gz'') of
        Some z \<Rightarrow> gunzip d z
      | None \<Rightarrow> dir_files d name)"

fun loadUpdates_from ::
    "crypto \<Rightarrow> agent_dir \<Rightarrow> (string \<times> manifest option) list \<Rightarrow> (string \<rightharpoonup> manifest) \<Rightarrow> (string \<rightharpoonup> manifest)" where
  "loadUpdates_from cr d [] ups = ups"
| "loadUpdates_from cr d ((base, r) # ps) ups =
     (case r of
        None \<Rightarrow> loadUpdates_from cr d ps ups
      | Some m \<Rightarrow>
          if Verify cr m \<noteq> None \<or> m_file m @ ManifestExt \<noteq> base then loadUpdates_from cr d ps ups
          else if openAgentBinary d (m_file m) = None then loadUpdates_from cr d ps ups
          else loadUpdates_from cr d ps (ups(m_file m \<mapsto> m)))"

definition loadUpdates :: "crypto \<Rightarrow> agent_dir \<Rightarrow> (string \<rightharpoonup> manifest)" where
  "loadUpdates cr d = loadUpdates_from cr d (sig_files d) Map.empty"

definition updateFor :: "(string \<rightharpoonup> manifest) \<Rightarrow> string \<Rightarrow> string \<Rightarrow> string \<Rightarrow> manifest option" where
  "updateFor ups os arch agentVersion =
     (if os = [] \<or> arch = [] then None
      else case ups (AgentFile os arch) of
             None \<Rightarrow> None
           | Some m \<Rightarrow> if Newer (m_version m) agentVersion then Some m else None)"

definition FeatureUpdate :: string where
  "FeatureUpdate = ''update''"

definition updateVersion :: "(string \<rightharpoonup> manifest) \<Rightarrow> string \<Rightarrow> string \<Rightarrow> string \<Rightarrow> string list \<Rightarrow> string" where
  "updateVersion ups agentVersion os arch features =
     (if FeatureUpdate \<notin> set features then []
      else case updateFor ups os arch agentVersion of None \<Rightarrow> [] | Some m \<Rightarrow> m_version m)"

section \<open>The agent: what is accepted\<close>

definition maxUpdateSize :: int where
  "maxUpdateSize = 200 * 2 ^ 20"

datatype update_reject =
    UpdatesDisabled | InvalidManifest | ManifestRejected update_error | WrongFile string string
  | NotNewer string string | TooLarge | InProgress | NoExecutable

record platform =
  goos :: string
  goarch :: string

text \<open>The checks of \<open>handleUpdate\<close> up to the size; \<open>None\<close> when all pass.\<close>

definition update_check ::
    "crypto \<Rightarrow> platform \<Rightarrow> bool \<Rightarrow> string \<Rightarrow> manifest option \<Rightarrow> update_reject option" where
  "update_check cr pf disabled running mo =
     (if disabled then Some UpdatesDisabled
      else case mo of
        None \<Rightarrow> Some InvalidManifest
      | Some m \<Rightarrow>
          (case Verify cr m of
             Some e \<Rightarrow> Some (ManifestRejected e)
           | None \<Rightarrow>
               let want = AgentFile (goos pf) (goarch pf) in
               if m_file m \<noteq> want then Some (WrongFile (m_file m) want)
               else if \<not> Newer (m_version m) running then Some (NotNewer (m_version m) running)
               else if maxUpdateSize < m_size m then Some TooLarge
               else None))"

section \<open>The agent: installation\<close>

type_synonym fs = "string \<Rightarrow> string option"

record os_env =
  temp_rand :: "string option"      \<comment> \<open>\<open>CreateTemp\<close>: what replaces the \<open>*\<close> of the pattern, or an error\<close>
  copy_ok :: bool                   \<comment> \<open>\<open>io.Copy\<close> and \<open>Close\<close> report no error\<close>
  chmod_ok :: bool
  probe :: "string \<Rightarrow> string option" \<comment> \<open>output of running the file with argument \<open>version\<close>\<close>
  rename_ok :: "string \<Rightarrow> string \<Rightarrow> bool"

datatype install_error =
    CannotWrite | ReceivingFailed | ChecksumMismatch | ChmodFailed | DoesNotRun | RenameFailed

definition remove_file :: "string \<Rightarrow> fs \<Rightarrow> fs" where
  "remove_file p f = f(p := None)"

definition rename_file :: "os_env \<Rightarrow> string \<Rightarrow> string \<Rightarrow> fs \<Rightarrow> bool \<times> fs" where
  "rename_file env a b f =
     (if rename_ok env a b \<and> f a \<noteq> None then (True, f(b := f a, a := None)) else (False, f))"

definition swap_in :: "os_env \<Rightarrow> platform \<Rightarrow> string \<Rightarrow> string \<Rightarrow> fs \<Rightarrow> install_error option \<times> fs" where
  "swap_in env pf tmp exe f =
     (if goos pf \<noteq> ''windows'' then
        (case rename_file env tmp exe f of
           (ok, f') \<Rightarrow> (if ok then None else Some RenameFailed, f'))
      else
        let old = exe @ ''.old''; f = remove_file old f in
        case rename_file env exe old f of
          (False, f) \<Rightarrow> (Some RenameFailed, f)
        | (True, f) \<Rightarrow>
            (case rename_file env tmp exe f of
               (True, f) \<Rightarrow> (None, f)
             | (False, f) \<Rightarrow> (Some RenameFailed, snd (rename_file env old exe f))))"

text \<open>The name \<open>CreateTemp\<close> gives the new file, in the directory of \<open>exe\<close>.\<close>

definition temp_path :: "platform \<Rightarrow> string \<Rightarrow> string \<Rightarrow> string" where
  "temp_path pf exe rnd =
     (let sep = (if goos pf = ''windows'' then CHR 0x5C else CHR ''/'');
          base = rev (takeWhile (\<lambda>c. c \<noteq> sep) (rev exe));
          dir = take (length exe - length base) exe
      in dir @ ''.'' @ base @ ''-update-'' @ rnd @ (if goos pf = ''windows'' then ''.exe'' else []))"

text \<open>
  \<open>install\<close> with the bytes that arrive on the channel. The deferred removal of the
  temporary file happens on every path after its creation.
\<close>

definition install ::
    "crypto \<Rightarrow> os_env \<Rightarrow> platform \<Rightarrow> string \<Rightarrow> string \<Rightarrow> manifest \<Rightarrow> fs \<Rightarrow> install_error option \<times> fs" where
  "install cr env pf exe incoming m f =
     (case temp_rand env of
        None \<Rightarrow> (Some CannotWrite, f)
      | Some rnd \<Rightarrow>
          let tmp = temp_path pf exe rnd;
              data = take (nat (m_size m)) incoming;
              f = f(tmp \<mapsto> data);
              (err, f) =
                (if \<not> copy_ok env then (Some ReceivingFailed, f)
                 else if int (length data) \<noteq> m_size m \<or> hex_encode (sha256 cr data) \<noteq> m_sha256 m
                 then (Some ChecksumMismatch, f)
                 else if \<not> chmod_ok env then (Some ChmodFailed, f)
                 else (case probe env data of
                   None \<Rightarrow> (Some DoesNotRun, f)
                 | Some out \<Rightarrow>
                     if \<not> Contains out (m_version m) then (Some DoesNotRun, f)
                     else swap_in env pf tmp exe f))
          in (err, remove_file tmp f))"

definition cleanupUpdate :: "string option \<Rightarrow> fs \<Rightarrow> fs" where
  "cleanupUpdate exe f = (case exe of None \<Rightarrow> f | Some e \<Rightarrow> remove_file (e @ ''.old'') f)"

definition executable :: "string \<Rightarrow> string option \<Rightarrow> string option" where
  "executable configured evaluated = (if configured \<noteq> [] then Some configured else evaluated)"

section \<open>The agent: handling an update\<close>

text \<open>
  The agent process: the version it runs, the flag \<open>updating\<close> and the files. \<open>installing\<close>
  lists the manifests of the handlers that passed the compare-and-swap and have not
  returned; the code has no such variable, it is the set of goroutines.
\<close>

record updater =
  running_version :: string
  updating :: bool
  installing :: "manifest list"
  disk :: fs

datatype update_outcome =
    Rejected update_reject | NotAccepted | Installed | InstallFailed install_error

definition update_begin ::
    "crypto \<Rightarrow> platform \<Rightarrow> bool \<Rightarrow> string option \<Rightarrow> manifest option \<Rightarrow> updater \<Rightarrow> update_reject option \<times> updater" where
  "update_begin cr pf disabled exe mo s =
     (case update_check cr pf disabled (running_version s) mo of
        Some r \<Rightarrow> (Some r, s)
      | None \<Rightarrow>
          if updating s then (Some InProgress, s)
          else (case exe of
            None \<Rightarrow> (Some NoExecutable, s\<lparr>updating := False\<rparr>)
          | Some e \<Rightarrow> (None, s\<lparr>updating := True, installing := the mo # installing s\<rparr>)))"

definition update_end ::
    "crypto \<Rightarrow> os_env \<Rightarrow> platform \<Rightarrow> string \<Rightarrow> bool \<Rightarrow> string \<Rightarrow> manifest \<Rightarrow> updater \<Rightarrow> update_outcome \<times> updater" where
  "update_end cr env pf exe accepted incoming m s =
     (let s = s\<lparr>installing := remove1 m (installing s)\<rparr> in
      if \<not> accepted then (NotAccepted, s\<lparr>updating := False\<rparr>)
      else case install cr env pf exe incoming m (disk s) of
        (Some e, f) \<Rightarrow> (InstallFailed e, s\<lparr>updating := False, disk := f\<rparr>)
      | (None, f) \<Rightarrow> (Installed, s\<lparr>updating := False, disk := f\<rparr>))"

text \<open>One handler from start to end, with no other update arriving meanwhile.\<close>

definition handleUpdate ::
    "crypto \<Rightarrow> os_env \<Rightarrow> platform \<Rightarrow> bool \<Rightarrow> string option \<Rightarrow> manifest option \<Rightarrow> bool \<Rightarrow> string \<Rightarrow> updater
      \<Rightarrow> update_outcome \<times> updater" where
  "handleUpdate cr env pf disabled exe mo accepted incoming s =
     (case update_begin cr pf disabled exe mo s of
        (Some r, s) \<Rightarrow> (Rejected r, s)
      | (None, s) \<Rightarrow> update_end cr env pf (the exe) accepted incoming (the mo) s)"

text \<open>
  Interleaved handlers, restarts and the clean-up at start. A restarted agent runs the
  binary at \<open>exe\<close> and reports the version built into it.
\<close>

inductive update_step ::
    "crypto \<Rightarrow> platform \<Rightarrow> bool \<Rightarrow> string \<Rightarrow> (string \<Rightarrow> string) \<Rightarrow> updater \<Rightarrow> updater \<Rightarrow> bool"
  for cr pf disabled exe built where
  step_begin: "update_begin cr pf disabled (Some exe) mo s = (r, s') \<Longrightarrow>
    update_step cr pf disabled exe built s s'"
| step_end: "m \<in> set (installing s) \<Longrightarrow> update_end cr env pf exe accepted incoming m s = (r, s') \<Longrightarrow>
    update_step cr pf disabled exe built s s'"
| step_restart: "disk s exe = Some data \<Longrightarrow>
    update_step cr pf disabled exe built s
      (s\<lparr>running_version := built data, updating := False, installing := [],
         disk := cleanupUpdate (Some exe) (disk s)\<rparr>)"

section \<open>Properties\<close>

lemma temp_path_length: "length exe + 8 < length (temp_path pf exe rnd)"
proof -
  have "length (takeWhile p (rev exe)) \<le> length exe" for p
    using length_takeWhile_le [of p "rev exe"] by simp
  then show ?thesis by (simp add: temp_path_def Let_def)
qed

lemma temp_path_distinct [simp]:
  "temp_path pf exe rnd \<noteq> exe" "temp_path pf exe rnd \<noteq> exe @ ''.old''" "exe \<noteq> temp_path pf exe rnd"
  "exe @ ''.old'' \<noteq> temp_path pf exe rnd"
proof -
  have "length (temp_path pf exe rnd) \<noteq> length exe"
    and "length (temp_path pf exe rnd) \<noteq> length (exe @ ''.old'')"
    using temp_path_length [of exe pf rnd] by simp_all
  then show "temp_path pf exe rnd \<noteq> exe" "temp_path pf exe rnd \<noteq> exe @ ''.old''"
    "exe \<noteq> temp_path pf exe rnd" "exe @ ''.old'' \<noteq> temp_path pf exe rnd" by metis+
qed

lemma swap_in_cases:
  assumes "swap_in env pf tmp exe f = (r, f')" and "tmp \<noteq> exe" "tmp \<noteq> exe @ ''.old''" and "f tmp = Some data"
  shows "case r of None \<Rightarrow> f' exe = Some data
    | Some e \<Rightarrow> f' exe = f exe \<or> goos pf = ''windows'' \<and> f' exe = None \<and> f' (exe @ ''.old'') = f exe"
    and "p \<notin> {tmp, exe, exe @ ''.old''} \<Longrightarrow> f' p = f p"
    and "goos pf \<noteq> ''windows'' \<Longrightarrow> p \<notin> {tmp, exe} \<Longrightarrow> f' p = f p"
  using assms
  by (auto simp: swap_in_def rename_file_def remove_file_def Let_def split: if_splits bool.splits)

definition verified_data :: "crypto \<Rightarrow> manifest \<Rightarrow> string \<Rightarrow> bool" where
  "verified_data cr m data \<longleftrightarrow>
     int (length data) = m_size m \<and> hex_encode (sha256 cr data) = m_sha256 m"

lemma install_cases:
  assumes "install cr env pf exe incoming m f = (r, f')"
  shows "case r of
      None \<Rightarrow> (\<exists>data out. f' exe = Some data \<and> data = take (nat (m_size m)) incoming \<and>
        verified_data cr m data \<and> probe env data = Some out \<and> Contains out (m_version m))
    | Some e \<Rightarrow> f' exe = f exe \<or> goos pf = ''windows'' \<and> f' exe = None \<and> f' (exe @ ''.old'') = f exe"
proof (cases "temp_rand env")
  case None
  with assms show ?thesis by (auto simp: install_def)
next
  case (Some rnd)
  let ?tmp = "temp_path pf exe rnd" and ?data = "take (nat (m_size m)) incoming"
  let ?f = "f(?tmp \<mapsto> ?data)"
  have [simp]: "?f exe = f exe" by simp
  show ?thesis
  proof (cases "copy_ok env \<and> verified_data cr m ?data \<and> chmod_ok env \<and>
      (\<exists>out. probe env ?data = Some out \<and> Contains out (m_version m))")
    case True
    obtain f1 where sw: "swap_in env pf ?tmp exe ?f = (r, f1)" and f': "f' = remove_file ?tmp f1"
      using assms Some True
      by (cases "swap_in env pf ?tmp exe ?f") (auto simp: install_def verified_data_def Let_def)
    have "f' exe = f1 exe" "f' (exe @ ''.old'') = f1 (exe @ ''.old'')"
      by (simp_all add: f' remove_file_def)
    with swap_in_cases(1) [OF sw, of ?data] True show ?thesis by (auto split: option.splits)
  next
    case False
    with assms Some have "r \<noteq> None" and "f' = remove_file ?tmp ?f"
      by (auto simp: install_def verified_data_def Let_def split: if_splits option.splits prod.splits)
    then show ?thesis by (auto simp: remove_file_def split: option.splits)
  qed
qed

lemma install_frame:
  assumes "install cr env pf exe incoming m f = (r, f')" and "p \<notin> {exe, exe @ ''.old''}"
    and "\<And>rnd. temp_rand env = Some rnd \<Longrightarrow> f (temp_path pf exe rnd) = None"
  shows "f' p = f p"
proof (cases "temp_rand env")
  case None
  with assms show ?thesis by (auto simp: install_def)
next
  case (Some rnd)
  let ?tmp = "temp_path pf exe rnd"
  show ?thesis
  proof (cases "p = ?tmp")
    case True
    with assms(1) Some assms(3) [OF Some] show ?thesis
      by (auto simp: install_def Let_def remove_file_def split: prod.splits)
  next
    case False
    have "swap_in env pf ?tmp exe g = (r', g') \<Longrightarrow> g ?tmp = Some d \<Longrightarrow> g' p = g p" for g r' g' d
      using swap_in_cases(2) [of env pf ?tmp exe g r' g' d p] assms(2) False by auto
    from this [of "f(?tmp \<mapsto> take (nat (m_size m)) incoming)"] assms(1) Some False show ?thesis
      by (auto simp: install_def Let_def remove_file_def split: if_splits option.splits prod.splits)
  qed
qed

text \<open>
  (C1) An installation either succeeds, and then the binary in place is exactly the
  received data with the signed length and checksum, and it ran and printed the signed
  version; or it reports an error, and then the old binary is untouched (or, on Windows,
  when putting it back failed too, still there under \<open>.old\<close>). In both cases no other file
  changes, given that the temporary file is a new one.
\<close>

theorem install_all_or_nothing:
  assumes "install cr env pf exe incoming m f = (r, f')"
    and "\<And>rnd. temp_rand env = Some rnd \<Longrightarrow> f (temp_path pf exe rnd) = None"
  shows "(case r of
      None \<Rightarrow> (\<exists>data out. f' exe = Some data \<and> data = take (nat (m_size m)) incoming \<and>
        verified_data cr m data \<and> probe env data = Some out \<and> Contains out (m_version m))
    | Some e \<Rightarrow> f' exe = f exe \<or> goos pf = ''windows'' \<and> f' exe = None \<and> f' (exe @ ''.old'') = f exe) \<and>
    (\<forall>p. p \<notin> {exe, exe @ ''.old''} \<longrightarrow> f' p = f p)"
  using install_cases [OF assms(1)] install_frame [OF assms(1) _ assms(2)] by blast

lemma update_check_None:
  "update_check cr pf disabled v mo = None \<longleftrightarrow>
     \<not> disabled \<and> (\<exists>m. mo = Some m \<and> Verify cr m = None \<and> m_file m = AgentFile (goos pf) (goarch pf) \<and>
       Newer (m_version m) v \<and> m_size m \<le> maxUpdateSize)"
  by (auto simp: update_check_def Let_def split: option.splits)

text \<open>
  What holds between the steps: at most one handler is past the compare-and-swap, the
  flag says whether there is one, and its manifest passed every check.
\<close>

definition update_inv :: "crypto \<Rightarrow> platform \<Rightarrow> bool \<Rightarrow> updater \<Rightarrow> bool" where
  "update_inv cr pf disabled s \<longleftrightarrow>
     (updating s \<longleftrightarrow> installing s \<noteq> []) \<and> length (installing s) \<le> 1 \<and>
     (\<forall>m \<in> set (installing s). update_check cr pf disabled (running_version s) (Some m) = None)"

definition update_idle :: "updater \<Rightarrow> bool" where
  "update_idle s \<longleftrightarrow> \<not> updating s \<and> installing s = []"

lemma update_begin_inv:
  assumes "update_inv cr pf disabled s" and "update_begin cr pf disabled exe mo s = (r, s')"
  shows "update_inv cr pf disabled s'" and "disk s' = disk s" and "running_version s' = running_version s"
proof -
  show "disk s' = disk s" "running_version s' = running_version s"
    using assms(2) by (auto simp: update_begin_def split: option.splits if_splits)
  show "update_inv cr pf disabled s'"
    using assms by (auto simp: update_begin_def update_inv_def update_check_None split: option.splits if_splits)
qed

lemma update_end_inv:
  assumes "update_inv cr pf disabled s" and "m \<in> set (installing s)"
    and "update_end cr env pf exe accepted incoming m s = (r, s')"
  shows "update_inv cr pf disabled s'" and "running_version s' = running_version s"
    and "disk s' = disk s \<or> (\<exists>r. install cr env pf exe incoming m (disk s) = (r, disk s'))"
proof -
  have one: "installing s = [m]" using assms(1,2)
    by (cases "installing s") (auto simp: update_inv_def)
  then have "installing s' = []" "\<not> updating s'"
    using assms(3) by (auto simp: update_end_def Let_def split: option.splits if_splits prod.splits)
  then show "update_inv cr pf disabled s'" by (simp add: update_inv_def)
  show "running_version s' = running_version s"
    "disk s' = disk s \<or> (\<exists>r. install cr env pf exe incoming m (disk s) = (r, disk s'))"
    using assms(3) by (auto simp: update_end_def Let_def split: option.splits if_splits prod.splits)
qed

interpretation one_update: invariant_system update_idle "update_step cr pf disabled exe built" "update_inv cr pf disabled"
proof
  show "update_idle s \<Longrightarrow> update_inv cr pf disabled s" for s
    by (simp add: update_idle_def update_inv_def)
  show "update_inv cr pf disabled t"
    if "update_inv cr pf disabled s" "update_step cr pf disabled exe built s t" for s t
    using that(2,1)
  proof (cases rule: update_step.cases)
    case (step_restart data)
    then show ?thesis by (simp add: update_inv_def)
  qed (auto dest: update_begin_inv update_end_inv)
qed

text \<open>
  (C2) However update requests, restarts and running installations interleave, at most
  one installation is in progress, and the manifest being installed carries a trusted
  signature, is for this platform, is newer than the running version and within the size
  limit; with updates disabled there is none.
\<close>

theorem one_update_at_a_time:
  assumes "update_idle s" and "reaches (update_step cr pf disabled exe built) s t"
  shows "length (installing t) \<le> 1 \<and> (updating t \<longleftrightarrow> installing t \<noteq> []) \<and>
    (\<forall>m \<in> set (installing t). \<not> disabled \<and> Verify cr m = None \<and>
       m_file m = AgentFile (goos pf) (goarch pf) \<and> Newer (m_version m) (running_version t) \<and>
       m_size m \<le> maxUpdateSize)"
  using one_update.inv_reachable [OF assms] by (auto simp: update_inv_def update_check_None)

definition signed_release :: "crypto \<Rightarrow> (string \<Rightarrow> string) \<Rightarrow> bool" where
  "signed_release cr built \<longleftrightarrow>
     (\<forall>m data. Verify cr m = None \<and> verified_data cr m data \<longrightarrow> built data = m_version m)"

definition at_least :: "string \<Rightarrow> string \<Rightarrow> bool" where
  "at_least v w \<longleftrightarrow> v = w \<or> Newer v w"

definition chain_inv ::
    "crypto \<Rightarrow> platform \<Rightarrow> bool \<Rightarrow> string \<Rightarrow> (string \<Rightarrow> string) \<Rightarrow> string \<Rightarrow> updater \<Rightarrow> bool" where
  "chain_inv cr pf disabled exe built v0 s \<longleftrightarrow>
     update_inv cr pf disabled s \<and> at_least (running_version s) v0 \<and>
     (case disk s exe of None \<Rightarrow> True | Some d \<Rightarrow> at_least (built d) (running_version s))"

definition chain_start :: "string \<Rightarrow> (string \<Rightarrow> string) \<Rightarrow> string \<Rightarrow> updater \<Rightarrow> bool" where
  "chain_start exe built v0 s \<longleftrightarrow>
     update_idle s \<and> running_version s = v0 \<and>
     (case disk s exe of None \<Rightarrow> True | Some d \<Rightarrow> built d = v0)"

lemma at_least_trans: "at_least u v \<Longrightarrow> at_least v w \<Longrightarrow> at_least u w"
  using newer_trans [of u v w] by (auto simp: at_least_def)

lemma chain_inv_step:
  assumes rel: "signed_release cr built" and inv: "chain_inv cr pf disabled exe built v0 s"
    and step: "update_step cr pf disabled exe built s t"
  shows "chain_inv cr pf disabled exe built v0 t"
  using step
proof (cases rule: update_step.cases)
  case (step_begin mo r)
  have "update_inv cr pf disabled s" using inv by (simp add: chain_inv_def)
  from update_begin_inv [OF this step_begin] inv show ?thesis
    by (simp only: chain_inv_def)
next
  case (step_end m env accepted incoming r)
  have upd: "update_inv cr pf disabled s" using inv by (simp add: chain_inv_def)
  note e = update_end_inv [OF upd step_end(1,2)]
  have m: "Verify cr m = None" "Newer (m_version m) (running_version s)"
    using upd step_end(1) by (auto simp: update_inv_def update_check_None)
  have "at_least (built d) (running_version s)" if d: "disk t exe = Some d" for d
    using e(3)
  proof
    assume "disk t = disk s"
    with d inv show ?thesis by (simp add: chain_inv_def)
  next
    assume "\<exists>r. install cr env pf exe incoming m (disk s) = (r, disk t)"
    then obtain r where "install cr env pf exe incoming m (disk s) = (r, disk t)" ..
    from install_cases [OF this] d
    have "disk s exe = Some d \<or> verified_data cr m d" by (cases r) auto
    then show ?thesis
    proof
      assume "disk s exe = Some d"
      with inv show ?thesis by (simp add: chain_inv_def)
    next
      assume "verified_data cr m d"
      with rel m show ?thesis by (auto simp: signed_release_def at_least_def)
    qed
  qed
  with e inv show ?thesis by (simp add: chain_inv_def split: option.splits)
next
  case (step_restart data)
  then have d: "at_least (built data) (running_version s)" "at_least (running_version s) v0"
    using inv by (simp_all add: chain_inv_def)
  with step_restart show ?thesis
    by (simp add: chain_inv_def update_inv_def cleanupUpdate_def remove_file_def at_least_trans [OF d])
      (simp add: at_least_def)
qed

interpretation version_chain: invariant_system "chain_start exe built v0"
  "update_step cr pf disabled exe built"
  "\<lambda>s. signed_release cr built \<longrightarrow> chain_inv cr pf disabled exe built v0 s"
proof
  show "chain_start exe built v0 s \<Longrightarrow>
    signed_release cr built \<longrightarrow> chain_inv cr pf disabled exe built v0 s" for s
    by (auto simp: chain_start_def chain_inv_def update_inv_def update_idle_def at_least_def split: option.splits)
qed (auto intro: chain_inv_step)

text \<open>
  (C3) No sequence of update requests, valid or forged, interleaved with restarts makes
  the agent run an older release: the running version is the first one or a newer one. The
  hypothesis is what the release process guarantees: a binary that matches a trusted
  manifest reports the version of that manifest.
\<close>

theorem updates_never_downgrade:
  assumes "signed_release cr built" and "chain_start exe built v0 s"
    and "reaches (update_step cr pf disabled exe built) s t"
  shows "running_version t = v0 \<or> Newer (running_version t) v0"
  using version_chain.inv_reachable [OF assms(2,3)] assms(1) by (auto simp: chain_inv_def at_least_def)

definition offers :: "crypto \<Rightarrow> agent_dir \<Rightarrow> (string \<rightharpoonup> manifest) \<Rightarrow> bool" where
  "offers cr d ups \<longleftrightarrow>
     (\<forall>f m. ups f = Some m \<longrightarrow> m_file m = f \<and> Verify cr m = None \<and> openAgentBinary d f \<noteq> None)"

lemma loadUpdates_from_offers: "offers cr d ups \<Longrightarrow> offers cr d (loadUpdates_from cr d ps ups)"
proof (induction ps arbitrary: ups)
  case Nil
  then show ?case by simp
next
  case (Cons p ps)
  obtain base r where p: "p = (base, r)" by (cases p)
  have "offers cr d (ups(m_file m \<mapsto> m))"
    if "Verify cr m = None" "openAgentBinary d (m_file m) \<noteq> None" for m
    using Cons.prems that by (simp add: offers_def)
  with Cons show ?case by (auto simp: p split: option.split)
qed

text \<open>
  What the hub offers, the agent accepts: an update selected for an agent is signed,
  is the file of the agent's platform, is newer than the version the agent reports and has
  its binary in the agent directory, so every check of the agent but the size limit passes.
\<close>

theorem offered_update_is_accepted:
  assumes "updateFor (loadUpdates cr d) os arch v = Some m" and "m_size m \<le> maxUpdateSize"
  shows "update_check cr \<lparr>goos = os, goarch = arch\<rparr> False v (Some m) = None \<and>
    (\<exists>bin. openAgentBinary d (m_file m) = Some bin)"
proof -
  from assms(1) have m: "loadUpdates cr d (AgentFile os arch) = Some m" "Newer (m_version m) v"
    by (auto simp: updateFor_def split: if_splits option.splits)
  have "offers cr d (loadUpdates cr d)"
    unfolding loadUpdates_def by (rule loadUpdates_from_offers) (simp add: offers_def)
  with m assms(2) show ?thesis by (auto simp: offers_def update_check_None)
qed

section \<open>Concrete instances\<close>

text \<open>
  A release of version 1.2.0 and an agent at version 1.1.0: signatures are valid for the
  message of the one manifest only.
\<close>

definition sample_manifest :: manifest where
  "sample_manifest = \<lparr>m_file = ''lotse-agent-linux-amd64'', m_version = ''1.2.0'', m_size = 4,
     m_sha256 = ''6e657762'', m_signature = replicate 86 CHR ''A'' @ ''==''\<rparr>"

definition sample_crypto :: crypto where
  "sample_crypto =
     \<lparr>sha256 = (\<lambda>s. s), ed25519_verify = (\<lambda>k msg sig. message sample_manifest = Inr msg),
      ecdsa_verify = (\<lambda>k d s. s = k @ d), rsa_verify = (\<lambda>k d s. s = k @ d),
      parse_pkix = (\<lambda>s. Some (Ed25519Key s)), bcrypt_generate = (\<lambda>p. Some (''#'' @ p)),
      bcrypt_compare = (\<lambda>h p. h = ''#'' @ p), totp_code = (\<lambda>s n. Some s)\<rparr>"

definition sample_built :: "string \<Rightarrow> string" where
  "sample_built d = (if d = ''old'' then ''1.1.0'' else ''1.2.0'')"

definition sample_platform :: platform where
  "sample_platform = \<lparr>goos = ''linux'', goarch = ''amd64''\<rparr>"

definition sample_updater :: updater where
  "sample_updater = \<lparr>running_version = ''1.1.0'', updating = False, installing = [],
     disk = (\<lambda>p. if p = ''/bin/agent'' then Some ''old'' else None)\<rparr>"

definition sample_env :: os_env where
  "sample_env = \<lparr>temp_rand = Some ''7'', copy_ok = True, chmod_ok = True,
     probe = (\<lambda>d. Some ''lotse-agent 1.2.0''), rename_ok = (\<lambda>a b. True)\<rparr>"

lemma sample_verify: "Verify sample_crypto sample_manifest = None"
proof -
  have "parseVersion ''1.2.0'' \<noteq> None" by code_simp
  then obtain x where x: "message sample_manifest = Inr x"
    by (simp add: message_def sample_manifest_def bad_field_def ContainsAny_def)
  have "map_option length (b64_std_decode (m_signature sample_manifest)) = Some 64" by code_simp
  then obtain sig where sig: "b64_std_decode (m_signature sample_manifest) = Some sig" "length sig = 64"
    by auto
  have "map_option length (b64_std_decode (hd TrustedKeys)) = Some 32" by code_simp
  then obtain pub where "b64_std_decode (hd TrustedKeys) = Some pub" "length pub = 32" by auto
  then have "verify_with sample_crypto TrustedKeys x sig"
    by (simp add: TrustedKeys_def x sample_crypto_def)
  with x sig show ?thesis by (simp add: Verify_def)
qed

lemma sample_check: "update_check sample_crypto sample_platform False ''1.1.0'' (Some sample_manifest) = None"
proof -
  have "Newer ''1.2.0'' ''1.1.0''" by code_simp
  with sample_verify show ?thesis
    by (simp add: update_check_def sample_manifest_def sample_platform_def AgentFile_def maxUpdateSize_def)
qed

lemma sample_install:
  "install sample_crypto sample_env sample_platform ''/bin/agent'' ''newbinary'' sample_manifest (disk sample_updater)
     = (None, \<lambda>p. if p = ''/bin/agent'' then Some ''newb'' else None)"
proof -
  have hex: "hex_encode ''newb'' = ''6e657762''" by code_simp
  have tmp: "temp_path sample_platform ''/bin/agent'' ''7'' = ''/bin/.agent-update-7''" by code_simp
  show ?thesis
    by (simp add: install_def sample_env_def sample_crypto_def sample_manifest_def
        sample_updater_def hex HasPrefix_def tmp Let_def swap_in_def sample_platform_def rename_file_def remove_file_def)
      (simp add: fun_eq_iff)
qed

lemma sample_release: "signed_release sample_crypto sample_built"
  unfolding signed_release_def
proof (intro allI impI, elim conjE)
  fix m data
  assume m: "Verify sample_crypto m = None" and data: "verified_data sample_crypto m data"
  obtain x sig where x: "message m = Inr x" "verify_with sample_crypto TrustedKeys x sig"
    using m by (simp add: Verify_def split: sum.splits option.splits if_splits)
  have "verify_with sample_crypto ks x sig \<Longrightarrow> message sample_manifest = Inr x" for ks
    by (induction ks) (simp_all add: sample_crypto_def split: option.splits if_splits)
  from message_inject [OF x(1) this [OF x(2)]] have "m_version m = ''1.2.0''" "m_size m = 4"
    by (simp_all add: sample_manifest_def)
  with data show "sample_built data = m_version m"
    by (auto simp: sample_built_def verified_data_def)
qed

lemma sample_begin:
  "update_begin sample_crypto sample_platform False (Some ''/bin/agent'') (Some sample_manifest) sample_updater =
     (None, sample_updater\<lparr>updating := True, installing := [sample_manifest]\<rparr>)"
  using sample_check by (simp add: update_begin_def sample_updater_def)

theorem install_all_or_nothing_witness:
  "let f' = (\<lambda>p. if p = ''/bin/agent'' then Some ''newb'' else None) in
   install sample_crypto sample_env sample_platform ''/bin/agent'' ''newbinary'' sample_manifest (disk sample_updater)
     = (None, f') \<and>
   (\<exists>data. f' ''/bin/agent'' = Some data \<and> verified_data sample_crypto sample_manifest data)"
proof -
  have "disk sample_updater (temp_path sample_platform ''/bin/agent'' rnd) = None" for rnd
    using temp_path_distinct(1) [of sample_platform "''/bin/agent''" rnd] by (simp add: sample_updater_def)
  from install_all_or_nothing [OF sample_install this] show ?thesis
    unfolding Let_def option.case using sample_install by blast
qed

theorem one_update_at_a_time_witness:
  "let t = sample_updater\<lparr>updating := True, installing := [sample_manifest]\<rparr> in
   reaches (update_step sample_crypto sample_platform False ''/bin/agent'' sample_built) sample_updater t \<and>
   Verify sample_crypto sample_manifest = None \<and> length (installing t) \<le> 1"
proof -
  let ?t = "sample_updater\<lparr>updating := True, installing := [sample_manifest]\<rparr>"
  have idle: "update_idle sample_updater" by (simp add: update_idle_def sample_updater_def)
  have r: "reaches (update_step sample_crypto sample_platform False ''/bin/agent'' sample_built) sample_updater ?t"
    using step_begin [OF sample_begin] by (rule reaches_step [OF reaches_refl])
  from one_update_at_a_time [OF idle r] r show ?thesis by (simp add: Let_def)
qed

theorem updates_never_downgrade_witness:
  "\<exists>t. reaches (update_step sample_crypto sample_platform False ''/bin/agent'' sample_built) sample_updater t \<and>
     running_version t = ''1.2.0'' \<and> (running_version t = ''1.1.0'' \<or> Newer (running_version t) ''1.1.0'')"
proof -
  let ?R = "reaches (update_step sample_crypto sample_platform False ''/bin/agent'' sample_built) sample_updater"
  let ?s1 = "sample_updater\<lparr>updating := True, installing := [sample_manifest]\<rparr>"
  let ?f = "\<lambda>p. if p = ''/bin/agent'' then Some ''newb'' else None"
  let ?s2 = "sample_updater\<lparr>disk := ?f\<rparr>"
  let ?t = "?s2\<lparr>running_version := sample_built ''newb'', updating := False, installing := [],
    disk := cleanupUpdate (Some ''/bin/agent'') (disk ?s2)\<rparr>"
  have start: "chain_start ''/bin/agent'' sample_built ''1.1.0'' sample_updater"
    by (simp add: chain_start_def update_idle_def sample_updater_def sample_built_def)
  have s1: "?R ?s1" using step_begin [OF sample_begin] by (rule reaches_step [OF reaches_refl])
  have "update_end sample_crypto sample_env sample_platform ''/bin/agent'' True ''newbinary''
      sample_manifest ?s1 = (Installed, ?s2)"
    using sample_install by (simp add: update_end_def sample_updater_def)
  then have "update_step sample_crypto sample_platform False ''/bin/agent'' sample_built ?s1 ?s2"
    by (rule step_end [rotated]) simp
  with s1 have "?R ?s2" by (rule reaches_step)
  then have t: "?R ?t" by (rule reaches_step) (rule step_restart, simp)
  have "running_version ?t = ''1.2.0''" by (simp add: sample_built_def)
  with updates_never_downgrade [OF sample_release start t] t show ?thesis by blast
qed

definition sample_dir :: agent_dir where
  "sample_dir = \<lparr>sig_files = [(''broken.sig'', None), (''lotse-agent-linux-amd64.sig'', Some sample_manifest)],
     dir_files = (\<lambda>n. if n = ''lotse-agent-linux-amd64'' then Some ''newb'' else None),
     gunzip = (\<lambda>z. None)\<rparr>"

theorem offered_update_is_accepted_witness:
  "updateFor (loadUpdates sample_crypto sample_dir) ''linux'' ''amd64'' ''1.1.0'' = Some sample_manifest \<and>
   update_check sample_crypto \<lparr>goos = ''linux'', goarch = ''amd64''\<rparr> False ''1.1.0'' (Some sample_manifest) = None"
proof -
  have name: "m_file sample_manifest = ''lotse-agent-linux-amd64''"
    and size: "m_size sample_manifest \<le> maxUpdateSize"
    by (simp_all add: sample_manifest_def maxUpdateSize_def)
  have newer: "Newer (m_version sample_manifest) ''1.1.0''" by code_simp
  have offer: "updateFor (loadUpdates sample_crypto sample_dir) ''linux'' ''amd64'' ''1.1.0'' = Some sample_manifest"
    by (simp add: loadUpdates_def sample_dir_def updateFor_def AgentFile_def ManifestExt_def
        openAgentBinary_def name newer sample_verify)
  from offered_update_is_accepted [OF this size] offer show ?thesis by simp
qed

end
