(* ===== verification/RunOutput.thy ===== *)
theory RunOutput
  imports Interfaces "HOL-Library.Monad_Syntax"
begin

text \<open>
  The output of a running script in \<open>hub/scripts.go\<close>: the ring buffer that keeps the newest
  bytes (\<open>tailBuffer\<close>), the split of a chunk at a character boundary (\<open>completeUTF8\<close>), and
  the run in memory with its live viewers (\<open>activeRun\<close>).
\<close>

section \<open>The ring buffer\<close>

record tailBuffer =
  tb_max :: nat
  tb_buf :: string
  tb_start :: nat
  tb_dropped :: bool

definition UTFMax :: nat where
  "UTFMax = 4"

text \<open>\<open>copy(buf[start:], p)\<close>: the number of bytes copied and the new buffer.\<close>

definition copy_at :: "string \<Rightarrow> nat \<Rightarrow> string \<Rightarrow> nat \<times> string" where
  "copy_at buf start p =
     (let n = min (length buf - start) (length p)
      in (n, take start buf @ take n p @ drop (start + n) buf))"

text \<open>The loop that overwrites the oldest bytes; \<open>None\<close> when it does not return.\<close>

partial_function (option) tb_overwrite :: "tailBuffer \<Rightarrow> string \<Rightarrow> tailBuffer option" where
  "tb_overwrite t p =
     (if p = [] then Some t
      else let (n, buf) = copy_at (tb_buf t) (tb_start t) p
           in tb_overwrite (t\<lparr>tb_dropped := True, tb_buf := buf, tb_start := (tb_start t + n) mod tb_max t\<rparr>)
                (drop n p))"

definition tb_write :: "tailBuffer \<Rightarrow> string \<Rightarrow> tailBuffer option" where
  "tb_write t p =
     (if tb_max t \<le> length p then
        Some (t\<lparr>tb_dropped := tb_dropped t \<or> 0 < length (tb_buf t) \<or> tb_max t < length p,
                tb_buf := drop (length p - tb_max t) p, tb_start := 0\<rparr>)
      else
        let n = min (tb_max t - length (tb_buf t)) (length p) in
        if 0 < n then tb_overwrite (t\<lparr>tb_buf := tb_buf t @ take n p\<rparr>) (drop n p)
        else tb_overwrite t p)"

text \<open>The kept bytes in order, and \<open>Bytes\<close>, which starts at a character after a loss.\<close>

definition tb_content :: "tailBuffer \<Rightarrow> string" where
  "tb_content t = drop (tb_start t) (tb_buf t) @ take (tb_start t) (tb_buf t)"

definition tb_bytes :: "tailBuffer \<Rightarrow> string" where
  "tb_bytes t =
     (let out = tb_content t in
      if tb_dropped t then
        (case find (\<lambda>i. RuneStart (out ! i)) [0 ..< min UTFMax (length out)] of
           Some i \<Rightarrow> drop i out
         | None \<Rightarrow> out)
      else out)"

text \<open>The buffer represents the stream of everything written to it.\<close>

definition tb_repr :: "tailBuffer \<Rightarrow> string \<Rightarrow> bool" where
  "tb_repr t s \<longleftrightarrow>
     0 < tb_max t \<and> length (tb_buf t) \<le> tb_max t \<and>
     (if length (tb_buf t) = tb_max t then tb_start t < tb_max t else tb_start t = 0) \<and>
     tb_content t = last_n (tb_max t) s \<and>
     (tb_dropped t \<longleftrightarrow> tb_max t < length s)"

lemma tb_content_length [simp]: "length (tb_content t) = length (tb_buf t)"
  by (simp add: tb_content_def)

text \<open>A step of the loop moves the window by the bytes copied.\<close>

lemma copy_at_content:
  assumes "length buf = mx" and "start < mx" and "copy_at buf start p = (n, buf')"
  shows "n = min (mx - start) (length p)" and "length buf' = mx"
    and "drop ((start + n) mod mx) buf' @ take ((start + n) mod mx) buf' =
      drop n (drop start buf @ take start buf) @ take n p"
proof -
  show n: "n = min (mx - start) (length p)" and len: "length buf' = mx"
    using assms by (auto simp: copy_at_def Let_def)
  have buf': "buf' = take start buf @ take n p @ drop (start + n) buf"
    using assms(3) by (auto simp: copy_at_def Let_def)
  show "drop ((start + n) mod mx) buf' @ take ((start + n) mod mx) buf' =
      drop n (drop start buf @ take start buf) @ take n p"
  proof (cases "start + n < mx")
    case True
    then have "(start + n) mod mx = start + n" by simp
    with True assms(1,2) n show ?thesis by (simp add: buf' min_def add.commute split: if_splits)
  next
    case False
    with n assms(2) have e: "start + n = mx" by auto
    with assms(1) n have "drop n (drop start buf @ take start buf) = take start buf" by simp
    with e assms(1) show ?thesis by (simp add: buf')
  qed
qed

lemma tb_overwrite_repr:
  assumes "tb_repr t s" and "length (tb_buf t) = tb_max t"
  shows "\<exists>t'. tb_overwrite t p = Some t' \<and> tb_repr t' (s @ p) \<and> tb_max t' = tb_max t"
  using assms
proof (induction p arbitrary: t s rule: length_induct)
  case (1 p)
  show ?case
  proof (cases "p = []")
    case True
    then show ?thesis using "1.prems" by (subst tb_overwrite.simps) auto
  next
    case False
    let ?m = "tb_max t"
    obtain n buf where c: "copy_at (tb_buf t) (tb_start t) p = (n, buf)" by fastforce
    let ?t = "t\<lparr>tb_dropped := True, tb_buf := buf, tb_start := (tb_start t + n) mod ?m\<rparr>"
    have m: "0 < ?m" "tb_start t < ?m" and cont: "tb_content t = last_n ?m s"
      using "1.prems" by (auto simp: tb_repr_def)
    note cc = copy_at_content [OF "1.prems"(2) m(2) c]
    have npos: "0 < n" using cc(1) m False by simp
    have full: "?m \<le> length s"
      using cont "1.prems"(2) tb_content_length [of t] by (simp add: last_n_def)
    have "tb_content ?t = drop n (last_n ?m s) @ take n p"
    proof -
      have "tb_start ?t = (tb_start t + n) mod ?m" "tb_buf ?t = buf" by simp_all
      with cc(3) cont show ?thesis by (simp only: tb_content_def)
    qed
    also have "\<dots> = last_n ?m (s @ take n p)"
      using full cc(1) by (simp add: last_n_def add.commute)
    finally have "tb_content ?t = last_n ?m (s @ take n p)" .
    moreover have "?m < length (s @ take n p)" proof -
      have "length (take n p) = n" using cc(1) by simp
      with full npos show ?thesis by (simp only: length_append)
    qed
    ultimately have "tb_repr ?t (s @ take n p)" "length (tb_buf ?t) = tb_max ?t"
      using cc(2) m(1) by (simp_all add: tb_repr_def)
    from "1.IH" [rule_format, OF _ this, of "drop n p"] npos False
    show ?thesis by (subst tb_overwrite.simps) (simp add: c)
  qed
qed

lemma tb_write_repr:
  assumes "tb_repr t s"
  shows "\<exists>t'. tb_write t p = Some t' \<and> tb_repr t' (s @ p) \<and> tb_max t' = tb_max t"
proof (cases "tb_max t \<le> length p")
  case True
  have "tb_buf t = [] \<longleftrightarrow> s = []"
    using assms tb_content_length [of t] length_last_n [of "tb_max t" s] by (auto simp: tb_repr_def)
  then have "(tb_dropped t \<or> 0 < length (tb_buf t) \<or> tb_max t < length p) \<longleftrightarrow> tb_max t < length (s @ p)"
    using assms True by (cases s) (auto simp: tb_repr_def)
  moreover have "drop (length p - tb_max t) p = last_n (tb_max t) (s @ p)"
    using True by (simp add: last_n_def)
  ultimately show ?thesis
    using assms True by (simp add: tb_write_def tb_repr_def tb_content_def)
next
  case False
  let ?n = "min (tb_max t - length (tb_buf t)) (length p)"
  let ?t = "t\<lparr>tb_buf := tb_buf t @ take ?n p\<rparr>"
  have w: "tb_write t p = tb_overwrite ?t (drop ?n p)"
  proof (cases "?n = 0")
    case True
    then have "?t = t" by (cases t) simp
    with True \<open>\<not> tb_max t \<le> length p\<close> show ?thesis by (simp only: tb_write_def Let_def) simp
  next
    case pos: False
    with False show ?thesis by (simp add: tb_write_def Let_def)
  qed
  show ?thesis
  proof (cases "length (tb_buf t) = tb_max t")
    case True
    with w tb_overwrite_repr [OF assms True, of p] show ?thesis by simp
  next
    case less: False
    with assms have s: "tb_buf t = s" "tb_start t = 0" "length s < tb_max t" "\<not> tb_dropped t"
      by (auto simp: tb_repr_def tb_content_def last_n_def min_def split: if_splits)
    then have r: "tb_repr ?t (s @ take ?n p)"
      using assms by (auto simp: tb_repr_def tb_content_def last_n_def)
    show ?thesis
    proof (cases "?n = length p")
      case True
      with r w show ?thesis by (subst (asm) tb_overwrite.simps) simp
    next
      case False
      with s have "length (tb_buf ?t) = tb_max ?t" by auto
      from tb_overwrite_repr [OF r this, of "drop ?n p"] w show ?thesis by simp
    qed
  qed
qed

lemma suffix_last_n: "suffix (last_n n s) s"
  by (simp add: last_n_def suffix_drop)

lemma tb_bytes_suffix: "suffix (tb_bytes t) (tb_content t)"
  by (auto simp: tb_bytes_def Let_def suffix_drop split: option.splits)

lemma tb_bytes_cases:
  "\<exists>k. tb_bytes t = drop k (tb_content t) \<and> k \<le> 3 \<and> (k = 0 \<or> tb_dropped t)"
proof (cases "tb_dropped t")
  case False
  then show ?thesis by (auto simp: tb_bytes_def intro: exI [of _ 0])
next
  case True
  let ?out = "tb_content t"
  show ?thesis
  proof (cases "find (\<lambda>i. RuneStart (?out ! i)) [0 ..< min UTFMax (length ?out)]")
    case None
    with True show ?thesis by (auto simp: tb_bytes_def intro: exI [of _ 0])
  next
    case (Some i)
    from find_SomeD [OF this] have "i \<le> 3" by (auto simp: UTFMax_def)
    with True Some show ?thesis by (auto simp: tb_bytes_def)
  qed
qed

lemma tb_bytes_boundary:
  assumes "tb_dropped t"
  shows "(tb_bytes t \<noteq> [] \<and> RuneStart (hd (tb_bytes t))) \<or> list_all (\<lambda>c. \<not> RuneStart c) (take UTFMax (tb_content t))"
proof (cases "find (\<lambda>i. RuneStart (tb_content t ! i)) [0 ..< min UTFMax (length (tb_content t))]")
  case None
  then show ?thesis by (auto simp: find_None_iff list_all_length)
next
  case (Some i)
  from find_SomeD [OF this] have "i < length (tb_content t)" "RuneStart (tb_content t ! i)" by auto
  with assms Some show ?thesis by (auto simp: tb_bytes_def hd_drop_conv_nth)
qed

fun tb_write_all :: "tailBuffer \<Rightarrow> string list \<Rightarrow> tailBuffer option" where
  "tb_write_all t [] = Some t"
| "tb_write_all t (p # ps) = tb_write t p \<bind> (\<lambda>t. tb_write_all t ps)"

definition new_tail :: "nat \<Rightarrow> tailBuffer" where
  "new_tail n = \<lparr>tb_max = n, tb_buf = [], tb_start = 0, tb_dropped = False\<rparr>"

lemma new_tail_repr: "0 < n \<Longrightarrow> tb_repr (new_tail n) []"
  by (simp add: tb_repr_def new_tail_def tb_content_def last_n_def)

lemma tb_write_all_repr:
  "tb_repr t s \<Longrightarrow> \<exists>t'. tb_write_all t ps = Some t' \<and> tb_repr t' (s @ concat ps) \<and> tb_max t' = tb_max t"
proof (induction ps arbitrary: t s)
  case Nil
  then show ?case by simp
next
  case (Cons p ps)
  from tb_write_repr [OF Cons.prems, of p] obtain u
    where u: "tb_write t p = Some u" "tb_repr u (s @ p)" "tb_max u = tb_max t" by blast
  from Cons.IH [OF u(2)] u show ?case by simp
qed

text \<open>
  (C4) Writing any chunks to a fresh buffer of size \<open>n\<close> always returns, and then the
  buffer holds the last \<open>n\<close> bytes of everything written, in order, with the flag
  \<open>dropped\<close> set exactly when something was lost. \<open>Bytes\<close> is everything when nothing was
  lost; after a loss it is that tail without at most three bytes, and starts at the
  beginning of a character unless none of the first four bytes begins one.
\<close>

theorem tail_buffer_keeps_tail:
  assumes "0 < n"
  shows "\<exists>t. tb_write_all (new_tail n) ps = Some t \<and>
    tb_content t = last_n n (concat ps) \<and> (tb_dropped t \<longleftrightarrow> n < length (concat ps)) \<and>
    (if tb_dropped t
     then (\<exists>k \<le> 3. tb_bytes t = drop k (last_n n (concat ps))) \<and>
       ((tb_bytes t \<noteq> [] \<and> RuneStart (hd (tb_bytes t))) \<or>
        list_all (\<lambda>c. \<not> RuneStart c) (take UTFMax (tb_content t)))
     else tb_bytes t = concat ps)"
proof -
  have "tb_max (new_tail n) = n" by (simp add: new_tail_def)
  with tb_write_all_repr [OF new_tail_repr [OF assms], of ps] obtain t
    where t: "tb_write_all (new_tail n) ps = Some t" "tb_content t = last_n n (concat ps)"
      "tb_dropped t \<longleftrightarrow> n < length (concat ps)" by (auto simp: tb_repr_def)
  moreover have "\<not> tb_dropped t \<Longrightarrow> tb_bytes t = concat ps"
    using t by (simp add: tb_bytes_def last_n_all)
  ultimately show ?thesis using tb_bytes_cases [of t] tb_bytes_boundary [of t] by auto
qed

theorem tail_buffer_keeps_tail_witness:
  "map_option tb_bytes (tb_write_all (new_tail 4) [''ab'', ''cde'', ''f'']) = Some ''cdef'' \<and>
   (\<exists>t. tb_write_all (new_tail 4) [''ab'', ''cde'', ''f''] = Some t \<and> tb_content t = ''cdef'' \<and> tb_dropped t)"
proof -
  have "map_option tb_bytes (tb_write_all (new_tail 4) [''ab'', ''cde'', ''f'']) = Some ''cdef''"
    by (simp add: new_tail_def tb_write_def tb_overwrite.simps copy_at_def tb_bytes_def tb_content_def
        UTFMax_def RuneStart_def upt_rec Let_def)
  with tail_buffer_keeps_tail [of 4 "[''ab'', ''cde'', ''f'']"] show ?thesis
    by (auto simp: last_n_def)
qed

section \<open>Splitting at a character\<close>

definition completeUTF8 :: "string \<Rightarrow> nat" where
  "completeUTF8 b =
     (case find (\<lambda>i. RuneStart (b ! i)) (rev [length b - UTFMax ..< length b]) of
        None \<Rightarrow> length b
      | Some i \<Rightarrow> if FullRune (drop i b) then length b else i)"

lemma completeUTF8_cases:
  "completeUTF8 b = length b \<or>
   completeUTF8 b < length b \<and> length b \<le> completeUTF8 b + 3 \<and>
   RuneStart (b ! completeUTF8 b) \<and> \<not> FullRune (drop (completeUTF8 b) b)"
proof (cases "find (\<lambda>i. RuneStart (b ! i)) (rev [length b - UTFMax ..< length b])")
  case None
  then show ?thesis by (simp add: completeUTF8_def)
next
  case (Some i)
  then have i: "i < length b" "RuneStart (b ! i)" by (auto dest: find_SomeD)
  show ?thesis
  proof (cases "FullRune (drop i b)")
    case True
    with Some show ?thesis by (simp add: completeUTF8_def)
  next
    case False
    obtain c cs where c: "drop i b = c # cs" using i(1) by (cases "drop i b") auto
    have "rune_need c \<le> 4" by (simp add: rune_need_def)
    moreover have "\<not> rune_need c \<le> length (drop i b)" using False c by simp
    ultimately have "length b - i \<le> 3" by simp
    with Some i False show ?thesis by (simp add: completeUTF8_def)
  qed
qed

lemma completeUTF8_le: "completeUTF8 b \<le> length b"
  using completeUTF8_cases [of b] by auto

section \<open>A run and its viewers\<close>

record runTarget =
  rt_system_id :: int
  rt_system_name :: string
  rt_status :: string
  rt_exit_code :: "int option"
  rt_error :: string
  rt_output :: string
  rt_truncated :: bool
  rt_started_at :: int
  rt_finished_at :: int

text \<open>
  A run as the store keeps it. \<open>Targets\<close> and its summary are JSON in the database; here
  they are the values themselves.
\<close>

record script_run =
  sr_id :: int
  sr_script_id :: "int option"
  sr_name :: string
  sr_shell :: string
  sr_content :: string
  sr_timeout :: int
  sr_username :: string
  sr_started_at :: int
  sr_finished_at :: "int option"
  sr_targets :: "runTarget list"
  sr_summary :: "runTarget list"

datatype runEvent = EvTarget runTarget | EvOutput int string | EvDone int

record activeRun =
  ar_rec :: script_run
  ar_canceled :: bool          \<comment> \<open>the context was cancelled\<close>
  ar_targets :: "runTarget list"
  ar_output :: "tailBuffer list"
  ar_partial :: "string list"
  ar_subs :: "nat list"        \<comment> \<open>the subscribed channels\<close>
  ar_done :: bool

text \<open>
  A viewer: the state it got first, the events in its channel, those already sent to it,
  and whether an event found the channel full or the channel is closed.
\<close>

record viewer =
  v_snap :: "runTarget list"
  v_buf :: "runEvent list"
  v_out :: "runEvent list"
  v_lost :: bool
  v_closed :: bool

definition maxRunOutput :: nat where
  "maxRunOutput = 128 * 1024"

definition newActiveRun :: "script_run \<Rightarrow> runTarget list \<Rightarrow> activeRun" where
  "newActiveRun rec targets =
     \<lparr>ar_rec = rec, ar_canceled = False, ar_targets = targets,
      ar_output = replicate (length targets) (new_tail maxRunOutput),
      ar_partial = replicate (length targets) [], ar_subs = [], ar_done = False\<rparr>"

definition push_event :: "runEvent \<Rightarrow> viewer \<Rightarrow> viewer" where
  "push_event ev v =
     (if length (v_buf v) < 256 then v\<lparr>v_buf := v_buf v @ [ev]\<rparr> else v\<lparr>v_lost := True\<rparr>)"

definition publishLocked :: "activeRun \<Rightarrow> runEvent \<Rightarrow> (nat \<Rightarrow> viewer option) \<Rightarrow> (nat \<Rightarrow> viewer option)" where
  "publishLocked ar ev vs = (\<lambda>c. if c \<in> set (ar_subs ar) then map_option (push_event ev) (vs c) else vs c)"

definition snapshotLocked :: "activeRun \<Rightarrow> script_run \<times> runTarget list" where
  "snapshotLocked ar =
     (ar_rec ar,
      map (\<lambda>(t, o', p). let b = tb_bytes o' in
             t\<lparr>rt_output := take (length b - min (length b) (length p)) b\<rparr>)
        (zip (ar_targets ar) (zip (ar_output ar) (ar_partial ar))))"

definition update_target ::
    "nat \<Rightarrow> (runTarget \<Rightarrow> runTarget) \<Rightarrow> activeRun \<Rightarrow> (nat \<Rightarrow> viewer option) \<Rightarrow> activeRun \<times> (nat \<Rightarrow> viewer option)" where
  "update_target i fn ar vs =
     (let t = fn (ar_targets ar ! i);
          ar = ar\<lparr>ar_targets := (ar_targets ar)[i := t]\<rparr>
      in (ar, publishLocked ar (EvTarget (t\<lparr>rt_output := []\<rparr>)) vs))"

definition write_output ::
    "nat \<Rightarrow> string \<Rightarrow> activeRun \<Rightarrow> (nat \<Rightarrow> viewer option) \<Rightarrow> (activeRun \<times> (nat \<Rightarrow> viewer option)) option" where
  "write_output i p ar vs =
     tb_write (ar_output ar ! i) p \<bind> (\<lambda>o'.
       let t = (ar_targets ar ! i)\<lparr>rt_truncated := tb_dropped o'\<rparr>;
           live = ar_partial ar ! i @ p;
           n = completeUTF8 live;
           ar = ar\<lparr>ar_output := (ar_output ar)[i := o'], ar_targets := (ar_targets ar)[i := t],
                   ar_partial := (ar_partial ar)[i := drop n live]\<rparr>
       in Some (ar, if 0 < n \<and> ar_subs ar \<noteq> []
                    then publishLocked ar (EvOutput (rt_system_id t) (take n live)) vs else vs))"

text \<open>
  The critical section of \<open>getRunEvents\<close> that subscribes a new channel \<open>c\<close>, the deferred
  removal, and the end of \<open>execute\<close>.
\<close>

definition subscribe :: "nat \<Rightarrow> activeRun \<Rightarrow> (nat \<Rightarrow> viewer option) \<Rightarrow> activeRun \<times> (nat \<Rightarrow> viewer option)" where
  "subscribe c ar vs =
     (let snap = snd (snapshotLocked ar);
          ar' = (if ar_done ar then ar else ar\<lparr>ar_subs := c # ar_subs ar\<rparr>)
      in (ar', vs(c \<mapsto> \<lparr>v_snap = snap, v_buf = [], v_out = [], v_lost = False, v_closed = ar_done ar\<rparr>)))"

definition unsubscribe :: "nat \<Rightarrow> activeRun \<Rightarrow> (nat \<Rightarrow> viewer option) \<Rightarrow> activeRun \<times> (nat \<Rightarrow> viewer option)" where
  "unsubscribe c ar vs = (ar\<lparr>ar_subs := removeAll c (ar_subs ar)\<rparr>, vs(c := None))"

definition finish_run :: "int \<Rightarrow> activeRun \<Rightarrow> (nat \<Rightarrow> viewer option) \<Rightarrow> activeRun \<times> (nat \<Rightarrow> viewer option)" where
  "finish_run finished ar vs =
     (let ar = ar\<lparr>ar_rec := (ar_rec ar)\<lparr>sr_finished_at := Some finished\<rparr>, ar_done := True\<rparr>;
          vs = publishLocked ar (EvDone finished) vs
      in (ar\<lparr>ar_subs := []\<rparr>,
          \<lambda>c. if c \<in> set (ar_subs ar) then map_option (\<lambda>v. v\<lparr>v_closed := True\<rparr>) (vs c) else vs c))"

text \<open>A viewer's handler takes the next event from its channel and sends it on.\<close>

definition deliver_event :: "viewer \<Rightarrow> viewer" where
  "deliver_event v = (case v_buf v of [] \<Rightarrow> v | ev # evs \<Rightarrow> v\<lparr>v_buf := evs, v_out := v_out v @ [ev]\<rparr>)"

section \<open>Live output\<close>

text \<open>
  A run, its viewers and, for each target, everything the target has written. The steps
  are the critical sections of the code in any order; a target writes only before the run
  is done, since \<open>execute\<close> waits for all of them.
\<close>

record live =
  lv_run :: activeRun
  lv_viewers :: "nat \<Rightarrow> viewer option"
  lv_stream :: "string list"

definition set_running :: "int \<Rightarrow> runTarget \<Rightarrow> runTarget" where
  "set_running now t = t\<lparr>rt_status := ''running'', rt_started_at := now\<rparr>"

definition set_finished :: "string \<Rightarrow> string \<Rightarrow> int option \<Rightarrow> int \<Rightarrow> runTarget \<Rightarrow> runTarget" where
  "set_finished status msg code now t =
     t\<lparr>rt_status := status, rt_error := msg, rt_exit_code := code, rt_finished_at := now\<rparr>"

definition with_run :: "live \<Rightarrow> activeRun \<times> (nat \<Rightarrow> viewer option) \<Rightarrow> live" where
  "with_run s r = s\<lparr>lv_run := fst r, lv_viewers := snd r\<rparr>"

inductive live_step :: "live \<Rightarrow> live \<Rightarrow> bool" where
  live_write: "i < length (ar_targets (lv_run s)) \<Longrightarrow> \<not> ar_done (lv_run s) \<Longrightarrow>
    write_output i p (lv_run s) (lv_viewers s) = Some r \<Longrightarrow>
    live_step s ((with_run s r)\<lparr>lv_stream := (lv_stream s)[i := lv_stream s ! i @ p]\<rparr>)"
| live_running: "i < length (ar_targets (lv_run s)) \<Longrightarrow>
    live_step s (with_run s (update_target i (set_running now) (lv_run s) (lv_viewers s)))"
| live_finished: "i < length (ar_targets (lv_run s)) \<Longrightarrow>
    live_step s (with_run s (update_target i (set_finished status msg code now) (lv_run s) (lv_viewers s)))"
| live_subscribe: "lv_viewers s c = None \<Longrightarrow>
    live_step s (with_run s (subscribe c (lv_run s) (lv_viewers s)))"
| live_unsubscribe: "live_step s (with_run s (unsubscribe c (lv_run s) (lv_viewers s)))"
| live_deliver: "lv_viewers s c = Some v \<Longrightarrow>
    live_step s (s\<lparr>lv_viewers := (lv_viewers s)(c \<mapsto> deliver_event v)\<rparr>)"
| live_done: "live_step s (with_run s (finish_run now (lv_run s) (lv_viewers s)))"

text \<open>The output of a system among events, what a viewer has been given of it, and what is out.\<close>

fun event_output :: "int \<Rightarrow> runEvent \<Rightarrow> string" where
  "event_output sid (EvOutput j d) = (if j = sid then d else [])"
| "event_output sid _ = []"

definition viewer_text :: "viewer \<Rightarrow> nat \<Rightarrow> int \<Rightarrow> string" where
  "viewer_text v i sid = rt_output (v_snap v ! i) @ concat (map (event_output sid) (v_out v @ v_buf v))"

definition sent :: "string \<Rightarrow> string \<Rightarrow> string" where
  "sent s p = take (length s - length p) s"

definition text_ok :: "bool \<Rightarrow> string \<Rightarrow> string \<Rightarrow> bool" where
  "text_ok truncated txt full \<longleftrightarrow> suffix txt full \<and> (\<not> truncated \<longrightarrow> txt = full)"

definition viewer_ok :: "viewer \<Rightarrow> live \<Rightarrow> bool" where
  "viewer_ok v s \<longleftrightarrow>
     v_lost v \<or>
     (length (v_snap v) = length (ar_targets (lv_run s)) \<and>
      (\<forall>i < length (ar_targets (lv_run s)).
         text_ok (rt_truncated (v_snap v ! i)) (viewer_text v i (rt_system_id (ar_targets (lv_run s) ! i)))
           (sent (lv_stream s ! i) (ar_partial (lv_run s) ! i))))"

definition target_ok :: "runTarget \<Rightarrow> tailBuffer \<Rightarrow> string \<Rightarrow> string \<Rightarrow> bool" where
  "target_ok t o' p s \<longleftrightarrow> tb_repr o' s \<and> suffix p s \<and> length p \<le> 3 \<and> rt_truncated t = tb_dropped o'"

definition live_inv :: "live \<Rightarrow> bool" where
  "live_inv s \<longleftrightarrow>
     (let ar = lv_run s; n = length (ar_targets ar) in
      distinct (map rt_system_id (ar_targets ar)) \<and>
      length (ar_output ar) = n \<and> length (ar_partial ar) = n \<and> length (lv_stream s) = n \<and>
      (\<forall>i < n. target_ok (ar_targets ar ! i) (ar_output ar ! i) (ar_partial ar ! i) (lv_stream s ! i)) \<and>
      (\<forall>c v. lv_viewers s c = Some v \<longrightarrow> viewer_ok v s \<and> (c \<in> set (ar_subs ar) \<or> ar_done ar)))"

lemma suffix_split: "suffix p s \<Longrightarrow> s = sent s p @ p"
  by (auto simp: suffix_def sent_def)

lemma sent_append:
  assumes "suffix p s" and "n \<le> length (p @ q)"
  shows "sent (s @ q) (drop n (p @ q)) = sent s p @ take n (p @ q)" and "suffix (drop n (p @ q)) (s @ q)"
proof -
  obtain u where u: "s = u @ p" using assms(1) by (auto simp: suffix_def)
  then show "sent (s @ q) (drop n (p @ q)) = sent s p @ take n (p @ q)"
    using assms(2) by (cases "n \<le> length p") (simp_all add: sent_def)
  have "suffix (drop n (p @ q)) (p @ q)" by (rule suffix_drop)
  then show "suffix (drop n (p @ q)) (s @ q)" by (auto simp: u suffix_def)
qed

lemma text_ok_append: "text_ok b txt full \<Longrightarrow> text_ok b (txt @ x) (full @ x)"
  by (auto simp: text_ok_def suffix_def)

text \<open>What a new viewer is shown of a target.\<close>

lemma snapshot_text_ok:
  assumes "target_ok t o' p s"
  shows "text_ok (rt_truncated t) (take (length (tb_bytes o') - min (length (tb_bytes o')) (length p)) (tb_bytes o'))
    (sent s p)"
proof -
  let ?b = "tb_bytes o'"
  have repr: "tb_repr o' s" and p: "suffix p s" and tr: "rt_truncated t = tb_dropped o'"
    using assms by (auto simp: target_ok_def)
  have "suffix ?b (last_n (tb_max o') s)"
    using tb_bytes_suffix [of o'] repr by (simp add: tb_repr_def)
  then have b: "suffix ?b s" using suffix_last_n suffix_order.trans by blast
  have full: "?b = s" if "\<not> tb_dropped o'"
    using that repr by (simp add: tb_bytes_def tb_repr_def last_n_all)
  have "suffix (take (length ?b - min (length ?b) (length p)) ?b) (sent s p)"
  proof (cases "length p \<le> length ?b")
    case True
    obtain u where u: "s = u @ ?b" using b by (auto simp: suffix_def)
    have "sent (u @ ?b) p = u @ take (length ?b - length p) ?b" using True by (simp add: sent_def)
    then have "sent s p = u @ take (length ?b - length p) ?b" by (simp only: u [symmetric])
    with True show ?thesis by (simp add: suffix_def min_def)
  qed simp
  moreover have "\<not> tb_dropped o' \<Longrightarrow> take (length ?b - min (length ?b) (length p)) ?b = sent s p"
    using full suffix_length_le [OF p] by (simp add: sent_def min_def)
  ultimately show ?thesis by (simp add: text_ok_def tr)
qed

text \<open>The viewers after an event is published.\<close>

lemma publish_viewer:
  assumes "publishLocked ar ev vs c = Some v'"
  obtains v where "vs c = Some v" and "v' = (if c \<in> set (ar_subs ar) then push_event ev v else v)"
  using assms by (auto simp: publishLocked_def split: if_splits)

lemma push_event_fields [simp]:
  "v_snap (push_event ev v) = v_snap v" "v_closed (push_event ev v) = v_closed v"
  by (simp_all add: push_event_def)

lemma push_event_text:
  "\<not> v_lost (push_event ev v) \<Longrightarrow>
     \<not> v_lost v \<and> viewer_text (push_event ev v) i sid = viewer_text v i sid @ event_output sid ev"
  by (auto simp: push_event_def viewer_text_def split: if_splits)

lemma viewer_ok_push_silent:
  assumes "viewer_ok v s" and "\<And>sid. event_output sid ev = []"
  shows "viewer_ok (push_event ev v) s"
  using assms push_event_text [of ev v] by (auto simp: viewer_ok_def)

lemma viewer_ok_cong:
  assumes "viewer_ok v s" and "map rt_system_id (ar_targets (lv_run s')) = map rt_system_id (ar_targets (lv_run s))"
    and "lv_stream s' = lv_stream s" and "ar_partial (lv_run s') = ar_partial (lv_run s)"
  shows "viewer_ok v s'"
proof -
  have len: "length (ar_targets (lv_run s')) = length (ar_targets (lv_run s))"
    using arg_cong [OF assms(2), of length] by simp
  have "rt_system_id (ar_targets (lv_run s') ! i) = rt_system_id (ar_targets (lv_run s) ! i)"
    if "i < length (ar_targets (lv_run s))" for i
    using arg_cong [OF assms(2), of "\<lambda>xs. xs ! i"] that len by simp
  with assms(1) len show ?thesis by (simp add: viewer_ok_def assms(3,4))
qed

lemma update_target_inv:
  assumes inv: "live_inv s" and i: "i < length (ar_targets (lv_run s))"
    and fn: "\<And>t. rt_system_id (fn t) = rt_system_id t" "\<And>t. rt_truncated (fn t) = rt_truncated t"
  shows "live_inv (with_run s (update_target i fn (lv_run s) (lv_viewers s)))" (is "live_inv ?s")
proof -
  let ?ts = "ar_targets (lv_run s)"
  have ids: "map rt_system_id (?ts[i := fn (?ts ! i)]) = map rt_system_id ?ts"
    using i fn(1) by (simp add: map_update list_update_same_conv)
  have run: "lv_run ?s = (lv_run s)\<lparr>ar_targets := ?ts[i := fn (?ts ! i)]\<rparr>" "lv_stream ?s = lv_stream s"
    by (simp_all add: with_run_def update_target_def Let_def)
  have vs: "viewer_ok v ?s \<and> (c \<in> set (ar_subs (lv_run s)) \<or> ar_done (lv_run s))"
    if v: "lv_viewers ?s c = Some v" for c v
  proof -
    let ?ev = "EvTarget ((fn (?ts ! i))\<lparr>rt_output := []\<rparr>)"
    have "publishLocked ((lv_run s)\<lparr>ar_targets := ?ts[i := fn (?ts ! i)]\<rparr>) ?ev (lv_viewers s) c = Some v"
      using v by (simp add: with_run_def update_target_def Let_def)
    then obtain v0 where v0: "lv_viewers s c = Some v0" "v = v0 \<or> v = push_event ?ev v0"
      by (rule publish_viewer) (auto split: if_splits)
    have "viewer_ok v0 s" "c \<in> set (ar_subs (lv_run s)) \<or> ar_done (lv_run s)"
      using inv v0(1) by (simp_all add: live_inv_def Let_def)
    with v0(2) viewer_ok_push_silent [of v0 s ?ev] have "viewer_ok v s" by auto
    then show ?thesis
      using viewer_ok_cong [of v s ?s] ids run \<open>c \<in> set (ar_subs (lv_run s)) \<or> ar_done (lv_run s)\<close> by simp
  qed
  have "target_ok (?ts[i := fn (?ts ! i)] ! j) (ar_output (lv_run s) ! j) (ar_partial (lv_run s) ! j) (lv_stream s ! j)"
    if "j < length ?ts" for j
    using inv that fn(2) by (cases "j = i") (auto simp: live_inv_def Let_def target_ok_def)
  with inv ids run show ?thesis by (auto simp: live_inv_def Let_def dest: vs)
qed

lemma write_output_inv:
  assumes inv: "live_inv s" and i: "i < length (ar_targets (lv_run s))" and nd: "\<not> ar_done (lv_run s)"
    and w: "write_output i p (lv_run s) (lv_viewers s) = Some r"
  shows "live_inv ((with_run s r)\<lparr>lv_stream := (lv_stream s)[i := lv_stream s ! i @ p]\<rparr>)" (is "live_inv ?s")
proof -
  let ?ar = "lv_run s"
  let ?P = "ar_partial ?ar ! i" and ?S = "lv_stream s ! i" and ?t = "ar_targets ?ar ! i"
  let ?live = "?P @ p"
  let ?n = "completeUTF8 ?live"
  have ok: "target_ok ?t (ar_output ?ar ! i) ?P ?S"
    and len: "length (ar_output ?ar) = length (ar_targets ?ar)" "length (ar_partial ?ar) = length (ar_targets ?ar)"
      "length (lv_stream s) = length (ar_targets ?ar)"
    using inv i by (auto simp: live_inv_def Let_def)
  then obtain o' where o': "tb_write (ar_output ?ar ! i) p = Some o'" "tb_repr o' (?S @ p)"
    using tb_write_repr [of "ar_output ?ar ! i" ?S p] by (auto simp: target_ok_def)
  let ?t' = "?t\<lparr>rt_truncated := tb_dropped o'\<rparr>"
  let ?ar' = "?ar\<lparr>ar_output := (ar_output ?ar)[i := o'], ar_targets := (ar_targets ?ar)[i := ?t'],
    ar_partial := (ar_partial ?ar)[i := drop ?n ?live]\<rparr>"
  let ?ev = "EvOutput (rt_system_id ?t) (take ?n ?live)"
  have run: "lv_run ?s = ?ar'" "lv_stream ?s = (lv_stream s)[i := ?S @ p]"
    and view: "lv_viewers (with_run s r) = (if 0 < ?n \<and> ar_subs ?ar \<noteq> [] then publishLocked ?ar' ?ev (lv_viewers s) else lv_viewers s)"
    using w o' by (auto simp: write_output_def with_run_def Let_def)
  have P: "suffix ?P ?S" using ok by (simp add: target_ok_def)
  note sa = sent_append [OF P completeUTF8_le [of ?live]]
  have "length (drop ?n ?live) \<le> 3" using completeUTF8_cases [of ?live] by auto
  with sa(2) o'(2) have t': "target_ok ?t' o' (drop ?n ?live) (?S @ p)"
    by (simp add: target_ok_def)
  have ids: "map rt_system_id ((ar_targets ?ar)[i := ?t']) = map rt_system_id (ar_targets ?ar)"
    using i by (simp add: map_update list_update_same_conv)
  have id_nth: "rt_system_id ((ar_targets ?ar)[i := ?t'] ! j) = rt_system_id (ar_targets ?ar ! j)"
    if "j < length (ar_targets ?ar)" for j
    using that by (cases "j = i") auto
  have other: "rt_system_id (ar_targets ?ar ! j) \<noteq> rt_system_id ?t" if "j < length (ar_targets ?ar)" "j \<noteq> i" for j
    using inv that i by (simp add: live_inv_def Let_def distinct_conv_nth)
  have vs: "viewer_ok v ?s \<and> c \<in> set (ar_subs ?ar)" if v: "lv_viewers (with_run s r) c = Some v" for c v
  proof -
    obtain v0 where v0: "lv_viewers s c = Some v0"
      using v view by (auto split: if_splits elim: publish_viewer)
    then have c: "c \<in> set (ar_subs ?ar)" and ok0: "viewer_ok v0 s"
      using inv nd by (auto simp: live_inv_def Let_def)
    then have v': "v = (if 0 < ?n then push_event ?ev v0 else v0)"
      using v v0 view by (auto simp: publishLocked_def split: if_splits)
    have snap: "v_snap v = v_snap v0" using v' by simp
    have shown: "\<not> v_lost v0 \<and> viewer_text v j sid = viewer_text v0 j sid @ event_output sid ?ev"
      if "\<not> v_lost v" for j sid
      using that v' push_event_text [of ?ev v0 j sid] by (auto split: if_splits)
    have "text_ok (rt_truncated (v_snap v ! j)) (viewer_text v j (rt_system_id (ar_targets ?ar ! j)))
       (sent (lv_stream ?s ! j) (ar_partial ?ar' ! j))"
      if "\<not> v_lost v" "j < length (ar_targets ?ar)" for j
    proof -
      have "text_ok (rt_truncated (v_snap v0 ! j)) (viewer_text v0 j (rt_system_id (ar_targets ?ar ! j)))
         (sent (lv_stream s ! j) (ar_partial ?ar ! j))"
        using ok0 shown [OF that(1)] that(2) by (simp add: viewer_ok_def)
      then show ?thesis
        using shown [OF that(1), of j] that(2) other [of j] len i sa(1) snap run(2)
        by (cases "j = i") (simp_all add: text_ok_append)
    qed
    moreover have "\<not> v_lost v \<Longrightarrow> length (v_snap v) = length (ar_targets ?ar)"
      using ok0 shown snap by (auto simp: viewer_ok_def)
    ultimately show ?thesis using c by (auto simp: viewer_ok_def run id_nth)
  qed
  have "target_ok ((ar_targets ?ar)[i := ?t'] ! j) ((ar_output ?ar)[i := o'] ! j)
     ((ar_partial ?ar)[i := drop ?n ?live] ! j) ((lv_stream s)[i := ?S @ p] ! j)"
    if "j < length (ar_targets ?ar)" for j
    using inv that t' len by (cases "j = i") (simp_all add: live_inv_def Let_def)
  with inv ids len show ?thesis by (auto simp: live_inv_def Let_def run dest: vs)
qed

lemma viewer_ok_fields:
  "viewer_ok (v\<lparr>v_closed := b\<rparr>) s = viewer_ok v s"
  by (simp add: viewer_ok_def viewer_text_def)

lemma deliver_event_ok: "viewer_ok v s \<Longrightarrow> viewer_ok (deliver_event v) s"
  by (auto simp: deliver_event_def viewer_ok_def viewer_text_def split: list.splits)

lemma subscribe_inv:
  assumes inv: "live_inv s"
  shows "live_inv (with_run s (subscribe c (lv_run s) (lv_viewers s)))" (is "live_inv ?s")
proof -
  let ?ar = "lv_run s"
  let ?snap = "snd (snapshotLocked ?ar)"
  let ?v = "\<lparr>v_snap = ?snap, v_buf = [], v_out = [], v_lost = False, v_closed = ar_done ?ar\<rparr>"
  have len: "length (ar_output ?ar) = length (ar_targets ?ar)" "length (ar_partial ?ar) = length (ar_targets ?ar)"
    and ok: "\<And>i. i < length (ar_targets ?ar) \<Longrightarrow>
      target_ok (ar_targets ?ar ! i) (ar_output ?ar ! i) (ar_partial ?ar ! i) (lv_stream s ! i)"
    using inv by (auto simp: live_inv_def Let_def)
  have "viewer_ok ?v s"
    using len snapshot_text_ok [OF ok] by (simp add: viewer_ok_def viewer_text_def snapshotLocked_def Let_def)
  moreover have "viewer_ok v ?s" if "viewer_ok v s" for v
    by (rule viewer_ok_cong [OF that]) (simp_all add: with_run_def subscribe_def Let_def)
  ultimately show ?thesis
    using inv by (auto simp: live_inv_def Let_def with_run_def subscribe_def split: if_splits)
qed

lemma unsubscribe_inv:
  assumes inv: "live_inv s"
  shows "live_inv (with_run s (unsubscribe c (lv_run s) (lv_viewers s)))" (is "live_inv ?s")
proof -
  have "viewer_ok v ?s" if "viewer_ok v s" for v
    by (rule viewer_ok_cong [OF that]) (simp_all add: with_run_def unsubscribe_def)
  with inv show ?thesis
    by (auto simp: live_inv_def Let_def with_run_def unsubscribe_def split: if_splits)
qed

lemma finish_run_inv:
  assumes inv: "live_inv s"
  shows "live_inv (with_run s (finish_run now (lv_run s) (lv_viewers s)))" (is "live_inv ?s")
proof -
  have cong: "viewer_ok v ?s" if "viewer_ok v s" for v
    by (rule viewer_ok_cong [OF that]) (simp_all add: with_run_def finish_run_def Let_def)
  have "viewer_ok v ?s" if v: "lv_viewers ?s c = Some v" for c v
  proof -
    obtain v0 where v0: "lv_viewers s c = Some v0" "v = v0 \<or> v = (push_event (EvDone now) v0)\<lparr>v_closed := True\<rparr>"
      using v by (auto simp: with_run_def finish_run_def publishLocked_def Let_def split: if_splits)
    then have "viewer_ok v0 s" using inv by (simp add: live_inv_def Let_def)
    with v0(2) viewer_ok_push_silent [of v0 s "EvDone now"] have "viewer_ok v s"
      by (auto simp: viewer_ok_fields)
    then show ?thesis by (rule cong)
  qed
  moreover have "lv_run ?s = (lv_run s)\<lparr>ar_rec := (ar_rec (lv_run s))\<lparr>sr_finished_at := Some now\<rparr>, ar_done := True, ar_subs := []\<rparr>"
    "lv_stream ?s = lv_stream s"
    by (simp_all add: with_run_def finish_run_def Let_def)
  ultimately show ?thesis using inv by (auto simp: live_inv_def Let_def)
qed

definition live_start :: "live \<Rightarrow> bool" where
  "live_start s \<longleftrightarrow>
     (\<exists>rec targets. s = \<lparr>lv_run = newActiveRun rec targets, lv_viewers = (\<lambda>c. None),
        lv_stream = replicate (length targets) []\<rparr> \<and>
      distinct (map rt_system_id targets) \<and> list_all (\<lambda>t. \<not> rt_truncated t) targets)"

interpretation live_output: invariant_system live_start live_step live_inv
proof
  show "live_start s \<Longrightarrow> live_inv s" for s
    using new_tail_repr [of maxRunOutput]
    by (auto simp: live_start_def live_inv_def newActiveRun_def target_ok_def Let_def list_all_length
        new_tail_def maxRunOutput_def)
  show "live_inv t" if "live_inv s" "live_step s t" for s t
    using that(2)
  proof (cases rule: live_step.cases)
    case (live_write i p r)
    with that(1) write_output_inv show ?thesis by blast
  next
    case (live_running i now)
    with that(1) update_target_inv [of s i "set_running now"] show ?thesis by (simp add: set_running_def)
  next
    case (live_finished i status msg code now)
    with that(1) update_target_inv [of s i "set_finished status msg code now"] show ?thesis
      by (simp add: set_finished_def)
  next
    case (live_deliver c v)
    have "viewer_ok w (s\<lparr>lv_viewers := vs\<rparr>) = viewer_ok w s" for w vs by (simp add: viewer_ok_def)
    with live_deliver that(1) deliver_event_ok show ?thesis by (auto simp: live_inv_def Let_def)
  qed (use that(1) subscribe_inv unsubscribe_inv finish_run_inv in auto)
qed

text \<open>
  (C5) Live output is shown exactly once. For every viewer whose channel never
  overflowed, at any moment and for every target: the output in the first state it was
  sent, followed by all output events sent or queued since, followed by the at most three
  held-back bytes of an incomplete character, is exactly what the target has written, or, if
  the first state was marked truncated, a suffix of it. This holds in every interleaving of
  writes, status updates, subscriptions and deliveries.
\<close>

theorem live_output_exactly_once:
  assumes "live_start s0" and "reaches live_step s0 s" and "lv_viewers s c = Some v" and "\<not> v_lost v"
    and "i < length (ar_targets (lv_run s))"
  shows "length (ar_partial (lv_run s) ! i) \<le> 3 \<and>
    (let shown = viewer_text v i (rt_system_id (ar_targets (lv_run s) ! i)) @ ar_partial (lv_run s) ! i in
     if rt_truncated (v_snap v ! i) then suffix shown (lv_stream s ! i) else shown = lv_stream s ! i)"
proof -
  have inv: "live_inv s" by (rule live_output.inv_reachable [OF assms(1,2)])
  then have t: "target_ok (ar_targets (lv_run s) ! i) (ar_output (lv_run s) ! i) (ar_partial (lv_run s) ! i)
      (lv_stream s ! i)" and "viewer_ok v s"
    using assms(3,5) by (auto simp: live_inv_def Let_def)
  then have ok: "text_ok (rt_truncated (v_snap v ! i)) (viewer_text v i (rt_system_id (ar_targets (lv_run s) ! i)))
      (sent (lv_stream s ! i) (ar_partial (lv_run s) ! i))"
    using assms(4,5) by (simp add: viewer_ok_def)
  have "lv_stream s ! i = sent (lv_stream s ! i) (ar_partial (lv_run s) ! i) @ ar_partial (lv_run s) ! i"
    using t by (intro suffix_split) (simp add: target_ok_def)
  with text_ok_append [OF ok, of "ar_partial (lv_run s) ! i"] t show ?thesis
    by (simp add: text_ok_def target_ok_def Let_def)
qed

definition sample_target :: runTarget where
  "sample_target = \<lparr>rt_system_id = 7, rt_system_name = ''nas'', rt_status = ''running'', rt_exit_code = None,
     rt_error = [], rt_output = [], rt_truncated = False, rt_started_at = 10, rt_finished_at = 0\<rparr>"

definition sample_run :: script_run where
  "sample_run = \<lparr>sr_id = 1, sr_script_id = None, sr_name = ''Command'', sr_shell = ''sh'', sr_content = ''ls'',
     sr_timeout = 60, sr_username = ''ann'', sr_started_at = 10, sr_finished_at = None, sr_targets = [], sr_summary = []\<rparr>"

definition sample_live :: live where
  "sample_live = \<lparr>lv_run = newActiveRun sample_run [sample_target], lv_viewers = (\<lambda>c. None), lv_stream = [[]]\<rparr>"

text \<open>The sample run after the target wrote \<open>p\<close>, for a \<open>p\<close> that fits the buffer.\<close>

lemma sample_write:
  assumes "p \<noteq> []" and "length p < maxRunOutput" and "ar_output ar = [new_tail maxRunOutput]"
    and "ar_partial ar = [[]]" and "ar_targets ar = [sample_target]"
  shows "write_output 0 p ar vs =
    Some (let ar' = ar\<lparr>ar_output := [(new_tail maxRunOutput)\<lparr>tb_buf := p\<rparr>], ar_partial := [drop (completeUTF8 p) p]\<rparr>
      in (ar', if 0 < completeUTF8 p \<and> ar_subs ar \<noteq> []
               then publishLocked ar' (EvOutput 7 (take (completeUTF8 p) p)) vs else vs))"
  using assms
  by (simp add: write_output_def tb_write_def new_tail_def tb_overwrite.simps sample_target_def Let_def publishLocked_def)

lemma complete_sample: "completeUTF8 [CHR ''a'', CHR 0xC3] = 1"
  by (simp add: completeUTF8_def UTFMax_def upt_rec RuneStart_def rune_need_def)

theorem live_output_exactly_once_witness:
  "\<exists>s v. reaches live_step sample_live s \<and> lv_viewers s 0 = Some v \<and> v_buf v = [EvOutput 7 ''a''] \<and>
     ar_partial (lv_run s) ! 0 = [CHR 0xC3] \<and> viewer_text v 0 7 @ ar_partial (lv_run s) ! 0 = lv_stream s ! 0"
proof -
  let ?p = "[CHR ''a'', CHR 0xC3]"
  let ?s1 = "with_run sample_live (subscribe 0 (lv_run sample_live) (lv_viewers sample_live))"
  let ?v1 = "\<lparr>v_snap = [sample_target], v_buf = [], v_out = [], v_lost = False, v_closed = False\<rparr>"
  have s1: "lv_run ?s1 = (lv_run sample_live)\<lparr>ar_subs := [0]\<rparr>" "lv_viewers ?s1 = (\<lambda>c. None)(0 \<mapsto> ?v1)"
    "lv_stream ?s1 = [[]]"
    by (simp_all add: sample_live_def with_run_def subscribe_def newActiveRun_def snapshotLocked_def Let_def
        tb_bytes_def tb_content_def new_tail_def sample_target_def)
  have ar: "ar_output (lv_run ?s1) = [new_tail maxRunOutput]" "ar_partial (lv_run ?s1) = [[]]"
    "ar_targets (lv_run ?s1) = [sample_target]" "ar_subs (lv_run ?s1) = [0]" "\<not> ar_done (lv_run ?s1)"
    unfolding s1 by (simp_all add: sample_live_def newActiveRun_def)
  have "length ?p < maxRunOutput" by (simp add: maxRunOutput_def)
  from sample_write [OF _ this ar(1-3), of "lv_viewers ?s1"] obtain r
    where w: "write_output 0 ?p (lv_run ?s1) (lv_viewers ?s1) = Some r"
      and r: "ar_partial (fst r) = [[CHR 0xC3]]" "ar_targets (fst r) = [sample_target]"
        "snd r 0 = Some (?v1\<lparr>v_buf := [EvOutput 7 ''a'']\<rparr>)"
    by (auto simp: complete_sample Let_def ar publishLocked_def s1(2) push_event_def)
  let ?s2 = "(with_run ?s1 r)\<lparr>lv_stream := (lv_stream ?s1)[0 := lv_stream ?s1 ! 0 @ ?p]\<rparr>"
  have "live_step sample_live ?s1" by (rule live_subscribe) (simp add: sample_live_def)
  then have "reaches live_step sample_live ?s1" by (rule reaches_step [OF reaches_refl])
  moreover have "live_step ?s1 ?s2" using ar by (intro live_write [OF _ _ w]) simp_all
  ultimately have reach: "reaches live_step sample_live ?s2" by (rule reaches_step)
  have start: "live_start sample_live"
    unfolding live_start_def sample_live_def
    by (intro exI [of _ sample_run] exI [of _ "[sample_target]"]) (simp add: sample_target_def)
  have run2: "lv_run ?s2 = fst r" "lv_viewers ?s2 = snd r" by (simp_all add: with_run_def)
  have view: "lv_viewers ?s2 0 = Some (?v1\<lparr>v_buf := [EvOutput 7 ''a'']\<rparr>)" using r run2 by simp
  from live_output_exactly_once [OF start reach view, of 0] r run2
  have "viewer_text (?v1\<lparr>v_buf := [EvOutput 7 ''a'']\<rparr>) 0 7 @ ar_partial (lv_run ?s2) ! 0 = lv_stream ?s2 ! 0"
    by (simp add: sample_target_def Let_def)
  with reach view r run2 show ?thesis
    by (intro exI [of _ ?s2] exI [of _ "?v1\<lparr>v_buf := [EvOutput 7 ''a'']\<rparr>"]) simp
qed

text \<open>
  The state stored at the end of a run is a snapshot, so an incomplete character at the
  very end of the output is in neither the live stream nor the stored result.
\<close>

theorem incomplete_end_never_stored:
  "\<exists>r. write_output 0 [CHR ''a'', CHR 0xC3] (newActiveRun sample_run [sample_target]) (\<lambda>c. None) = Some r \<and>
     map rt_output (snd (snapshotLocked (fst r))) = [''a'']"
proof -
  have "length [CHR ''a'', CHR 0xC3] < maxRunOutput" by (simp add: maxRunOutput_def)
  from sample_write [OF _ this, of "newActiveRun sample_run [sample_target]" "\<lambda>c. None"] show ?thesis
    by (simp add: newActiveRun_def complete_sample Let_def snapshotLocked_def tb_bytes_def tb_content_def new_tail_def)
qed

end
