(* ===== verification/Protocol.thy ===== *)
theory Protocol
  imports Update
begin

text \<open>
  The messages of \<open>internal/protocol\<close> that hub and agent exchange. A \<open>float64\<close> is a
  rational number: rounding is not modelled.
\<close>

record net_interface =
  ni_name :: string
  ni_mac :: string
  ni_addrs :: "string list"

record system_info =
  si_hostname :: string
  si_os :: string
  si_platform :: string
  si_platform_version :: string
  si_kernel :: string
  si_arch :: string
  si_cpu_model :: string
  si_cores :: int
  si_mem_total :: int
  si_interfaces :: "net_interface list"

record hello =
  he_protocol :: int
  he_agent_version :: string
  he_token :: string
  he_info :: system_info
  he_features :: "string list"

record hello_reply =
  hr_ok :: bool
  hr_error :: string
  hr_interval :: int

record filesystem =
  fs_mount :: string
  fs_device :: string
  fs_type :: string
  fs_used :: int
  fs_total :: int

text \<open>Batteries and containers; several batteries are reported as one.\<close>

record battery =
  bt_percent :: rat
  bt_state :: string

record container =
  ct_id :: string
  ct_name :: string
  ct_image :: string
  ct_state :: string
  ct_status :: string
  ct_cpu :: rat
  ct_mem :: int
  ct_mem_limit :: int
  ct_net_rx :: rat
  ct_net_tx :: rat

record metrics =
  mt_time :: int
  mt_cpu :: rat
  mt_mem_used :: int
  mt_mem_total :: int
  mt_swap_used :: int
  mt_swap_total :: int
  mt_disk_used :: int
  mt_disk_total :: int
  mt_disk_read :: rat
  mt_disk_write :: rat
  mt_net_rx :: rat
  mt_net_tx :: rat
  mt_load1 :: rat
  mt_load5 :: rat
  mt_load15 :: rat
  mt_uptime :: int
  mt_battery :: "battery option"
  mt_filesystems :: "filesystem list"
  mt_containers :: "container list"

text \<open>Processes, services and the requests that act on the machine.\<close>

record process =
  ps_pid :: int
  ps_name :: string
  ps_user :: string
  ps_cpu :: rat
  ps_mem :: int
  ps_started :: int
  ps_command :: string

record process_list =
  pl_processes :: "process list"
  pl_total :: int

record signal_msg =
  sm_pid :: int
  sm_signal :: string

record service =
  sv_name :: string
  sv_description :: string
  sv_state :: string
  sv_detail :: string
  sv_start_type :: string

record service_list =
  sl_services :: "service list"
  sl_error :: string

record service_msg =
  vm_name :: string
  vm_action :: string

record script_msg =
  cm_shell :: string
  cm_script :: string
  cm_timeout :: int

record wake_msg =
  wm_macs :: "string list"
  wm_broadcast :: string

text \<open>
  What the hub sends over a link: the global requests with their payloads, the opening of
  channels and the requests on a session channel. The peer answers with a flag and a payload,
  or does not answer.
\<close>

datatype link_msg =
    MsgInterval int
  | MsgWake wake_msg
  | MsgProcesses int
  | MsgSignal signal_msg
  | MsgPower string
  | MsgServices
  | MsgService service_msg
  | OpenSession
  | MsgPty int int
  | MsgResize int int
  | MsgShell
  | MsgSubsystem string
  | MsgScript script_msg
  | OpenUpdate manifest

datatype payload =
    NoPayload
  | ActionReply string
  | ServicesReply service_list
  | ProcessesReply process_list

datatype answer = Answered bool payload | SendFailed string | TimedOut

definition AgentPath :: string where "AgentPath = ''/api/agent/connect''"

definition Version :: int where "Version = 1"

definition ReqHello :: string where "ReqHello = ''hello''"
definition ReqMetrics :: string where "ReqMetrics = ''metrics''"
definition ReqInterval :: string where "ReqInterval = ''interval''"
definition ReqWake :: string where "ReqWake = ''wake''"
definition ReqProcesses :: string where "ReqProcesses = ''processes''"
definition ReqSignal :: string where "ReqSignal = ''signal''"
definition ReqPower :: string where "ReqPower = ''power''"
definition ReqServices :: string where "ReqServices = ''services''"
definition ReqService :: string where "ReqService = ''service''"

definition SubsystemSFTP :: string where "SubsystemSFTP = ''sftp''"
definition ReqScript :: string where "ReqScript = ''script@lotse''"
definition ChanUpdate :: string where "ChanUpdate = ''update@lotse''"

definition FeatureShell :: string where "FeatureShell = ''shell''"

definition FeatureWake :: string where "FeatureWake = ''wake''"

definition empty_info :: system_info where
  "empty_info = \<lparr>si_hostname = [], si_os = [], si_platform = [], si_platform_version = [], si_kernel = [],
     si_arch = [], si_cpu_model = [], si_cores = 0, si_mem_total = 0, si_interfaces = []\<rparr>"

end
