(* ===== verification/Netip.thy ===== *)
theory Netip
  imports Prelude
begin

unbundle bit_operations_syntax

text \<open>
  What the hub uses of Go's \<open>net/netip\<close>: addresses, \<open>ParseAddr\<close>, \<open>Unmap\<close>, and prefixes with
  \<open>ParsePrefix\<close>, \<open>Masked\<close> and \<open>Contains\<close>. An address is its 32 or 128 bits, an IPv6 address
  also its zone.
\<close>

datatype addr = Addr4 "32 word" | Addr6 "128 word" string

fun BitLen :: "addr \<Rightarrow> nat" where
  "BitLen (Addr4 _) = 32"
| "BitLen (Addr6 _ _) = 128"

fun Is6 :: "addr \<Rightarrow> bool" where
  "Is6 (Addr4 _) = False"
| "Is6 (Addr6 _ _) = True"

text \<open>An IPv4-mapped IPv6 address becomes the IPv4 address.\<close>

fun Unmap :: "addr \<Rightarrow> addr" where
  "Unmap (Addr4 x) = Addr4 x"
| "Unmap (Addr6 x z) = (if drop_bit 32 x = 0xFFFF then Addr4 (ucast x) else Addr6 x z)"

lemma Unmap_idem [simp]: "Unmap (Unmap a) = Unmap a"
  by (cases a) auto

section \<open>Parsing addresses\<close>

definition parse_octet :: "string \<Rightarrow> int option" where
  "parse_octet f =
     (if f = [] \<or> \<not> list_all is_digit f \<or> (1 < length f \<and> hd f = CHR ''0'') \<or> 255 < digits_val f
      then None else Some (digits_val f))"

definition parseIPv4 :: "string \<Rightarrow> 32 word option" where
  "parseIPv4 s =
     (case map parse_octet (Split CHR ''.'' s) of
        [Some a, Some b, Some c, Some d] \<Rightarrow> Some (word_of_int (((a * 256 + b) * 256 + c) * 256 + d))
      | _ \<Rightarrow> None)"

definition hex_val :: "char \<Rightarrow> int option" where
  "hex_val c =
     (let n = of_char c in
      if 48 \<le> n \<and> n \<le> 57 then Some (n - 48)
      else if 97 \<le> n \<and> n \<le> 102 then Some (n - 87)
      else if 65 \<le> n \<and> n \<le> 70 then Some (n - 55)
      else None)"

text \<open>The leading hexadecimal digits: their number, their value and the rest.\<close>

fun scan_hex :: "nat \<Rightarrow> int \<Rightarrow> string \<Rightarrow> nat \<times> int \<times> string" where
  "scan_hex off acc [] = (off, acc, [])"
| "scan_hex off acc (c # s) =
     (case hex_val c of
        None \<Rightarrow> (off, acc, c # s)
      | Some v \<Rightarrow> scan_hex (Suc off) (16 * acc + v) s)"

text \<open>
  The loop of \<open>parseIPv6\<close>: the groups of 16 bits read so far, the number of groups before
  the ellipsis, and the rest of the string.
\<close>

fun parse_groups :: "nat \<Rightarrow> int list \<Rightarrow> nat option \<Rightarrow> string \<Rightarrow> (int list \<times> nat option) option" where
  "parse_groups 0 gs el s = (if s = [] then Some (gs, el) else None)"
| "parse_groups (Suc room) gs el s =
     (case scan_hex 0 0 s of
        (off, acc, rest) \<Rightarrow>
          if off = 0 \<or> 4 < off then None
          else if rest \<noteq> [] \<and> hd rest = CHR ''.'' then
            (if (el = None \<and> length gs \<noteq> 6) \<or> 6 < length gs then None
             else (case parseIPv4 s of
                     None \<Rightarrow> None
                   | Some v \<Rightarrow> Some (gs @ [uint (drop_bit 16 v), uint (take_bit 16 v)], el)))
          else
            (let gs = gs @ [acc] in
             case rest of
               [] \<Rightarrow> Some (gs, el)
             | c # r \<Rightarrow>
                 (if c \<noteq> CHR '':'' then None
                  else (case r of
                          [] \<Rightarrow> None
                        | d # r' \<Rightarrow>
                            (if d = CHR '':'' then
                               (if el \<noteq> None then None
                                else if r' = [] then Some (gs, Some (length gs))
                                else parse_groups room gs (Some (length gs)) r')
                             else parse_groups room gs el r)))))"

definition groups_value :: "int list \<Rightarrow> 128 word" where
  "groups_value gs = word_of_int (foldl (\<lambda>n g. n * 65536 + g) 0 gs)"

definition expand_groups :: "int list \<Rightarrow> nat option \<Rightarrow> 128 word option" where
  "expand_groups gs el =
     (case el of
        None \<Rightarrow> if length gs = 8 then Some (groups_value gs) else None
      | Some e \<Rightarrow>
          if length gs < 8 then Some (groups_value (take e gs @ replicate (8 - length gs) 0 @ drop e gs))
          else None)"

definition parseIPv6 :: "string \<Rightarrow> addr option" where
  "parseIPv6 inp =
     (case Cut CHR ''%'' inp of
        (s, zone, hasZone) \<Rightarrow>
          if hasZone \<and> zone = [] then None
          else if HasPrefix s ''::'' then
            (if length s = 2 then Some (Addr6 0 zone)
             else (case parse_groups 8 [] (Some 0) (drop 2 s) of
                     None \<Rightarrow> None
                   | Some (gs, el) \<Rightarrow> map_option (\<lambda>x. Addr6 x zone) (expand_groups gs el)))
          else (case parse_groups 8 [] None s of
                  None \<Rightarrow> None
                | Some (gs, el) \<Rightarrow> map_option (\<lambda>x. Addr6 x zone) (expand_groups gs el)))"

text \<open>\<open>ParseAddr\<close> decides by the first of the characters \<open>.\<close>, \<open>:\<close> and \<open>%\<close>.\<close>

definition ParseAddr :: "string \<Rightarrow> addr option" where
  "ParseAddr s =
     (case find (\<lambda>c. c = CHR ''.'' \<or> c = CHR '':'' \<or> c = CHR ''%'') s of
        None \<Rightarrow> None
      | Some c \<Rightarrow>
          if c = CHR ''.'' then map_option Addr4 (parseIPv4 s)
          else if c = CHR '':'' then parseIPv6 s
          else None)"

section \<open>Prefixes\<close>

record ip_prefix =
  pfx_addr :: addr
  pfx_bits :: nat

fun bits_eq :: "nat \<Rightarrow> addr \<Rightarrow> addr \<Rightarrow> bool" where
  "bits_eq n (Addr4 x) (Addr4 y) \<longleftrightarrow> drop_bit (32 - n) x = drop_bit (32 - n) y"
| "bits_eq n (Addr6 x _) (Addr6 y _) \<longleftrightarrow> drop_bit (128 - n) x = drop_bit (128 - n) y"
| "bits_eq n _ _ \<longleftrightarrow> False"

fun hasZone :: "addr \<Rightarrow> bool" where
  "hasZone (Addr4 _) = False"
| "hasZone (Addr6 _ z) = (z \<noteq> [])"

definition Contains_addr :: "ip_prefix \<Rightarrow> addr \<Rightarrow> bool" where
  "Contains_addr p a \<longleftrightarrow> \<not> hasZone a \<and> bits_eq (pfx_bits p) (pfx_addr p) a"

fun Masked_addr :: "nat \<Rightarrow> addr \<Rightarrow> addr" where
  "Masked_addr n (Addr4 x) = Addr4 (push_bit (32 - n) (drop_bit (32 - n) x))"
| "Masked_addr n (Addr6 x z) = Addr6 (push_bit (128 - n) (drop_bit (128 - n) x)) []"

definition Masked :: "ip_prefix \<Rightarrow> ip_prefix" where
  "Masked p = p\<lparr>pfx_addr := Masked_addr (pfx_bits p) (pfx_addr p)\<rparr>"

text \<open>\<open>ParsePrefix\<close>: the part after the last slash is a decimal number without sign or leading zero.\<close>

definition ParsePrefix :: "string \<Rightarrow> ip_prefix option" where
  "ParsePrefix s =
     (if CHR ''/'' \<notin> set s then None
      else let bits = rev (takeWhile (\<lambda>c. c \<noteq> CHR ''/'') (rev s));
               a = take (length s - length bits - 1) s
      in case ParseAddr a of
           None \<Rightarrow> None
         | Some ip \<Rightarrow>
             if hasZone ip \<or> bits = [] \<or> \<not> list_all is_digit bits \<or> (1 < length bits \<and> hd bits = CHR ''0'')
               \<or> int (BitLen ip) < digits_val bits then None
             else Some \<lparr>pfx_addr = ip, pfx_bits = nat (digits_val bits)\<rparr>)"

lemma drop_push_drop_bit: "drop_bit n (push_bit n (drop_bit n x)) = drop_bit n (x :: 'a::len word)"
  by (simp add: bit_eq_iff bit_simps) (auto dest: bit_imp_le_length)

text \<open>Masking the host bits does not change which addresses a prefix contains.\<close>

lemma Contains_Masked: "Contains_addr (Masked p) a = Contains_addr p a"
proof -
  have "bits_eq n (Masked_addr n b) a = bits_eq n b a" for n b
    by (cases b; cases a) (simp_all add: drop_push_drop_bit)
  then show ?thesis by (simp add: Contains_addr_def Masked_def)
qed

end
