(* ===== verification/Proxy.thy ===== *)
theory Proxy
  imports Netip
begin

text \<open>
  Requests behind reverse proxies (\<open>hub/proxy.go\<close>), the client address the handlers see
  (\<open>clientIP\<close> in \<open>hub/gateway.go\<close>) and what the login limiter counts (\<open>clientKey\<close> in
  \<open>hub/auth.go\<close>).

  \<open>RemoteAddr\<close> is the text of an address and a port; it is kept parsed (\<open>Peer\<close>), or as the
  text when it is not one.
\<close>

datatype remote = Peer addr nat | PeerRaw string

record request =
  rq_remote :: remote
  rq_xff :: "string list"      \<comment> \<open>values of \<open>X-Forwarded-For\<close>\<close>
  rq_xfp :: string             \<comment> \<open>\<open>X-Forwarded-Proto\<close>\<close>
  rq_tls :: bool
  rq_host :: string
  rq_origin :: string
  rq_cookie :: string

fun parse_proxy_fields :: "string list \<Rightarrow> ip_prefix list \<Rightarrow> string + ip_prefix list" where
  "parse_proxy_fields [] out = Inr out"
| "parse_proxy_fields (f0 # fs) out =
     (let f = TrimSpace f0 in
      if f = [] then parse_proxy_fields fs out
      else case ParsePrefix f of
        Some p \<Rightarrow> parse_proxy_fields fs (out @ [Masked p])
      | None \<Rightarrow>
          (case ParseAddr f of
             None \<Rightarrow> Inl f
           | Some a \<Rightarrow>
               let a = Unmap a in parse_proxy_fields fs (out @ [\<lparr>pfx_addr = a, pfx_bits = BitLen a\<rparr>])))"

definition parseProxies :: "string \<Rightarrow> string + ip_prefix list" where
  "parseProxies s = parse_proxy_fields (Split CHR '','' s) []"

definition trustedProxy :: "ip_prefix list \<Rightarrow> addr \<Rightarrow> bool" where
  "trustedProxy proxies a \<longleftrightarrow> list_ex (\<lambda>p. Contains_addr p (Unmap a)) proxies"

definition hops :: "request \<Rightarrow> string list" where
  "hops r = concat (map (Split CHR '','') (rq_xff r))"

text \<open>The loop of \<open>forwardedFor\<close>, over the hops from the last to the first.\<close>

fun scan_hops :: "ip_prefix list \<Rightarrow> string list \<Rightarrow> addr option" where
  "scan_hops proxies [] = None"
| "scan_hops proxies (h # hs) =
     (case ParseAddr (TrimSpace h) of
        None \<Rightarrow> None
      | Some a \<Rightarrow> if \<not> trustedProxy proxies a then Some (Unmap a) else scan_hops proxies hs)"

definition forwardedFor :: "ip_prefix list \<Rightarrow> request \<Rightarrow> addr option" where
  "forwardedFor proxies r =
     (case rq_remote r of
        PeerRaw _ \<Rightarrow> None
      | Peer peer _ \<Rightarrow>
          if \<not> trustedProxy proxies peer then None
          else scan_hops proxies (rev (hops r)))"

definition realIP :: "ip_prefix list \<Rightarrow> request \<Rightarrow> request" where
  "realIP proxies r =
     (if proxies = [] then r
      else case forwardedFor proxies r of
             None \<Rightarrow> r
           | Some ip \<Rightarrow> r\<lparr>rq_remote := Peer ip 0\<rparr>)"

datatype client_ip = IP addr | RawHost string

fun clientIP_of :: "remote \<Rightarrow> client_ip" where
  "clientIP_of (Peer a _) = IP a"
| "clientIP_of (PeerRaw s) = RawHost s"

definition clientIP :: "request \<Rightarrow> client_ip" where
  "clientIP r = clientIP_of (rq_remote r)"

text \<open>The limiter's key: an IPv4 address, the /64 of an IPv6 address, or the text.\<close>

datatype client_key = Key4 "32 word" | Key6 "64 word" | KeyRaw string

definition clientKey :: "client_ip \<Rightarrow> client_key" where
  "clientKey ip =
     (case ip of
        RawHost s \<Rightarrow> KeyRaw s
      | IP a \<Rightarrow>
          (case Unmap a of
             Addr6 x _ \<Rightarrow> Key6 (ucast (drop_bit 64 x))
           | Addr4 x \<Rightarrow> Key4 x))"

definition isHTTPS :: "request \<Rightarrow> bool" where
  "isHTTPS r \<longleftrightarrow> rq_tls r \<or> EqualFold (rq_xfp r) ''https''"

section \<open>Properties\<close>

lemma scan_hops_iff:
  "scan_hops proxies hs = Some a \<longleftrightarrow>
     (\<exists>ts h fs b. hs = ts @ h # fs \<and>
        (\<forall>t \<in> set ts. \<exists>c. ParseAddr (TrimSpace t) = Some c \<and> trustedProxy proxies c) \<and>
        ParseAddr (TrimSpace h) = Some b \<and> \<not> trustedProxy proxies b \<and> a = Unmap b)"
  (is "_ \<longleftrightarrow> ?R hs")
proof (induction hs)
  case Nil
  then show ?case by simp
next
  case (Cons h hs)
  show ?case
  proof (cases "ParseAddr (TrimSpace h)")
    case None
    then show ?thesis by (auto simp: Cons_eq_append_conv)
  next
    case (Some c)
    show ?thesis
    proof (cases "trustedProxy proxies c")
      case True
      have "?R (h # hs) \<longleftrightarrow> ?R hs"
      proof
        assume "?R (h # hs)"
        then obtain ts k fs b where ts: "h # hs = ts @ k # fs"
          "\<forall>t \<in> set ts. \<exists>c. ParseAddr (TrimSpace t) = Some c \<and> trustedProxy proxies c"
          "ParseAddr (TrimSpace k) = Some b" "\<not> trustedProxy proxies b" "a = Unmap b" by blast
        with Some True have "ts \<noteq> []" by auto
        with ts show "?R hs"
          by (intro exI [of _ "tl ts"] exI [of _ k] exI [of _ fs] exI [of _ b]) (cases ts, auto)
      next
        assume "?R hs"
        then obtain ts k fs b where "hs = ts @ k # fs"
          "\<forall>t \<in> set ts. \<exists>c. ParseAddr (TrimSpace t) = Some c \<and> trustedProxy proxies c"
          "ParseAddr (TrimSpace k) = Some b" "\<not> trustedProxy proxies b" "a = Unmap b" by blast
        then show "?R (h # hs)" using Some True
          by (intro exI [of _ "h # ts"] exI [of _ k] exI [of _ fs] exI [of _ b]) auto
      qed
      with Cons Some True show ?thesis by simp
    next
      case False
      have "?R (h # hs) \<longleftrightarrow> a = Unmap c"
      proof
        assume "?R (h # hs)"
        then show "a = Unmap c" using Some False by (auto simp: Cons_eq_append_conv)
      next
        assume "a = Unmap c"
        then show "?R (h # hs)" using Some False
          by (intro exI [of _ "[]"] exI [of _ h] exI [of _ hs] exI [of _ c]) auto
      qed
      with Some False show ?thesis by auto
    qed
  qed
qed

text \<open>
  (C16) The client address taken from \<open>X-Forwarded-For\<close> cannot be forged: when the direct
  peer is a trusted proxy, the result is the last hop that is not a trusted proxy, and the
  hops left of it (\<open>forged\<close>, all that the client itself can have written) have no influence.
  Every hop right of it is a trusted proxy. From any other peer the header is ignored.
\<close>

theorem forwarded_for_rightmost_untrusted:
  "forwardedFor proxies r = Some a \<longleftrightarrow>
     (\<exists>peer port forged h later b. rq_remote r = Peer peer port \<and> trustedProxy proxies peer \<and>
        hops r = forged @ [h] @ later \<and>
        (\<forall>t \<in> set later. \<exists>c. ParseAddr (TrimSpace t) = Some c \<and> trustedProxy proxies c) \<and>
        ParseAddr (TrimSpace h) = Some b \<and> \<not> trustedProxy proxies b \<and> a = Unmap b)"
proof (cases "rq_remote r")
  case (PeerRaw s)
  then show ?thesis by (simp add: forwardedFor_def)
next
  case (Peer peer port)
  have "scan_hops proxies (rev (hops r)) = Some a \<longleftrightarrow>
    (\<exists>forged h later b. hops r = forged @ [h] @ later \<and>
        (\<forall>t \<in> set later. \<exists>c. ParseAddr (TrimSpace t) = Some c \<and> trustedProxy proxies c) \<and>
        ParseAddr (TrimSpace h) = Some b \<and> \<not> trustedProxy proxies b \<and> a = Unmap b)" (is "_ \<longleftrightarrow> ?R")
  proof
    assume "scan_hops proxies (rev (hops r)) = Some a"
    then obtain ts h fs b where "rev (hops r) = ts @ h # fs"
      and b: "\<forall>t \<in> set ts. \<exists>c. ParseAddr (TrimSpace t) = Some c \<and> trustedProxy proxies c"
        "ParseAddr (TrimSpace h) = Some b" "\<not> trustedProxy proxies b" "a = Unmap b"
      by (auto simp: scan_hops_iff)
    then have "hops r = rev fs @ [h] @ rev ts" by (metis append_Cons append_Nil append_assoc rev_append rev_rev_ident rev_singleton_conv)
    with b show ?R by (intro exI [of _ "rev fs"] exI [of _ h] exI [of _ "rev ts"] exI [of _ b]) simp
  next
    assume ?R
    then obtain forged h later b where "hops r = forged @ [h] @ later"
      "\<forall>t \<in> set later. \<exists>c. ParseAddr (TrimSpace t) = Some c \<and> trustedProxy proxies c"
      "ParseAddr (TrimSpace h) = Some b" "\<not> trustedProxy proxies b" "a = Unmap b" by blast
    then show "scan_hops proxies (rev (hops r)) = Some a" unfolding scan_hops_iff
      by (intro exI [of _ "rev later"] exI [of _ h] exI [of _ "rev forged"] exI [of _ b]) simp
  qed
  then show ?thesis using Peer by (auto simp: forwardedFor_def)
qed

definition sample_proxies :: "ip_prefix list" where
  "sample_proxies = [\<lparr>pfx_addr = Addr4 0x0A000000, pfx_bits = 8\<rparr>]"

definition sample_request :: request where
  "sample_request = \<lparr>rq_remote = Peer (Addr4 0x0A000001) 4711, rq_xff = [''6.6.6.6, 203.0.113.9, 10.0.0.2''],
     rq_xfp = ''https'', rq_tls = False, rq_host = ''hub.example'', rq_origin = [], rq_cookie = []\<rparr>"

theorem forwarded_for_rightmost_untrusted_witness:
  "hops sample_request = [''6.6.6.6''] @ ['' 203.0.113.9''] @ ['' 10.0.0.2''] \<and>
   forwardedFor sample_proxies sample_request = Some (Addr4 0xCB007109)"
proof -
  have h: "hops sample_request = [''6.6.6.6''] @ ['' 203.0.113.9''] @ ['' 10.0.0.2'']" by code_simp
  have t: "TrimSpace '' 203.0.113.9'' = ''203.0.113.9''" "TrimSpace '' 10.0.0.2'' = ''10.0.0.2''"
    by (simp_all add: TrimSpace_eval)
  have p: "ParseAddr ''203.0.113.9'' = Some (Addr4 0xCB007109)" "ParseAddr ''10.0.0.2'' = Some (Addr4 0x0A000002)"
    by code_simp+
  have r: "rq_remote sample_request = Peer (Addr4 0x0A000001) 4711" by (simp add: sample_request_def)
  have tr: "trustedProxy sample_proxies (Addr4 0x0A000001)" "trustedProxy sample_proxies (Addr4 0x0A000002)"
    "\<not> trustedProxy sample_proxies (Addr4 0xCB007109)"
    by code_simp+
  have "forwardedFor sample_proxies sample_request = Some (Addr4 0xCB007109)"
    unfolding forwarded_for_rightmost_untrusted
    by (intro exI [of _ "Addr4 0x0A000001"] exI [of _ 4711] exI [of _ "[''6.6.6.6'']"] exI [of _ "'' 203.0.113.9''"]
        exI [of _ "['' 10.0.0.2'']"] exI [of _ "Addr4 0xCB007109"]) (simp add: h t p r tr)
  with h show ?thesis by simp
qed

text \<open>
  A range of IPv4-mapped IPv6 addresses in the setting trusts nobody: \<open>parseProxies\<close> keeps
  it as an IPv6 prefix, and \<open>trustedProxy\<close> looks up the unmapped IPv4 address.
\<close>

theorem mapped_range_trusts_nobody:
  assumes "drop_bit 32 x = (0xFFFF :: 128 word)" and "96 \<le> n" and "n \<le> 128"
  shows "\<not> trustedProxy [\<lparr>pfx_addr = Addr6 x z, pfx_bits = n\<rparr>] a"
proof -
  have "drop_bit 32 y = (0xFFFF :: 128 word)" if "drop_bit (128 - n) x = drop_bit (128 - n) y" for y
  proof -
    have "drop_bit (32 - (128 - n)) (drop_bit (128 - n) x) = drop_bit (32 - (128 - n)) (drop_bit (128 - n) y)"
      using that by simp
    with assms show ?thesis by simp
  qed
  then show ?thesis by (cases a) (auto simp: trustedProxy_def Contains_addr_def)
qed

end
