(* ===== verification/Store.thy ===== *)
theory Store
  imports Interfaces Protocol Proxy RunOutput "HOL-Library.Product_Lexorder"
begin

text \<open>
  The database of \<open>internal/hub/store\<close>: the tables of the schema as lists of rows, and one
  definition per method, each SQL statement as the list operation it performs.

  A single connection serialises all statements, so a statement is atomic. Every statement
  may fail (disk full, I/O error): \<open>st_faults\<close> tells for each coming statement whether it
  does, and an empty list means no more failures. A failed statement changes nothing. Columns
  that hold JSON (\<open>info\<close>, \<open>targets\<close>, \<open>notifiers\<close>, \<open>config\<close>) hold the value itself.
\<close>

section \<open>Tables\<close>

record user =
  u_id :: int
  u_username :: string
  u_password_hash :: string
  u_totp_secret :: string
  u_role :: string
  u_created_at :: int
  u_last_login :: int
  u_handle :: "string option"

record session_row =
  se_token :: string
  se_user :: int
  se_expires :: int
  se_elevated :: int

record enroll_row =
  en_token :: string
  en_created :: int
  en_expires :: int

record system =
  sy_id :: int
  sy_name :: string
  sy_fingerprint :: string
  sy_info :: system_info
  sy_agent_version :: string
  sy_last_seen :: int
  sy_last_metrics :: "metrics option"
  sy_created_at :: int

record metric_row =
  mr_system :: int
  mr_res :: int
  mr_ts :: int
  mr_values :: "rat list"

text \<open>
  The detail column of the activity log is text; its parts are kept apart, so that a quoted
  value (\<open>%q\<close>), a number, a duration or a date need not be rendered. The address of the
  client is kept parsed, \<open>None\<close> being the empty text.
\<close>

datatype detail = Txt string | Quoted string | Num int | Flt rat | Dur duration | Date go_time

record audit_entry =
  ae_id :: int
  ae_time :: int
  ae_username :: string
  ae_action :: string
  ae_system_id :: "int option"
  ae_system_name :: string
  ae_remote :: "client_ip option"
  ae_detail :: "detail list"

record passkey =
  pk_id :: int
  pk_user :: int
  pk_name :: string
  pk_rp_id :: string
  pk_credential :: string
  pk_public_key :: string
  pk_algorithm :: int
  pk_sign_count :: "32 word"
  pk_created_at :: int
  pk_last_used :: int

record notify_config =
  nc_url :: string
  nc_token :: string
  nc_chat_id :: string
  nc_host :: string
  nc_port :: int
  nc_username :: string
  nc_password :: string
  nc_from :: string
  nc_to :: string
  nc_tls :: string

record notifier =
  no_id :: int
  no_name :: string
  no_type :: string
  no_config :: notify_config
  no_enabled :: bool
  no_last_sent :: int
  no_last_error :: string
  no_created_at :: int

record alert_rule =
  ru_id :: int
  ru_name :: string
  ru_system_id :: "int option"
  ru_metric :: string
  ru_threshold :: rat
  ru_duration :: int
  ru_notifiers :: "int list"
  ru_enabled :: bool
  ru_created_at :: int

record alert =
  al_id :: int
  al_rule_id :: int
  al_rule_name :: string
  al_system_id :: int
  al_system_name :: string
  al_metric :: string
  al_threshold :: rat
  al_value :: rat
  al_started_at :: int
  al_resolved_at :: "int option"

record script =
  sc_id :: int
  sc_name :: string
  sc_description :: string
  sc_shell :: string
  sc_content :: string
  sc_timeout :: int
  sc_created_by :: string
  sc_created_at :: int
  sc_updated_at :: int

record store =
  st_users :: "user list"
  st_sessions :: "session_row list"
  st_enroll :: "enroll_row list"
  st_systems :: "system list"
  st_metrics :: "metric_row list"
  st_audit :: "audit_entry list"
  st_passkeys :: "passkey list"
  st_notifiers :: "notifier list"
  st_rules :: "alert_rule list"
  st_alerts :: "alert list"
  st_scripts :: "script list"
  st_runs :: "script_run list"
  st_faults :: "bool list"

section \<open>Statements\<close>

datatype db_error =
    ErrNotFound | ErrUsernameTaken | ErrLastAdmin | ErrPasskeyExists | ErrUnknownRole string
  | ErrConstraint | ErrDB

type_synonym 'a op = "store \<Rightarrow> (db_error + 'a) \<times> store"

text \<open>One SQL statement: it fails as the next entry of \<open>st_faults\<close> says, or runs.\<close>

definition stmt :: "'a op \<Rightarrow> 'a op" where
  "stmt f s =
     (case st_faults s of
        [] \<Rightarrow> f s
      | True # fs \<Rightarrow> (Inl ErrDB, s\<lparr>st_faults := fs\<rparr>)
      | False # fs \<Rightarrow> f (s\<lparr>st_faults := fs\<rparr>))"

text \<open>A query, and \<open>QueryRow\<close>, for which no row is \<open>ErrNotFound\<close>.\<close>

definition query :: "(store \<Rightarrow> 'a) \<Rightarrow> 'a op" where
  "query f = stmt (\<lambda>s. (Inr (f s), s))"

definition query_row :: "(store \<Rightarrow> 'a option) \<Rightarrow> 'a op" where
  "query_row f = stmt (\<lambda>s. (case f s of None \<Rightarrow> Inl ErrNotFound | Some x \<Rightarrow> Inr x, s))"

definition exec :: "(store \<Rightarrow> store) \<Rightarrow> unit op" where
  "exec f = stmt (\<lambda>s. (Inr (), f s))"

text \<open>\<open>affected\<close>: a statement that changed no row is \<open>ErrNotFound\<close>.\<close>

definition exec_affected :: "(store \<Rightarrow> bool) \<Rightarrow> (store \<Rightarrow> store) \<Rightarrow> unit op" where
  "exec_affected hit f = stmt (\<lambda>s. if hit s then (Inr (), f s) else (Inl ErrNotFound, s))"

text \<open>\<open>if err != nil { return err }\<close>.\<close>

definition bind_op :: "'a op \<Rightarrow> ('a \<Rightarrow> 'b op) \<Rightarrow> 'b op" where
  "bind_op m k s = (case m s of (Inl e, s) \<Rightarrow> (Inl e, s) | (Inr x, s) \<Rightarrow> k x s)"

section \<open>Users\<close>

definition RoleViewer :: string where "RoleViewer = ''viewer''"
definition RoleOperator :: string where "RoleOperator = ''operator''"
definition RoleAdmin :: string where "RoleAdmin = ''admin''"

definition roleRank :: "string \<Rightarrow> int" where
  "roleRank r = (if r = RoleViewer then 1 else if r = RoleOperator then 2 else if r = RoleAdmin then 3 else 0)"

definition ValidRole :: "string \<Rightarrow> bool" where
  "ValidRole r \<longleftrightarrow> 0 < roleRank r"

definition RoleIncludes :: "string \<Rightarrow> string \<Rightarrow> bool" where
  "RoleIncludes role need \<longleftrightarrow> roleRank need \<le> roleRank role"

definition Can :: "user \<Rightarrow> string \<Rightarrow> bool" where
  "Can u role = RoleIncludes (u_role u) role"

text \<open>A session with its user, as \<open>store.Session\<close>.\<close>

record session =
  ss_user :: user
  ss_token :: string
  ss_elevated :: int

definition CountUsers :: "nat op" where
  "CountUsers = query (\<lambda>s. length (st_users s))"

definition username_taken :: "string \<Rightarrow> store \<Rightarrow> bool" where
  "username_taken name s \<longleftrightarrow> list_ex (\<lambda>u. nocase_eq (u_username u) name) (st_users s)"

definition CreateUser :: "int \<Rightarrow> string \<Rightarrow> string \<Rightarrow> string \<Rightarrow> user op" where
  "CreateUser now username hash role s =
     (if \<not> ValidRole role then (Inl (ErrUnknownRole role), s)
      else stmt (\<lambda>s.
        if username_taken username s then (Inl ErrUsernameTaken, s)
        else let u = \<lparr>u_id = next_rowid u_id (st_users s), u_username = username, u_password_hash = hash,
                      u_totp_secret = [], u_role = role, u_created_at = now, u_last_login = 0, u_handle = None\<rparr>
             in (Inr u, s\<lparr>st_users := st_users s @ [u]\<rparr>)) s)"

definition UserByName :: "string \<Rightarrow> user op" where
  "UserByName name = query_row (\<lambda>s. find (\<lambda>u. nocase_eq (u_username u) name) (st_users s))"

definition User :: "int \<Rightarrow> user op" where
  "User i = query_row (\<lambda>s. row_get u_id i (st_users s))"

definition Users :: "user list op" where
  "Users = query (\<lambda>s. sort_key (\<lambda>u. ascii_lower (u_username u)) (st_users s))"

definition admins :: "store \<Rightarrow> user list" where
  "admins s = filter (\<lambda>u. u_role u = RoleAdmin) (st_users s)"

definition update_user :: "int \<Rightarrow> (user \<Rightarrow> user) \<Rightarrow> store \<Rightarrow> store" where
  "update_user i f s = s\<lparr>st_users := map (\<lambda>u. if u_id u = i then f u else u) (st_users s)\<rparr>"

text \<open>\<open>lastAdminCheck\<close>: no row changed means no such user, or the last administrator.\<close>

definition lastAdminCheck :: "unit op \<Rightarrow> int \<Rightarrow> unit op" where
  "lastAdminCheck m i s =
     (case m s of
        (Inl ErrNotFound, s) \<Rightarrow>
          (case User i s of
             (Inl e, s) \<Rightarrow> (Inl e, s)
           | (Inr _, s) \<Rightarrow> (Inl ErrLastAdmin, s))
      | r \<Rightarrow> r)"

definition SetRole :: "int \<Rightarrow> string \<Rightarrow> unit op" where
  "SetRole i role s =
     (if \<not> ValidRole role then (Inl (ErrUnknownRole role), s)
      else lastAdminCheck (exec_affected
        (\<lambda>s. list_ex (\<lambda>u. u_id u = i \<and> (role = RoleAdmin \<or> u_role u \<noteq> RoleAdmin \<or> 1 < length (admins s))) (st_users s))
        (\<lambda>s. s\<lparr>st_users := map (\<lambda>u. if u_id u = i \<and> (role = RoleAdmin \<or> u_role u \<noteq> RoleAdmin \<or> 1 < length (admins s))
                               then u\<lparr>u_role := role\<rparr> else u) (st_users s)\<rparr>)) i s)"

text \<open>\<open>ON DELETE CASCADE\<close>: sessions and passkeys go with their user.\<close>

definition cascade_users :: "store \<Rightarrow> store" where
  "cascade_users s =
     s\<lparr>st_sessions := filter (\<lambda>x. se_user x \<in> u_id ` set (st_users s)) (st_sessions s),
       st_passkeys := filter (\<lambda>p. pk_user p \<in> u_id ` set (st_users s)) (st_passkeys s)\<rparr>"

definition DeleteUser :: "int \<Rightarrow> unit op" where
  "DeleteUser i =
     lastAdminCheck (exec_affected
       (\<lambda>s. list_ex (\<lambda>u. u_id u = i \<and> (u_role u \<noteq> RoleAdmin \<or> 1 < length (admins s))) (st_users s))
       (\<lambda>s. cascade_users
          (s\<lparr>st_users := filter (\<lambda>u. \<not> (u_id u = i \<and> (u_role u \<noteq> RoleAdmin \<or> 1 < length (admins s)))) (st_users s)\<rparr>))) i"

definition SetLastLogin :: "int \<Rightarrow> go_time \<Rightarrow> unit op" where
  "SetLastLogin i t = exec (update_user i (\<lambda>u. u\<lparr>u_last_login := unix_of t\<rparr>))"

definition SetPassword :: "int \<Rightarrow> string \<Rightarrow> unit op" where
  "SetPassword i hash = exec (update_user i (\<lambda>u. u\<lparr>u_password_hash := hash\<rparr>))"

definition SetTOTPSecret :: "int \<Rightarrow> string \<Rightarrow> unit op" where
  "SetTOTPSecret i secret = exec (update_user i (\<lambda>u. u\<lparr>u_totp_secret := secret\<rparr>))"

section \<open>Sessions\<close>

definition CreateSession :: "string \<Rightarrow> int \<Rightarrow> go_time \<Rightarrow> unit op" where
  "CreateSession token i expires =
     stmt (\<lambda>s. if token \<in> se_token ` set (st_sessions s) \<or> i \<notin> u_id ` set (st_users s) then (Inl ErrConstraint, s)
       else (Inr (), s\<lparr>st_sessions := st_sessions s @
         [\<lparr>se_token = token, se_user = i, se_expires = unix_of expires, se_elevated = 0\<rparr>]\<rparr>))"

definition session_lookup :: "go_time \<Rightarrow> string \<Rightarrow> store \<Rightarrow> session option" where
  "session_lookup now token s =
     (case find (\<lambda>x. se_token x = token \<and> unix_of now < se_expires x) (st_sessions s) of
        None \<Rightarrow> None
      | Some x \<Rightarrow>
          map_option (\<lambda>u. \<lparr>ss_user = u, ss_token = token, ss_elevated = se_elevated x\<rparr>) (row_get u_id (se_user x) (st_users s)))"

definition Session :: "go_time \<Rightarrow> string \<Rightarrow> session op" where
  "Session now token = query_row (session_lookup now token)"

definition ElevateSession :: "string \<Rightarrow> go_time \<Rightarrow> unit op" where
  "ElevateSession token t =
     exec (\<lambda>s. s\<lparr>st_sessions := map (\<lambda>x. if se_token x = token then x\<lparr>se_elevated := unix_of t\<rparr> else x) (st_sessions s)\<rparr>)"

definition DeleteOtherSessions :: "int \<Rightarrow> string \<Rightarrow> unit op" where
  "DeleteOtherSessions i keep =
     exec (\<lambda>s. s\<lparr>st_sessions := filter (\<lambda>x. \<not> (se_user x = i \<and> se_token x \<noteq> keep)) (st_sessions s)\<rparr>)"

definition DeleteSessions :: "int \<Rightarrow> unit op" where
  "DeleteSessions i = exec (\<lambda>s. s\<lparr>st_sessions := filter (\<lambda>x. se_user x \<noteq> i) (st_sessions s)\<rparr>)"

definition DeleteSession :: "string \<Rightarrow> unit op" where
  "DeleteSession token = exec (\<lambda>s. s\<lparr>st_sessions := filter (\<lambda>x. se_token x \<noteq> token) (st_sessions s)\<rparr>)"

section \<open>Enrollment tokens\<close>

definition CreateEnrollToken :: "go_time \<Rightarrow> string \<Rightarrow> go_time \<Rightarrow> unit op" where
  "CreateEnrollToken now token expires =
     stmt (\<lambda>s. if token \<in> en_token ` set (st_enroll s) then (Inl ErrConstraint, s)
       else (Inr (), s\<lparr>st_enroll := st_enroll s @
         [\<lparr>en_token = token, en_created = unix_of now, en_expires = unix_of expires\<rparr>]\<rparr>))"

definition ValidEnrollToken :: "go_time \<Rightarrow> string \<Rightarrow> bool op" where
  "ValidEnrollToken now token =
     query (\<lambda>s. list_ex (\<lambda>e. en_token e = token \<and> unix_of now < en_expires e) (st_enroll s))"

definition DeleteExpired :: "go_time \<Rightarrow> unit op" where
  "DeleteExpired now =
     bind_op (exec (\<lambda>s. s\<lparr>st_sessions := filter (\<lambda>x. unix_of now < se_expires x) (st_sessions s)\<rparr>))
       (\<lambda>_. exec (\<lambda>s. s\<lparr>st_enroll := filter (\<lambda>e. unix_of now < en_expires e) (st_enroll s)\<rparr>))"

section \<open>Systems\<close>

definition System :: "int \<Rightarrow> system op" where
  "System i = query_row (\<lambda>s. row_get sy_id i (st_systems s))"

definition CreateSystem :: "int \<Rightarrow> string \<Rightarrow> string \<Rightarrow> system_info \<Rightarrow> string \<Rightarrow> system op" where
  "CreateSystem now name fingerprint info agentVersion =
     bind_op (stmt (\<lambda>s.
       if fingerprint \<in> sy_fingerprint ` set (st_systems s) then (Inl ErrConstraint, s)
       else let i = next_rowid sy_id (st_systems s)
            in (Inr i, s\<lparr>st_systems := st_systems s @
                 [\<lparr>sy_id = i, sy_name = name, sy_fingerprint = fingerprint, sy_info = info,
                   sy_agent_version = agentVersion, sy_last_seen = now, sy_last_metrics = None, sy_created_at = now\<rparr>]\<rparr>)))
       System"

definition SystemByFingerprint :: "string \<Rightarrow> system op" where
  "SystemByFingerprint fp = query_row (\<lambda>s. find (\<lambda>x. sy_fingerprint x = fp) (st_systems s))"

definition Systems :: "system list op" where
  "Systems = query (\<lambda>s. sort_key (\<lambda>x. (ascii_lower (sy_name x), sy_id x)) (st_systems s))"

definition update_system :: "int \<Rightarrow> (system \<Rightarrow> system) \<Rightarrow> store \<Rightarrow> store" where
  "update_system i f s = s\<lparr>st_systems := map (\<lambda>x. if sy_id x = i then f x else x) (st_systems s)\<rparr>"

definition UpdateSystemInfo :: "int \<Rightarrow> system_info \<Rightarrow> string \<Rightarrow> unit op" where
  "UpdateSystemInfo i info agentVersion =
     exec (update_system i (\<lambda>x. x\<lparr>sy_info := info, sy_agent_version := agentVersion\<rparr>))"

definition RenameSystem :: "int \<Rightarrow> string \<Rightarrow> unit op" where
  "RenameSystem i name =
     exec_affected (\<lambda>s. i \<in> sy_id ` set (st_systems s)) (update_system i (\<lambda>x. x\<lparr>sy_name := name\<rparr>))"

text \<open>\<open>ON DELETE CASCADE\<close>: metrics and rules of one system go with it.\<close>

definition cascade_systems :: "store \<Rightarrow> store" where
  "cascade_systems s =
     s\<lparr>st_metrics := filter (\<lambda>m. mr_system m \<in> sy_id ` set (st_systems s)) (st_metrics s),
       st_rules := filter (\<lambda>r. case ru_system_id r of None \<Rightarrow> True | Some i \<Rightarrow> i \<in> sy_id ` set (st_systems s)) (st_rules s)\<rparr>"

definition DeleteSystem :: "int \<Rightarrow> unit op" where
  "DeleteSystem i =
     exec_affected (\<lambda>s. i \<in> sy_id ` set (st_systems s))
       (\<lambda>s. cascade_systems (s\<lparr>st_systems := filter (\<lambda>x. sy_id x \<noteq> i) (st_systems s)\<rparr>))"

definition UpdateLastSeen :: "int \<Rightarrow> int \<Rightarrow> metrics \<Rightarrow> unit op" where
  "UpdateLastSeen i ts m = exec (update_system i (\<lambda>x. x\<lparr>sy_last_seen := ts, sy_last_metrics := Some m\<rparr>))"

section \<open>Activity log\<close>

definition AuditRetention :: duration where
  "AuditRetention = 366 * 24 * hour"

definition AddAudit :: "go_time \<Rightarrow> audit_entry \<Rightarrow> unit op" where
  "AddAudit now e =
     exec (\<lambda>s. s\<lparr>st_audit := st_audit s @
       [e\<lparr>ae_id := next_rowid ae_id (st_audit s),
          ae_time := (if ae_time e = 0 then unix_of now else ae_time e)\<rparr>]\<rparr>)"

definition AuditOf :: "string \<Rightarrow> int \<Rightarrow> nat \<Rightarrow> audit_entry list op" where
  "AuditOf username beforeID limit =
     query (\<lambda>s. take limit (rev (sort_key ae_id
       (filter (\<lambda>e. ae_id e < (if beforeID \<le> 0 then 2 ^ 62 else beforeID) \<and>
          (username = [] \<or> nocase_eq (ae_username e) username)) (st_audit s)))))"

definition Audit :: "int \<Rightarrow> nat \<Rightarrow> audit_entry list op" where
  "Audit beforeID limit = AuditOf [] beforeID limit"

definition PruneAudit :: "go_time \<Rightarrow> unit op" where
  "PruneAudit now =
     exec (\<lambda>s. s\<lparr>st_audit := filter (\<lambda>e. \<not> ae_time e < unix_of (now - AuditRetention)) (st_audit s)\<rparr>)"

section \<open>Passkeys\<close>

text \<open>\<open>PasskeyHandle\<close> with the random bytes it would store.\<close>

definition handle_of :: "int \<Rightarrow> store \<Rightarrow> string option option" where
  "handle_of i s = map_option u_handle (row_get u_id i (st_users s))"

definition PasskeyHandle :: "string \<Rightarrow> int \<Rightarrow> string op" where
  "PasskeyHandle rnd i =
     bind_op (query_row (handle_of i)) (\<lambda>h.
       case h of
         Some (c # cs) \<Rightarrow> (\<lambda>s. (Inr (c # cs), s))
       | _ \<Rightarrow>
           bind_op (exec (update_user i (\<lambda>u. if u_handle u = None then u\<lparr>u_handle := Some rnd\<rparr> else u)))
             (\<lambda>_. bind_op (query_row (handle_of i)) (\<lambda>h s. (Inr (case h of None \<Rightarrow> [] | Some b \<Rightarrow> b), s))))"

definition CreatePasskey :: "int \<Rightarrow> passkey \<Rightarrow> passkey op" where
  "CreatePasskey now p =
     stmt (\<lambda>s. if pk_credential p \<in> pk_credential ` set (st_passkeys s) then (Inl ErrPasskeyExists, s)
       else if pk_user p \<notin> u_id ` set (st_users s) then (Inl ErrConstraint, s)
       else let p' = p\<lparr>pk_id := next_rowid pk_id (st_passkeys s), pk_created_at := now, pk_last_used := 0\<rparr>
            in (Inr p', s\<lparr>st_passkeys := st_passkeys s @ [p']\<rparr>))"

definition Passkeys :: "int \<Rightarrow> passkey list op" where
  "Passkeys i = query (\<lambda>s. sort_key pk_id (filter (\<lambda>p. pk_user p = i) (st_passkeys s)))"

definition PasskeyCounts :: "(int \<Rightarrow> nat) op" where
  "PasskeyCounts = query (\<lambda>s i. length (filter (\<lambda>p. pk_user p = i) (st_passkeys s)))"

definition PasskeyByCredential :: "string \<Rightarrow> passkey op" where
  "PasskeyByCredential c = query_row (\<lambda>s. find (\<lambda>p. pk_credential p = c) (st_passkeys s))"

definition UsePasskey :: "go_time \<Rightarrow> int \<Rightarrow> 32 word \<Rightarrow> unit op" where
  "UsePasskey now i n =
     exec (\<lambda>s. s\<lparr>st_passkeys := map (\<lambda>p. if pk_id p = i then p\<lparr>pk_sign_count := n, pk_last_used := unix_of now\<rparr> else p)
       (st_passkeys s)\<rparr>)"

definition RenamePasskey :: "int \<Rightarrow> int \<Rightarrow> string \<Rightarrow> unit op" where
  "RenamePasskey i uid name =
     exec_affected (\<lambda>s. list_ex (\<lambda>p. pk_id p = i \<and> pk_user p = uid) (st_passkeys s))
       (\<lambda>s. s\<lparr>st_passkeys := map (\<lambda>p. if pk_id p = i \<and> pk_user p = uid then p\<lparr>pk_name := name\<rparr> else p) (st_passkeys s)\<rparr>)"

definition DeletePasskey :: "int \<Rightarrow> int \<Rightarrow> passkey op" where
  "DeletePasskey i uid =
     bind_op (query_row (\<lambda>s. find (\<lambda>p. pk_id p = i \<and> pk_user p = uid) (st_passkeys s))) (\<lambda>p.
       bind_op (exec_affected (\<lambda>s. i \<in> pk_id ` set (st_passkeys s))
           (\<lambda>s. s\<lparr>st_passkeys := filter (\<lambda>p. pk_id p \<noteq> i) (st_passkeys s)\<rparr>))
         (\<lambda>_ s. (Inr p, s)))"

definition DeletePasskeysOf :: "int \<Rightarrow> nat op" where
  "DeletePasskeysOf i =
     stmt (\<lambda>s. (Inr (length (filter (\<lambda>p. pk_user p = i) (st_passkeys s))),
       s\<lparr>st_passkeys := filter (\<lambda>p. pk_user p \<noteq> i) (st_passkeys s)\<rparr>))"

definition UserByPasskeyHandle :: "string \<Rightarrow> user op" where
  "UserByPasskeyHandle h s =
     (if h = [] then (Inl ErrNotFound, s)
      else query_row (\<lambda>s. find (\<lambda>u. u_handle u = Some h) (st_users s)) s)"

section \<open>Notifiers, rules and alerts\<close>

definition AlertRetention :: duration where
  "AlertRetention = 90 * 24 * hour"

definition Notifiers :: "notifier list op" where
  "Notifiers = query (\<lambda>s. sort_key (\<lambda>n. (ascii_lower (no_name n), no_id n)) (st_notifiers s))"

definition Notifier :: "int \<Rightarrow> notifier op" where
  "Notifier i = query_row (\<lambda>s. row_get no_id i (st_notifiers s))"

definition update_notifier :: "int \<Rightarrow> (notifier \<Rightarrow> notifier) \<Rightarrow> store \<Rightarrow> store" where
  "update_notifier i f s = s\<lparr>st_notifiers := map (\<lambda>n. if no_id n = i then f n else n) (st_notifiers s)\<rparr>"

definition SaveNotifier :: "int \<Rightarrow> notifier \<Rightarrow> notifier op" where
  "SaveNotifier now n =
     (if no_id n = 0 then
        stmt (\<lambda>s. let n' = n\<lparr>no_id := next_rowid no_id (st_notifiers s), no_created_at := now\<rparr>
                  in (Inr n', s\<lparr>st_notifiers := st_notifiers s @ [n'\<lparr>no_last_sent := 0, no_last_error := []\<rparr>]\<rparr>))
      else bind_op (exec_affected (\<lambda>s. no_id n \<in> no_id ` set (st_notifiers s))
             (update_notifier (no_id n) (\<lambda>x. x\<lparr>no_name := no_name n, no_type := no_type n, no_config := no_config n,
                no_enabled := no_enabled n\<rparr>))) (\<lambda>_ s. (Inr n, s)))"

definition DeleteNotifier :: "int \<Rightarrow> unit op" where
  "DeleteNotifier i =
     exec_affected (\<lambda>s. i \<in> no_id ` set (st_notifiers s))
       (\<lambda>s. s\<lparr>st_notifiers := filter (\<lambda>n. no_id n \<noteq> i) (st_notifiers s)\<rparr>)"

definition NotifierResult :: "int \<Rightarrow> int \<Rightarrow> string \<Rightarrow> unit op" where
  "NotifierResult i sentAt errMsg =
     exec (update_notifier i (\<lambda>n. n\<lparr>no_last_sent := sentAt, no_last_error := errMsg\<rparr>))"

definition AlertRules :: "alert_rule list op" where
  "AlertRules = query (\<lambda>s. sort_key ru_id (st_rules s))"

definition AlertRule :: "int \<Rightarrow> alert_rule op" where
  "AlertRule i = query_row (\<lambda>s. row_get ru_id i (st_rules s))"

definition rule_system_ok :: "alert_rule \<Rightarrow> store \<Rightarrow> bool" where
  "rule_system_ok r s \<longleftrightarrow> (case ru_system_id r of None \<Rightarrow> True | Some i \<Rightarrow> i \<in> sy_id ` set (st_systems s))"

definition SaveAlertRule :: "int \<Rightarrow> alert_rule \<Rightarrow> alert_rule op" where
  "SaveAlertRule now r =
     (if ru_id r = 0 then
        stmt (\<lambda>s. if \<not> rule_system_ok r s then (Inl ErrConstraint, s)
          else let r' = r\<lparr>ru_id := next_rowid ru_id (st_rules s), ru_created_at := now\<rparr>
               in (Inr r', s\<lparr>st_rules := st_rules s @ [r']\<rparr>))
      else stmt (\<lambda>s.
          if ru_id r \<notin> ru_id ` set (st_rules s) then (Inl ErrNotFound, s)
          else if \<not> rule_system_ok r s then (Inl ErrConstraint, s)
          else (Inr r, s\<lparr>st_rules := map (\<lambda>x. if ru_id x = ru_id r then r\<lparr>ru_created_at := ru_created_at x\<rparr> else x)
                 (st_rules s)\<rparr>)))"

definition DeleteAlertRule :: "int \<Rightarrow> unit op" where
  "DeleteAlertRule i =
     exec_affected (\<lambda>s. i \<in> ru_id ` set (st_rules s)) (\<lambda>s. s\<lparr>st_rules := filter (\<lambda>r. ru_id r \<noteq> i) (st_rules s)\<rparr>)"

definition ActiveAlerts :: "alert list op" where
  "ActiveAlerts = query (\<lambda>s. rev (sort_key al_started_at (filter (\<lambda>a. al_resolved_at a = None) (st_alerts s))))"

definition ResolvedAlerts :: "nat \<Rightarrow> alert list op" where
  "ResolvedAlerts limit =
     query (\<lambda>s. take limit (rev (sort_key (\<lambda>a. the (al_resolved_at a)) (filter (\<lambda>a. al_resolved_at a \<noteq> None) (st_alerts s)))))"

definition CreateAlert :: "alert \<Rightarrow> alert op" where
  "CreateAlert a =
     stmt (\<lambda>s. let a' = a\<lparr>al_id := next_rowid al_id (st_alerts s), al_resolved_at := None\<rparr>
               in (Inr a', s\<lparr>st_alerts := st_alerts s @ [a']\<rparr>))"

definition ResolveAlert :: "int \<Rightarrow> int \<Rightarrow> unit op" where
  "ResolveAlert i ts =
     exec (\<lambda>s. s\<lparr>st_alerts := map (\<lambda>a. if al_id a = i \<and> al_resolved_at a = None then a\<lparr>al_resolved_at := Some ts\<rparr> else a)
       (st_alerts s)\<rparr>)"

definition ResolveAlertsWhere :: "int \<Rightarrow> int \<Rightarrow> int \<Rightarrow> unit op" where
  "ResolveAlertsWhere ruleID systemID ts =
     exec (\<lambda>s. s\<lparr>st_alerts := map (\<lambda>a. if al_resolved_at a = None \<and>
          ((ruleID \<noteq> 0 \<and> al_rule_id a = ruleID) \<or> (systemID \<noteq> 0 \<and> al_system_id a = systemID))
          then a\<lparr>al_resolved_at := Some ts\<rparr> else a) (st_alerts s)\<rparr>)"

definition PruneAlerts :: "go_time \<Rightarrow> unit op" where
  "PruneAlerts now =
     exec (\<lambda>s. s\<lparr>st_alerts := filter (\<lambda>a. case al_resolved_at a of None \<Rightarrow> True
          | Some t \<Rightarrow> \<not> t < unix_of (now - AlertRetention)) (st_alerts s)\<rparr>)"

section \<open>Scripts and runs\<close>

definition RunRetention :: duration where
  "RunRetention = 90 * 24 * hour"

definition Scripts :: "script list op" where
  "Scripts = query (\<lambda>s. sort_key (\<lambda>x. (ascii_lower (sc_name x), sc_id x)) (st_scripts s))"

definition Script :: "int \<Rightarrow> script op" where
  "Script i = query_row (\<lambda>s. row_get sc_id i (st_scripts s))"

definition SaveScript :: "int \<Rightarrow> script \<Rightarrow> script op" where
  "SaveScript now sc =
     (let sc = sc\<lparr>sc_updated_at := now\<rparr> in
      if sc_id sc = 0 then
        stmt (\<lambda>s. let sc' = sc\<lparr>sc_id := next_rowid sc_id (st_scripts s), sc_created_at := now\<rparr>
                  in (Inr sc', s\<lparr>st_scripts := st_scripts s @ [sc']\<rparr>))
      else bind_op (exec_affected (\<lambda>s. sc_id sc \<in> sc_id ` set (st_scripts s))
             (\<lambda>s. s\<lparr>st_scripts := map (\<lambda>x. if sc_id x = sc_id sc
                 then x\<lparr>sc_name := sc_name sc, sc_description := sc_description sc, sc_shell := sc_shell sc,
                        sc_content := sc_content sc, sc_timeout := sc_timeout sc, sc_updated_at := now\<rparr> else x)
               (st_scripts s)\<rparr>)) (\<lambda>_ s. (Inr sc, s)))"

definition DeleteScript :: "int \<Rightarrow> unit op" where
  "DeleteScript i =
     exec_affected (\<lambda>s. i \<in> sc_id ` set (st_scripts s)) (\<lambda>s. s\<lparr>st_scripts := filter (\<lambda>x. sc_id x \<noteq> i) (st_scripts s)\<rparr>)"

definition targetsSummary :: "runTarget list \<Rightarrow> runTarget list" where
  "targetsSummary ts = map (\<lambda>t. t\<lparr>rt_output := []\<rparr>) ts"

definition CreateRun :: "script_run \<Rightarrow> script_run op" where
  "CreateRun r =
     stmt (\<lambda>s. let r' = r\<lparr>sr_id := next_rowid sr_id (st_runs s)\<rparr>
               in (Inr r', s\<lparr>st_runs := st_runs s @
                    [r'\<lparr>sr_finished_at := None, sr_summary := targetsSummary (sr_targets r)\<rparr>]\<rparr>))"

definition FinishRun :: "int \<Rightarrow> int \<Rightarrow> runTarget list \<Rightarrow> unit op" where
  "FinishRun i finishedAt targets =
     exec (\<lambda>s. s\<lparr>st_runs := map (\<lambda>r. if sr_id r = i then r\<lparr>sr_finished_at := Some finishedAt, sr_targets := targets,
          sr_summary := targetsSummary targets\<rparr> else r) (st_runs s)\<rparr>)"

definition Run :: "int \<Rightarrow> script_run op" where
  "Run i = query_row (\<lambda>s. row_get sr_id i (st_runs s))"

text \<open>The list reads the summary column as \<open>Targets\<close> and an empty script.\<close>

definition Runs :: "nat \<Rightarrow> script_run list op" where
  "Runs limit = query (\<lambda>s. map (\<lambda>r. r\<lparr>sr_content := [], sr_targets := sr_summary r\<rparr>)
     (take limit (rev (sort_key sr_id (st_runs s)))))"

definition UnfinishedRuns :: "script_run list op" where
  "UnfinishedRuns = query (\<lambda>s. filter (\<lambda>r. sr_finished_at r = None) (st_runs s))"

definition PruneRuns :: "go_time \<Rightarrow> unit op" where
  "PruneRuns now = exec (\<lambda>s. s\<lparr>st_runs := filter (\<lambda>r. \<not> sr_started_at r < unix_of (now - RunRetention)) (st_runs s)\<rparr>)"

end
