(* ===== verification/MetricStore.thy ===== *)
theory MetricStore
  imports Store
begin

text \<open>
  Metric history in \<open>store/metrics.go\<close>: one row per system, resolution and bucket, the
  roll-up of one-minute rows into coarser buckets, and retention. A row has one value per
  column of \<open>MetricCols\<close>, as rational numbers.
\<close>

definition MetricCols :: "string list" where
  "MetricCols = [''cpu'', ''mem_used'', ''mem_total'', ''swap_used'', ''swap_total'', ''disk_used'', ''disk_total'',
     ''disk_read'', ''disk_write'', ''net_rx'', ''net_tx'', ''load1'', ''load5'', ''load15'']"

definition NumMetricCols :: nat where
  "NumMetricCols = length MetricCols"

definition maxCols :: "string \<Rightarrow> bool" where
  "maxCols c \<longleftrightarrow> c \<in> {''mem_total'', ''swap_total'', ''disk_total''}"

definition Res1 :: int where "Res1 = 1"
definition Res10 :: int where "Res10 = 10"
definition Res60 :: int where "Res60 = 60"

definition Retention :: "(int \<times> duration) list" where
  "Retention = [(Res1, 48 * hour), (Res10, 31 * 24 * hour), (Res60, 366 * 24 * hour)]"

definition metric_key :: "metric_row \<Rightarrow> int \<times> int \<times> int" where
  "metric_key m = (mr_system m, mr_res m, mr_ts m)"

text \<open>\<open>INSERT OR REPLACE\<close>: a row with the same primary key is deleted first.\<close>

definition replace_rows :: "metric_row list \<Rightarrow> metric_row list \<Rightarrow> metric_row list" where
  "replace_rows new old = filter (\<lambda>m. metric_key m \<notin> metric_key ` set new) old @ new"

definition InsertMetrics :: "int \<Rightarrow> int \<Rightarrow> int \<Rightarrow> rat list \<Rightarrow> unit op" where
  "InsertMetrics i res ts vals =
     stmt (\<lambda>s. if i \<notin> sy_id ` set (st_systems s) then (Inl ErrConstraint, s)
       else (Inr (), s\<lparr>st_metrics :=
         replace_rows [\<lparr>mr_system = i, mr_res = res, mr_ts = ts, mr_values = vals\<rparr>] (st_metrics s)\<rparr>))"

definition QueryMetrics :: "int \<Rightarrow> int \<Rightarrow> int \<Rightarrow> int \<Rightarrow> metric_row list op" where
  "QueryMetrics i res from to' =
     query (\<lambda>s. sort_key mr_ts
       (filter (\<lambda>m. mr_system m = i \<and> mr_res m = res \<and> from \<le> mr_ts m \<and> mr_ts m \<le> to') (st_metrics s)))"

text \<open>\<open>AVG\<close> or \<open>MAX\<close> of column \<open>c\<close> over the rows of a group.\<close>

definition col_values :: "nat \<Rightarrow> metric_row list \<Rightarrow> rat list" where
  "col_values c ms = map (\<lambda>m. mr_values m ! c) ms"

definition aggregate_col :: "nat \<Rightarrow> metric_row list \<Rightarrow> rat" where
  "aggregate_col c ms =
     (if maxCols (MetricCols ! c) then fold max (tl (col_values c ms)) (hd (col_values c ms))
      else sum_list (col_values c ms) / of_nat (length ms))"

definition aggregate :: "metric_row list \<Rightarrow> rat list" where
  "aggregate ms = map (\<lambda>c. aggregate_col c ms) [0 ..< NumMetricCols]"

definition bucket_of :: "int \<Rightarrow> int \<Rightarrow> int" where
  "bucket_of bucket ts = go_div ts bucket * bucket"

definition rollup_source :: "int \<Rightarrow> int \<Rightarrow> store \<Rightarrow> metric_row list" where
  "rollup_source since until s =
     filter (\<lambda>m. mr_system m \<in> sy_id ` set (st_systems s) \<and> mr_res m = Res1 \<and> since \<le> mr_ts m \<and> mr_ts m < until)
       (st_metrics s)"

definition rollup_rows :: "int \<Rightarrow> int \<Rightarrow> metric_row list \<Rightarrow> metric_row list" where
  "rollup_rows toRes bucket src =
     map (\<lambda>(i, b). \<lparr>mr_system = i, mr_res = toRes, mr_ts = b,
            mr_values = aggregate (filter (\<lambda>m. mr_system m = i \<and> bucket_of bucket (mr_ts m) = b) src)\<rparr>)
       (remdups (map (\<lambda>m. (mr_system m, bucket_of bucket (mr_ts m))) src))"

definition rollup_until :: "int \<Rightarrow> go_time \<Rightarrow> int" where
  "rollup_until bucket now = go_div (unix_of now) bucket * bucket"

definition rollup_since :: "int \<Rightarrow> duration \<Rightarrow> go_time \<Rightarrow> int" where
  "rollup_since bucket window now = go_div (rollup_until bucket now - go_div window second) bucket * bucket"

definition Rollup :: "int \<Rightarrow> duration \<Rightarrow> go_time \<Rightarrow> unit op" where
  "Rollup toRes window now =
     (let bucket = toRes * 60 in
      exec (\<lambda>s. s\<lparr>st_metrics := replace_rows
        (rollup_rows toRes bucket (rollup_source (rollup_since bucket window now) (rollup_until bucket now) s))
        (st_metrics s)\<rparr>))"

fun prune_metrics :: "go_time \<Rightarrow> (int \<times> duration) list \<Rightarrow> unit op" where
  "prune_metrics now [] = (\<lambda>s. (Inr (), s))"
| "prune_metrics now ((res, keep) # rs) =
     bind_op (exec (\<lambda>s. s\<lparr>st_metrics := filter (\<lambda>m. \<not> (mr_system m \<in> sy_id ` set (st_systems s) \<and> mr_res m = res \<and>
         mr_ts m < unix_of (now - keep))) (st_metrics s)\<rparr>))
       (\<lambda>_. prune_metrics now rs)"

definition PruneMetrics :: "go_time \<Rightarrow> unit op" where
  "PruneMetrics now = prune_metrics now Retention"

text \<open>\<open>Hub.rollup\<close>: errors are logged and the next resolution is tried.\<close>

definition hub_rollup :: "duration \<Rightarrow> go_time \<Rightarrow> store \<Rightarrow> store" where
  "hub_rollup window now s = snd (Rollup Res60 window now (snd (Rollup Res10 window now s)))"

section \<open>Properties of the roll-up\<close>

lemma metric_key_rollup_rows: "m \<in> set (rollup_rows toRes bucket src) \<Longrightarrow> mr_res m = toRes"
  by (auto simp: rollup_rows_def)

lemma distinct_rollup_rows: "distinct (map metric_key (rollup_rows toRes bucket src))"
proof -
  have "map metric_key (rollup_rows toRes bucket src) =
      map (\<lambda>(i, b). (i, toRes, b)) (remdups (map (\<lambda>m. (mr_system m, bucket_of bucket (mr_ts m))) src))"
    by (auto simp: rollup_rows_def metric_key_def)
  then show ?thesis by (simp only: distinct_map) (auto simp: inj_on_def)
qed

lemma set_rollup_rows:
  "r \<in> set (rollup_rows toRes bucket src) \<longleftrightarrow>
     (\<exists>m \<in> set src. r = \<lparr>mr_system = mr_system m, mr_res = toRes, mr_ts = bucket_of bucket (mr_ts m),
        mr_values = aggregate (filter (\<lambda>x. mr_system x = mr_system m \<and>
          bucket_of bucket (mr_ts x) = bucket_of bucket (mr_ts m)) src)\<rparr>)"
  by (auto simp: rollup_rows_def)

lemma bucket_of_bounds:
  assumes "0 < bucket" "0 \<le> ts"
  shows "bucket_of bucket ts \<le> ts" "ts < bucket_of bucket ts + bucket" "bucket dvd bucket_of bucket ts"
proof -
  have "bucket_of bucket ts = ts - ts mod bucket"
    using assms by (simp add: bucket_of_def minus_mod_eq_div_mult)
  with pos_mod_sign [OF assms(1), of ts] pos_mod_bound [OF assms(1), of ts]
  show "bucket_of bucket ts \<le> ts" "ts < bucket_of bucket ts + bucket" by simp_all
  show "bucket dvd bucket_of bucket ts" by (simp add: bucket_of_def)
qed

lemma bucket_of_eq:
  assumes "0 < bucket" "0 \<le> b" "bucket dvd b" "b \<le> ts" "ts < b + bucket"
  shows "bucket_of bucket ts = b"
proof -
  obtain k where k: "b = bucket * k" using assms(3) by (auto simp: dvd_def)
  have "ts div bucket = k"
    by (rule int_div_pos_eq [of ts bucket k "ts - b"]) (use assms k in simp_all)
  with assms k show ?thesis by (simp add: bucket_of_def)
qed

lemma rollup_metrics:
  assumes "st_faults s = []"
  shows "st_metrics (snd (Rollup toRes window now s)) =
    replace_rows (rollup_rows toRes (toRes * 60) (rollup_source (rollup_since (toRes * 60) window now)
      (rollup_until (toRes * 60) now) s)) (st_metrics s)"
  by (simp add: Rollup_def exec_def stmt_def assms Let_def)

lemma rollup_frame:
  assumes "st_faults s = []"
  shows "st_systems (snd (Rollup toRes window now s)) = st_systems s"
    and "st_faults (snd (Rollup toRes window now s)) = []"
  by (simp_all add: Rollup_def exec_def stmt_def assms Let_def)

text \<open>Rolling up does not touch the one-minute rows it reads.\<close>

lemma rollup_source_replace:
  assumes "\<And>m. m \<in> set new \<Longrightarrow> mr_res m \<noteq> Res1" and "st_systems s' = st_systems s"
    and "st_metrics s' = replace_rows new (st_metrics s)"
  shows "rollup_source since until s' = rollup_source since until s"
proof -
  have keep: "metric_key m \<notin> metric_key ` set new" if "mr_res m = Res1" for m
    using assms(1) that by (force simp: metric_key_def)
  have new: "filter (\<lambda>m. mr_system m \<in> sy_id ` set (st_systems s) \<and> mr_res m = Res1 \<and> since \<le> mr_ts m \<and> mr_ts m < until) new = []"
    using assms(1) by (auto simp: filter_empty_conv)
  show ?thesis
    using keep by (auto simp: rollup_source_def assms(2,3) replace_rows_def new intro!: filter_cong)
qed

text \<open>
  (C19) The roll-up is idempotent: repeating it at the same time changes nothing, and the
  value it stores for a bucket does not depend on the window. For every bucket that lies in
  the window, of a system that exists and has one-minute rows in it, the table afterwards
  holds exactly one row, the average (for capacities the maximum) of all one-minute rows
  of the bucket.
\<close>

theorem rollup_complete_buckets:
  assumes faults: "st_faults s = []" and res: "1 < toRes" and since: "0 \<le> rollup_since (toRes * 60) window now"
    and i: "i \<in> sy_id ` set (st_systems s)"
    and b: "toRes * 60 dvd b" "rollup_since (toRes * 60) window now \<le> b" "b + toRes * 60 \<le> rollup_until (toRes * 60) now"
    and src: "src = filter (\<lambda>m. mr_system m = i \<and> mr_res m = Res1 \<and> b \<le> mr_ts m \<and> mr_ts m < b + toRes * 60) (st_metrics s)"
      "src \<noteq> []"
  shows "filter (\<lambda>m. metric_key m = (i, toRes, b)) (st_metrics (snd (Rollup toRes window now s))) =
      [\<lparr>mr_system = i, mr_res = toRes, mr_ts = b, mr_values = aggregate src\<rparr>] \<and>
    st_metrics (snd (Rollup toRes window now (snd (Rollup toRes window now s)))) = st_metrics (snd (Rollup toRes window now s))"
proof
  let ?bk = "toRes * 60" and ?since = "rollup_since (toRes * 60) window now" and ?until = "rollup_until (toRes * 60) now"
  let ?all = "rollup_source ?since ?until s"
  let ?new = "rollup_rows toRes ?bk ?all"
  let ?row = "\<lparr>mr_system = i, mr_res = toRes, mr_ts = b, mr_values = aggregate src\<rparr>"
  have pos: "0 < ?bk" using res by simp
  have in_bucket: "bucket_of ?bk (mr_ts m) = b \<longleftrightarrow> b \<le> mr_ts m \<and> mr_ts m < b + ?bk" if "?since \<le> mr_ts m" for m :: metric_row
    using bucket_of_eq [OF pos _ b(1), of "mr_ts m"] bucket_of_bounds [OF pos, of "mr_ts m"] since that b(2) by auto
  have group: "filter (\<lambda>m. mr_system m = i \<and> bucket_of ?bk (mr_ts m) = b) ?all = src"
    unfolding rollup_source_def src(1) filter_filter
    by (rule filter_cong) (use in_bucket i b(2,3) in \<open>auto simp: Res1_def\<close>)
  have row: "?row \<in> set ?new"
  proof -
    obtain m where m: "m \<in> set src" using src(2) by (cases src) auto
    then have "m \<in> set ?all" "mr_system m = i" "bucket_of ?bk (mr_ts m) = b" unfolding group [symmetric] by auto
    with group show ?thesis by (auto simp: set_rollup_rows intro!: bexI [of _ m])
  qed
  have only: "filter (\<lambda>m. metric_key m = (i, toRes, b)) ?new = [?row]"
  proof -
    have k: "metric_key ?row = (i, toRes, b)" by (simp add: metric_key_def)
    obtain xs ys where xy: "?new = xs @ ?row # ys" using row by (meson split_list)
    have "distinct (map metric_key (xs @ ?row # ys))" using distinct_rollup_rows [of toRes ?bk ?all] xy by simp
    then have "filter (\<lambda>m. metric_key m = (i, toRes, b)) xs = []" "filter (\<lambda>m. metric_key m = (i, toRes, b)) ys = []"
      using k by (auto simp: filter_empty_conv image_iff)
    with xy k show ?thesis by simp
  qed
  have "(i, toRes, b) \<in> metric_key ` set ?new"
    using row by (rule rev_image_eqI) (simp add: metric_key_def)
  then have "filter (\<lambda>m. metric_key m = (i, toRes, b)) (filter (\<lambda>m. metric_key m \<notin> metric_key ` set ?new) (st_metrics s)) = []"
    by (auto simp: filter_empty_conv)
  with only show "filter (\<lambda>m. metric_key m = (i, toRes, b)) (st_metrics (snd (Rollup toRes window now s))) = [?row]"
    by (simp add: rollup_metrics [OF faults] replace_rows_def)
  have ne: "mr_res m \<noteq> Res1" if "m \<in> set ?new" for m
    using metric_key_rollup_rows [OF that] res by (simp add: Res1_def)
  have again: "rollup_source ?since ?until (snd (Rollup toRes window now s)) = ?all"
    by (rule rollup_source_replace [OF ne rollup_frame(1) [OF faults] rollup_metrics [OF faults]])
  have idem: "replace_rows ?new (replace_rows ?new (st_metrics s)) = replace_rows ?new (st_metrics s)"
    by (simp add: replace_rows_def)
  show "st_metrics (snd (Rollup toRes window now (snd (Rollup toRes window now s)))) = st_metrics (snd (Rollup toRes window now s))"
    by (simp add: rollup_metrics [OF rollup_frame(2) [OF faults]] again rollup_metrics [OF faults] idem)
qed

section \<open>Concrete instances\<close>

definition sample_system :: system where
  "sample_system = \<lparr>sy_id = 1, sy_name = ''nas'', sy_fingerprint = ''fp'', sy_info = empty_info, sy_agent_version = [],
     sy_last_seen = 0, sy_last_metrics = None, sy_created_at = 0\<rparr>"

definition empty_store :: store where
  "empty_store = \<lparr>st_users = [], st_sessions = [], st_enroll = [], st_systems = [], st_metrics = [], st_audit = [],
     st_passkeys = [], st_notifiers = [], st_rules = [], st_alerts = [], st_scripts = [], st_runs = [], st_faults = []\<rparr>"

text \<open>Two one-minute rows of an hour: 0% at its start, 100% after forty minutes.\<close>

definition minute_row :: "int \<Rightarrow> rat \<Rightarrow> metric_row" where
  "minute_row ts v = \<lparr>mr_system = 1, mr_res = Res1, mr_ts = ts, mr_values = replicate NumMetricCols v\<rparr>"

definition hour_row :: "rat \<Rightarrow> rat \<Rightarrow> metric_row" where
  "hour_row v cap = \<lparr>mr_system = 1, mr_res = Res60, mr_ts = 0,
     mr_values = map (\<lambda>c. if maxCols c then cap else v) MetricCols\<rparr>"

definition sample_history :: store where
  "sample_history = empty_store\<lparr>st_systems := [sample_system], st_metrics := [minute_row 0 0, minute_row 2400 100]\<rparr>"

lemma sample_bounds:
  "rollup_since 3600 7200000000000 7200000000000 = 0" "rollup_until 3600 7200000000000 = 7200"
  "rollup_since 3600 172800000000000 174000000000000 = 0" "rollup_until 3600 174000000000000 = 172800"
  by (simp_all add: rollup_until_def rollup_since_def unix_of_def)

lemma sample_aggregate:
  "aggregate [minute_row 0 0, minute_row 2400 100] = mr_values (hour_row 50 100)"
  "aggregate [minute_row 2400 100] = mr_values (hour_row 100 100)"
  by (simp_all add: aggregate_def aggregate_col_def col_values_def minute_row_def hour_row_def NumMetricCols_def
      MetricCols_def maxCols_def upt_rec)

theorem rollup_complete_buckets_witness:
  "st_metrics (snd (Rollup Res60 (2 * hour) (7200 * second) (snd (Rollup Res60 (2 * hour) (7200 * second) sample_history)))) =
     st_metrics (snd (Rollup Res60 (2 * hour) (7200 * second) sample_history)) \<and>
   filter (\<lambda>m. metric_key m = (1, Res60, 0)) (st_metrics (snd (Rollup Res60 (2 * hour) (7200 * second) sample_history))) =
     [hour_row 50 100]"
proof -
  have src: "filter (\<lambda>m. mr_system m = 1 \<and> mr_res m = Res1 \<and> 0 \<le> mr_ts m \<and> mr_ts m < 0 + Res60 * 60) (st_metrics sample_history)
      = [minute_row 0 0, minute_row 2400 100]"
    by (simp add: sample_history_def minute_row_def Res60_def Res1_def)
  have "(1::int) \<in> sy_id ` set (st_systems sample_history)" "st_faults sample_history = []" "1 < Res60"
    by (simp_all add: sample_history_def sample_system_def empty_store_def Res60_def)
  with rollup_complete_buckets [of sample_history Res60 "2 * hour" "7200 * second" 1 0, OF _ _ _ _ _ _ _ src [symmetric]]
  show ?thesis by (simp add: Res60_def sample_bounds sample_aggregate hour_row_def)
qed

text \<open>
  Catching up after a restart can damage history. The start-up roll-up goes back as far as
  one-minute rows are kept, so its oldest hour may already be partly pruned; the average of
  what is left replaces the correct one. Here the hour's stored average of 50 becomes 100.
\<close>

lemma rollup_eval:
  assumes "st_faults s = []" and "rollup_source (rollup_since (toRes * 60) window now) (rollup_until (toRes * 60) now) s = src"
    and "rollup_rows toRes (toRes * 60) src = new" and "replace_rows new (st_metrics s) = ms"
  shows "snd (Rollup toRes window now s) = s\<lparr>st_metrics := ms\<rparr>"
  using assms by (simp add: Rollup_def exec_def stmt_def Let_def)

lemmas sample_eval = sample_history_def empty_store_def sample_system_def rollup_rows_def rollup_source_def
  replace_rows_def bucket_of_def minute_row_def hour_row_def Res1_def Res60_def metric_key_def sample_bounds

lemma sample_rollup:
  "snd (Rollup Res60 (2 * hour) (7200 * second) sample_history) =
     sample_history\<lparr>st_metrics := [minute_row 0 0, minute_row 2400 100, hour_row 50 100]\<rparr>"
proof (rule rollup_eval)
  show "rollup_source (rollup_since (Res60 * 60) (2 * hour) (7200 * second)) (rollup_until (Res60 * 60) (7200 * second))
      sample_history = [minute_row 0 0, minute_row 2400 100]"
    by (simp add: sample_eval)
  show "rollup_rows Res60 (Res60 * 60) [minute_row 0 0, minute_row 2400 100] = [hour_row 50 100]"
    using sample_aggregate(1) by (simp add: sample_eval)
qed (simp_all add: sample_eval)

lemma sample_prune:
  "snd (PruneMetrics (174000 * second) (sample_history\<lparr>st_metrics := [minute_row 0 0, minute_row 2400 100, hour_row 50 100]\<rparr>)) =
     sample_history\<lparr>st_metrics := [minute_row 2400 100, hour_row 50 100]\<rparr>"
  by (simp add: PruneMetrics_def Retention_def bind_op_def exec_def stmt_def sample_history_def empty_store_def
      sample_system_def minute_row_def hour_row_def Res1_def Res10_def Res60_def unix_of_def)

lemma sample_restart:
  "snd (Rollup Res60 (48 * hour) (174000 * second) (sample_history\<lparr>st_metrics := [minute_row 2400 100, hour_row 50 100]\<rparr>)) =
     sample_history\<lparr>st_metrics := [minute_row 2400 100, hour_row 100 100]\<rparr>"
proof -
  let ?s = "sample_history\<lparr>st_metrics := [minute_row 2400 100, hour_row 50 100]\<rparr>"
  have "snd (Rollup Res60 (48 * hour) (174000 * second) ?s) = ?s\<lparr>st_metrics := [minute_row 2400 100, hour_row 100 100]\<rparr>"
  proof (rule rollup_eval)
    show "rollup_source (rollup_since (Res60 * 60) (48 * hour) (174000 * second)) (rollup_until (Res60 * 60) (174000 * second))
        ?s = [minute_row 2400 100]"
      by (simp add: sample_eval)
    show "rollup_rows Res60 (Res60 * 60) [minute_row 2400 100] = [hour_row 100 100]"
      using sample_aggregate(2) by (simp add: sample_eval)
  qed (simp_all add: sample_eval)
  then show ?thesis by simp
qed

theorem startup_rollup_damages_pruned_hour:
  "let s1 = snd (Rollup Res60 (2 * hour) (7200 * second) sample_history);
       s2 = snd (PruneMetrics (174000 * second) s1);
       s3 = snd (Rollup Res60 (48 * hour) (174000 * second) s2)
   in st_metrics s2 = [minute_row 2400 100, hour_row 50 100] \<and> st_metrics s3 = [minute_row 2400 100, hour_row 100 100]"
  by (simp only: Let_def sample_rollup sample_prune sample_restart) (simp add: sample_history_def)

end
