(* ===== verification/StoreInv.thy ===== *)
theory StoreInv
  imports MetricStore
begin

text \<open>
  The integrity of the database: keys, foreign keys, unique names and valid roles, kept by
  every statement, and the rule that the last administrator can neither be demoted nor
  deleted.
\<close>

section \<open>Operations that keep a property\<close>

definition keeps :: "(store \<Rightarrow> bool) \<Rightarrow> 'a op \<Rightarrow> bool" where
  "keeps P m \<longleftrightarrow> (\<forall>s. P s \<longrightarrow> P (snd (m s)))"

text \<open>A property of the tables that does not look at the coming failures.\<close>

locale table_property =
  fixes P :: "store \<Rightarrow> bool"
  assumes faults: "P (s\<lparr>st_faults := fs\<rparr>) \<longleftrightarrow> P s"
begin

lemma keeps_stmt: "(\<And>s. P s \<Longrightarrow> P (snd (f s))) \<Longrightarrow> keeps P (stmt f)"
  by (auto simp: keeps_def stmt_def faults split: list.splits bool.splits)

lemma keeps_query: "keeps P (query f)"
  unfolding query_def by (rule keeps_stmt) simp

lemma keeps_query_row: "keeps P (query_row f)"
  unfolding query_row_def by (rule keeps_stmt) simp

lemma keeps_exec: "(\<And>s. P s \<Longrightarrow> P (f s)) \<Longrightarrow> keeps P (exec f)"
  unfolding exec_def by (rule keeps_stmt) simp

lemma keeps_exec_affected: "(\<And>s. P s \<Longrightarrow> hit s \<Longrightarrow> P (f s)) \<Longrightarrow> keeps P (exec_affected hit f)"
  unfolding exec_affected_def by (rule keeps_stmt) simp

lemma keeps_bind: "keeps P m \<Longrightarrow> (\<And>x. keeps P (k x)) \<Longrightarrow> keeps P (bind_op m k)"
  by (auto simp: keeps_def bind_op_def split: prod.splits sum.splits)

lemma keeps_return: "keeps P (\<lambda>s. (r, s))"
  by (simp add: keeps_def)

lemma keeps_lastAdminCheck:
  assumes "keeps P m"
  shows "keeps P (lastAdminCheck m i)"
  unfolding keeps_def
proof (intro allI impI)
  fix s assume "P s"
  with assms have "P (snd (m s))" by (simp add: keeps_def)
  then have "P (snd (User i (snd (m s))))"
    using keeps_query_row unfolding User_def keeps_def by blast
  with \<open>P (snd (m s))\<close> show "P (snd (lastAdminCheck m i s))"
    by (auto simp: lastAdminCheck_def split: prod.splits sum.splits db_error.splits)
qed

lemmas keeps_rules = keeps_query keeps_query_row keeps_bind keeps_return keeps_lastAdminCheck

end

section \<open>Integrity\<close>

definition users_ok :: "user list \<Rightarrow> bool" where
  "users_ok us \<longleftrightarrow>
     distinct (map u_id us) \<and> (\<forall>u \<in> set us. 0 < u_id u \<and> ValidRole (u_role u)) \<and>
     distinct (map (\<lambda>u. ascii_lower (u_username u)) us)"

definition sessions_ok :: "int set \<Rightarrow> session_row list \<Rightarrow> bool" where
  "sessions_ok us xs \<longleftrightarrow> distinct (map se_token xs) \<and> (\<forall>x \<in> set xs. se_user x \<in> us)"

definition systems_ok :: "system list \<Rightarrow> bool" where
  "systems_ok xs \<longleftrightarrow> distinct (map sy_id xs) \<and> (\<forall>x \<in> set xs. 0 < sy_id x) \<and> distinct (map sy_fingerprint xs)"

definition metrics_ok :: "int set \<Rightarrow> metric_row list \<Rightarrow> bool" where
  "metrics_ok ss ms \<longleftrightarrow> (\<forall>m \<in> set ms. mr_system m \<in> ss) \<and> distinct (map metric_key ms)"

definition passkeys_ok :: "int set \<Rightarrow> passkey list \<Rightarrow> bool" where
  "passkeys_ok us ps \<longleftrightarrow>
     distinct (map pk_id ps) \<and> distinct (map pk_credential ps) \<and> (\<forall>p \<in> set ps. pk_user p \<in> us)"

definition rules_ok :: "int set \<Rightarrow> alert_rule list \<Rightarrow> bool" where
  "rules_ok ss rs \<longleftrightarrow>
     distinct (map ru_id rs) \<and> (\<forall>r \<in> set rs. case ru_system_id r of None \<Rightarrow> True | Some i \<Rightarrow> i \<in> ss)"

definition user_ids :: "store \<Rightarrow> int set" where "user_ids s = u_id ` set (st_users s)"
definition system_ids :: "store \<Rightarrow> int set" where "system_ids s = sy_id ` set (st_systems s)"

definition store_ok :: "store \<Rightarrow> bool" where
  "store_ok s \<longleftrightarrow>
     users_ok (st_users s) \<and> sessions_ok (user_ids s) (st_sessions s) \<and> distinct (map en_token (st_enroll s)) \<and>
     systems_ok (st_systems s) \<and> metrics_ok (system_ids s) (st_metrics s) \<and>
     passkeys_ok (user_ids s) (st_passkeys s) \<and> distinct (map no_id (st_notifiers s)) \<and>
     rules_ok (system_ids s) (st_rules s) \<and> distinct (map al_id (st_alerts s)) \<and>
     distinct (map sc_id (st_scripts s)) \<and> distinct (map sr_id (st_runs s))"

interpretation user_rows: keyed_table u_id "row_get u_id" "next_rowid u_id" by (rule keyed_table_rows)
interpretation system_rows: keyed_table sy_id "row_get sy_id" "next_rowid sy_id" by (rule keyed_table_rows)
interpretation passkey_rows: keyed_table pk_id "row_get pk_id" "next_rowid pk_id" by (rule keyed_table_rows)
interpretation notifier_rows: keyed_table no_id "row_get no_id" "next_rowid no_id" by (rule keyed_table_rows)
interpretation rule_rows: keyed_table ru_id "row_get ru_id" "next_rowid ru_id" by (rule keyed_table_rows)
interpretation alert_rows: keyed_table al_id "row_get al_id" "next_rowid al_id" by (rule keyed_table_rows)
interpretation script_rows: keyed_table sc_id "row_get sc_id" "next_rowid sc_id" by (rule keyed_table_rows)
interpretation run_rows: keyed_table sr_id "row_get sr_id" "next_rowid sr_id" by (rule keyed_table_rows)

lemma ids_simps [simp]:
  "user_ids (s\<lparr>st_faults := fs\<rparr>) = user_ids s" "system_ids (s\<lparr>st_faults := fs\<rparr>) = system_ids s"
  "user_ids (s\<lparr>st_sessions := a\<rparr>) = user_ids s" "system_ids (s\<lparr>st_sessions := a\<rparr>) = system_ids s"
  "user_ids (s\<lparr>st_enroll := b\<rparr>) = user_ids s" "system_ids (s\<lparr>st_enroll := b\<rparr>) = system_ids s"
  "user_ids (s\<lparr>st_systems := c\<rparr>) = user_ids s" "system_ids (s\<lparr>st_systems := c\<rparr>) = sy_id ` set c"
  "user_ids (s\<lparr>st_metrics := d\<rparr>) = user_ids s" "system_ids (s\<lparr>st_metrics := d\<rparr>) = system_ids s"
  "user_ids (s\<lparr>st_audit := e\<rparr>) = user_ids s" "system_ids (s\<lparr>st_audit := e\<rparr>) = system_ids s"
  "user_ids (s\<lparr>st_passkeys := f\<rparr>) = user_ids s" "system_ids (s\<lparr>st_passkeys := f\<rparr>) = system_ids s"
  "user_ids (s\<lparr>st_notifiers := g\<rparr>) = user_ids s" "system_ids (s\<lparr>st_notifiers := g\<rparr>) = system_ids s"
  "user_ids (s\<lparr>st_rules := h\<rparr>) = user_ids s" "system_ids (s\<lparr>st_rules := h\<rparr>) = system_ids s"
  "user_ids (s\<lparr>st_alerts := i\<rparr>) = user_ids s" "system_ids (s\<lparr>st_alerts := i\<rparr>) = system_ids s"
  "user_ids (s\<lparr>st_scripts := j\<rparr>) = user_ids s" "system_ids (s\<lparr>st_scripts := j\<rparr>) = system_ids s"
  "user_ids (s\<lparr>st_runs := k\<rparr>) = user_ids s" "system_ids (s\<lparr>st_runs := k\<rparr>) = system_ids s"
  "user_ids (s\<lparr>st_users := l\<rparr>) = u_id ` set l" "system_ids (s\<lparr>st_users := l\<rparr>) = system_ids s"
  by (simp_all add: user_ids_def system_ids_def)

interpretation integrity: table_property store_ok
  by unfold_locales (simp add: store_ok_def)

lemmas fresh_keys = user_rows.next_fresh system_rows.next_fresh passkey_rows.next_fresh notifier_rows.next_fresh
  rule_rows.next_fresh alert_rows.next_fresh script_rows.next_fresh run_rows.next_fresh

lemma map_if_same: "(\<And>x. f (g x) = f x) \<Longrightarrow> map f (map (\<lambda>x. if P x then g x else x) xs) = map f xs"
  by (induction xs) auto

lemma image_if_same: "(\<And>x. f (g x) = f x) \<Longrightarrow> f ` set (map (\<lambda>x. if P x then g x else x) xs) = f ` set xs"
  by (metis map_if_same set_map)

lemma distinct_if_same:
  "(\<And>x. f (g x) = f x) \<Longrightarrow> distinct (map f (map (\<lambda>x. if P x then g x else x) xs)) = distinct (map f xs)"
  by (simp only: map_if_same)

text \<open>Updates that keep the key columns keep each table's property.\<close>

lemma users_ok_update:
  assumes "\<And>u. u_id (f u) = u_id u" "\<And>u. u_username (f u) = u_username u" "\<And>u. ValidRole (u_role u) \<Longrightarrow> ValidRole (u_role (f u))"
  shows "users_ok us \<Longrightarrow> users_ok (map (\<lambda>u. if P u then f u else u) us)"
  unfolding users_ok_def
  by (subst distinct_if_same, rule assms(1), subst distinct_if_same, simp only: assms(2)) (auto simp: assms)

lemma systems_ok_update:
  assumes "\<And>x. sy_id (f x) = sy_id x" "\<And>x. sy_fingerprint (f x) = sy_fingerprint x"
  shows "systems_ok xs \<Longrightarrow> systems_ok (map (\<lambda>x. if P x then f x else x) xs)"
  unfolding systems_ok_def
  by (subst distinct_if_same, rule assms(1), subst distinct_if_same, rule assms(2)) (auto simp: assms)

lemma sessions_ok_update:
  assumes "\<And>x. se_token (f x) = se_token x" "\<And>x. se_user (f x) = se_user x"
  shows "sessions_ok us xs \<Longrightarrow> sessions_ok us (map (\<lambda>x. if P x then f x else x) xs)"
  unfolding sessions_ok_def by (subst distinct_if_same, rule assms(1)) (auto simp: assms)

lemma passkeys_ok_update:
  assumes "\<And>p. pk_id (f p) = pk_id p" "\<And>p. pk_credential (f p) = pk_credential p" "\<And>p. pk_user (f p) = pk_user p"
  shows "passkeys_ok us ps \<Longrightarrow> passkeys_ok us (map (\<lambda>p. if P p then f p else p) ps)"
  unfolding passkeys_ok_def
  by (subst distinct_if_same, rule assms(1), subst distinct_if_same, rule assms(2)) (auto simp: assms)

lemma tables_filter:
  "users_ok us \<Longrightarrow> users_ok (filter P us)"
  "sessions_ok ids xs \<Longrightarrow> sessions_ok ids (filter Q xs)"
  "systems_ok ys \<Longrightarrow> systems_ok (filter R ys)"
  "metrics_ok ids ms \<Longrightarrow> metrics_ok ids (filter S ms)"
  "passkeys_ok ids ps \<Longrightarrow> passkeys_ok ids (filter T ps)"
  "rules_ok ids rs \<Longrightarrow> rules_ok ids (filter U rs)"
  by (auto simp: users_ok_def sessions_ok_def systems_ok_def metrics_ok_def passkeys_ok_def rules_ok_def
      intro: distinct_map_filter)

lemma store_ok_users:
  assumes "store_ok s" and "users_ok us" and "u_id ` set us = user_ids s"
  shows "store_ok (s\<lparr>st_users := us\<rparr>)"
  using assms by (simp add: store_ok_def)

lemma store_ok_systems:
  assumes "store_ok s" and "systems_ok xs" and "sy_id ` set xs = system_ids s"
  shows "store_ok (s\<lparr>st_systems := xs\<rparr>)"
  using assms by (simp add: store_ok_def)

lemma update_user_ok:
  assumes "store_ok s" and "\<And>u. u_id (f u) = u_id u" "\<And>u. u_username (f u) = u_username u" "\<And>u. u_role (f u) = u_role u"
  shows "store_ok (update_user i f s)"
  unfolding update_user_def
proof (rule store_ok_users [OF assms(1)])
  show "users_ok (map (\<lambda>u. if u_id u = i then f u else u) (st_users s))"
    using assms by (intro users_ok_update) (simp_all add: store_ok_def)
  show "u_id ` set (map (\<lambda>u. if u_id u = i then f u else u) (st_users s)) = user_ids s"
    unfolding user_ids_def by (rule image_if_same) (rule assms(2))
qed

lemma update_system_ok:
  assumes "store_ok s" and "\<And>x. sy_id (f x) = sy_id x" "\<And>x. sy_fingerprint (f x) = sy_fingerprint x"
  shows "store_ok (update_system i f s)"
  unfolding update_system_def
proof (rule store_ok_systems [OF assms(1)])
  show "systems_ok (map (\<lambda>x. if sy_id x = i then f x else x) (st_systems s))"
    using assms by (intro systems_ok_update) (simp_all add: store_ok_def)
  show "sy_id ` set (map (\<lambda>x. if sy_id x = i then f x else x) (st_systems s)) = system_ids s"
    unfolding system_ids_def by (rule image_if_same) (rule assms(2))
qed

lemma cascade_users_ok:
  assumes "store_ok s"
  shows "store_ok (cascade_users (s\<lparr>st_users := filter P (st_users s)\<rparr>))"
  using assms tables_filter
  by (auto simp: store_ok_def cascade_users_def sessions_ok_def passkeys_ok_def intro: distinct_map_filter)

lemma cascade_systems_ok:
  assumes "store_ok s"
  shows "store_ok (cascade_systems (s\<lparr>st_systems := filter P (st_systems s)\<rparr>))"
  using assms tables_filter
  by (auto simp: store_ok_def cascade_systems_def metrics_ok_def rules_ok_def intro: distinct_map_filter split: option.splits)

section \<open>Every operation keeps integrity\<close>

lemma next_rowid_neq: "x \<in> set t \<Longrightarrow> next_rowid key t \<noteq> key x"
  using keyed_table.next_fresh [OF keyed_table_rows, of key t] by auto

lemma rule_system_ok_ids: "rule_system_ok r s \<longleftrightarrow> (case ru_system_id r of None \<Rightarrow> True | Some i \<Rightarrow> i \<in> system_ids s)"
  by (simp add: rule_system_ok_def system_ids_def split: option.split)

lemma users_ok_insert:
  assumes "users_ok us" and "u_id u = next_rowid u_id us" and "ValidRole (u_role u)"
    and "\<not> list_ex (\<lambda>v. nocase_eq (u_username v) (u_username u)) us"
  shows "users_ok (us @ [u])"
proof -
  have "distinct (map u_id (us @ [u]))"
    using assms(1,2) by (intro user_rows.insert_distinct) (simp_all add: users_ok_def)
  moreover have "0 < u_id u" using assms(2) user_rows.next_pos [of us] by simp
  moreover have "ascii_lower (u_username u) \<notin> (\<lambda>v. ascii_lower (u_username v)) ` set us"
    using assms(4) by (auto simp: list_ex_iff nocase_eq_def)
  ultimately show ?thesis using assms(1,3) by (auto simp: users_ok_def)
qed

lemma keeps_users:
  "keeps store_ok (CreateUser now name hash role)"
  "keeps store_ok (SetRole i role)" "keeps store_ok (DeleteUser i)"
  "keeps store_ok (SetLastLogin i t)" "keeps store_ok (SetPassword i hash)" "keeps store_ok (SetTOTPSecret i secret)"
proof -
  show "keeps store_ok (CreateUser now name hash role)"
  proof (cases "ValidRole role")
    case True
    have "keeps store_ok (stmt (\<lambda>s. if username_taken name s then (Inl ErrUsernameTaken, s)
        else let u = \<lparr>u_id = next_rowid u_id (st_users s), u_username = name, u_password_hash = hash,
                      u_totp_secret = [], u_role = role, u_created_at = now, u_last_login = 0, u_handle = None\<rparr>
             in (Inr u, s\<lparr>st_users := st_users s @ [u]\<rparr>)))"
      using True
      by (intro integrity.keeps_stmt)
        (auto simp: store_ok_def Let_def username_taken_def sessions_ok_def passkeys_ok_def user_ids_def
          intro!: users_ok_insert)
    with True show ?thesis by (simp add: keeps_def CreateUser_def)
  qed (simp add: keeps_def CreateUser_def)
  show "keeps store_ok (SetRole i role)"
  proof (cases "ValidRole role")
    case True
    have "keeps store_ok (exec_affected
        (\<lambda>s. list_ex (\<lambda>u. u_id u = i \<and> (role = RoleAdmin \<or> u_role u \<noteq> RoleAdmin \<or> 1 < length (admins s))) (st_users s))
        (\<lambda>s. s\<lparr>st_users := map (\<lambda>u. if u_id u = i \<and> (role = RoleAdmin \<or> u_role u \<noteq> RoleAdmin \<or> 1 < length (admins s))
                               then u\<lparr>u_role := role\<rparr> else u) (st_users s)\<rparr>))"
      using True
      by (intro integrity.keeps_exec_affected store_ok_users users_ok_update)
        (simp_all add: store_ok_def user_ids_def image_if_same del: set_map)
    from integrity.keeps_lastAdminCheck [OF this, of i] True show ?thesis by (simp add: keeps_def SetRole_def)
  qed (simp add: keeps_def SetRole_def)
  show "keeps store_ok (DeleteUser i)"
    unfolding DeleteUser_def by (intro integrity.keeps_lastAdminCheck integrity.keeps_exec_affected cascade_users_ok)
  show "keeps store_ok (SetLastLogin i t)" "keeps store_ok (SetPassword i hash)" "keeps store_ok (SetTOTPSecret i secret)"
    unfolding SetLastLogin_def SetPassword_def SetTOTPSecret_def
    by (intro integrity.keeps_exec update_user_ok; simp)+
qed

lemma keeps_sessions:
  "keeps store_ok (CreateSession token i expires)" "keeps store_ok (ElevateSession token t)"
  "keeps store_ok (DeleteOtherSessions i token)" "keeps store_ok (DeleteSessions i)" "keeps store_ok (DeleteSession token)"
  "keeps store_ok (CreateEnrollToken now token expires)" "keeps store_ok (DeleteExpired now)"
proof -
  show "keeps store_ok (CreateSession token i expires)"
    unfolding CreateSession_def
    by (intro integrity.keeps_stmt) (auto simp: store_ok_def sessions_ok_def user_ids_def)
  show "keeps store_ok (ElevateSession token t)"
    unfolding ElevateSession_def
    by (intro integrity.keeps_exec) (auto simp: store_ok_def simp del: map_map intro!: sessions_ok_update)
  show "keeps store_ok (DeleteOtherSessions i token)" "keeps store_ok (DeleteSessions i)" "keeps store_ok (DeleteSession token)"
    unfolding DeleteOtherSessions_def DeleteSessions_def DeleteSession_def
    by (intro integrity.keeps_exec; simp add: store_ok_def tables_filter)+
  show "keeps store_ok (CreateEnrollToken now token expires)"
    unfolding CreateEnrollToken_def by (intro integrity.keeps_stmt) (auto simp: store_ok_def)
  show "keeps store_ok (DeleteExpired now)"
    unfolding DeleteExpired_def
    by (intro integrity.keeps_bind integrity.keeps_exec) (auto simp: store_ok_def tables_filter distinct_map_filter)
qed

lemma systems_ok_insert:
  assumes "systems_ok xs" and "sy_id x = next_rowid sy_id xs" and "sy_fingerprint x \<notin> sy_fingerprint ` set xs"
  shows "systems_ok (xs @ [x])"
proof -
  have "distinct (map sy_id (xs @ [x]))"
    using assms(1,2) by (intro system_rows.insert_distinct) (simp_all add: systems_ok_def)
  moreover have "0 < sy_id x" using assms(2) system_rows.next_pos [of xs] by simp
  ultimately show ?thesis using assms(1,3) by (auto simp: systems_ok_def)
qed

lemma store_ok_more_systems:
  assumes "store_ok s" and "systems_ok (st_systems s @ [x])"
  shows "store_ok (s\<lparr>st_systems := st_systems s @ [x]\<rparr>)"
  using assms by (auto simp: store_ok_def metrics_ok_def rules_ok_def system_ids_def split: option.splits)

lemma store_okD: "store_ok s \<Longrightarrow> systems_ok (st_systems s)"
  by (simp add: store_ok_def)

lemma keeps_systems:
  "keeps store_ok (CreateSystem now name fp info v)" "keeps store_ok (UpdateSystemInfo i info v)"
  "keeps store_ok (RenameSystem i name)" "keeps store_ok (DeleteSystem i)" "keeps store_ok (UpdateLastSeen i ts m)"
  "keeps store_ok (AddAudit t e)" "keeps store_ok (PruneAudit t)"
proof -
  show "keeps store_ok (CreateSystem now name fp info v)"
    unfolding CreateSystem_def System_def
    by (intro integrity.keeps_bind integrity.keeps_query_row integrity.keeps_stmt)
      (auto simp: Let_def dest: store_okD intro!: store_ok_more_systems systems_ok_insert)
  show "keeps store_ok (UpdateSystemInfo i info v)" "keeps store_ok (UpdateLastSeen i ts m)"
    unfolding UpdateSystemInfo_def UpdateLastSeen_def
    by (intro integrity.keeps_exec update_system_ok; simp)+
  show "keeps store_ok (RenameSystem i name)"
    unfolding RenameSystem_def by (intro integrity.keeps_exec_affected update_system_ok) simp_all
  show "keeps store_ok (DeleteSystem i)"
    unfolding DeleteSystem_def by (intro integrity.keeps_exec_affected cascade_systems_ok)
  show "keeps store_ok (AddAudit t e)" "keeps store_ok (PruneAudit t)"
    unfolding AddAudit_def PruneAudit_def by (intro integrity.keeps_exec; simp add: store_ok_def)+
qed

lemma passkeys_ok_insert:
  assumes "passkeys_ok us ps" and "pk_id p = next_rowid pk_id ps" and "pk_credential p \<notin> pk_credential ` set ps" and "pk_user p \<in> us"
  shows "passkeys_ok us (ps @ [p])"
proof -
  have "distinct (map pk_id (ps @ [p]))"
    using assms(1,2) by (intro passkey_rows.insert_distinct) (simp_all add: passkeys_ok_def)
  then show ?thesis using assms by (auto simp: passkeys_ok_def)
qed

lemma keeps_passkeys:
  "keeps store_ok (PasskeyHandle rnd i)" "keeps store_ok (CreatePasskey now p)" "keeps store_ok (UsePasskey t i n)"
  "keeps store_ok (RenamePasskey i uid name)" "keeps store_ok (DeletePasskey i uid)" "keeps store_ok (DeletePasskeysOf i)"
proof -
  show "keeps store_ok (PasskeyHandle rnd i)"
    unfolding PasskeyHandle_def
    by (intro integrity.keeps_bind integrity.keeps_query_row)
      (auto intro!: integrity.keeps_bind integrity.keeps_query_row integrity.keeps_exec integrity.keeps_return update_user_ok
        split: option.split list.split)
  show "keeps store_ok (CreatePasskey now p)"
    unfolding CreatePasskey_def
    by (intro integrity.keeps_stmt) (auto simp: store_ok_def Let_def user_ids_def intro!: passkeys_ok_insert)
  show "keeps store_ok (UsePasskey t i n)"
    unfolding UsePasskey_def
    by (intro integrity.keeps_exec) (auto simp: store_ok_def simp del: map_map intro!: passkeys_ok_update)
  show "keeps store_ok (RenamePasskey i uid name)"
    unfolding RenamePasskey_def
    by (intro integrity.keeps_exec_affected) (auto simp: store_ok_def simp del: map_map intro!: passkeys_ok_update)
  show "keeps store_ok (DeletePasskey i uid)"
    unfolding DeletePasskey_def
    by (intro integrity.keeps_bind integrity.keeps_query_row integrity.keeps_exec_affected integrity.keeps_return)
      (simp add: store_ok_def tables_filter)
  show "keeps store_ok (DeletePasskeysOf i)"
    unfolding DeletePasskeysOf_def by (intro integrity.keeps_stmt) (simp add: store_ok_def tables_filter)
qed

lemma keeps_alerting:
  "keeps store_ok (SaveNotifier now n)" "keeps store_ok (DeleteNotifier i)" "keeps store_ok (NotifierResult i ts msg)"
  "keeps store_ok (SaveAlertRule now r)" "keeps store_ok (DeleteAlertRule i)" "keeps store_ok (CreateAlert a)"
  "keeps store_ok (ResolveAlert i ts)" "keeps store_ok (ResolveAlertsWhere i j ts)" "keeps store_ok (PruneAlerts t)"
proof -
  have upd: "distinct (map no_id (map (\<lambda>n. if P n then f n else n) ns)) = distinct (map no_id ns)"
    if "\<And>n. no_id (f n) = no_id n" for P f ns using that by (rule distinct_if_same)
  show "keeps store_ok (SaveNotifier now n)"
    unfolding SaveNotifier_def
    by (auto intro!: integrity.keeps_stmt integrity.keeps_bind integrity.keeps_exec_affected integrity.keeps_return
        simp: next_rowid_neq store_ok_def Let_def update_notifier_def upd simp del: map_map)
  show "keeps store_ok (DeleteNotifier i)"
    unfolding DeleteNotifier_def
    by (intro integrity.keeps_exec_affected) (simp add: store_ok_def distinct_map_filter)
  show "keeps store_ok (NotifierResult i ts msg)"
    unfolding NotifierResult_def
    by (intro integrity.keeps_exec) (simp add: store_ok_def update_notifier_def upd del: map_map)
  show "keeps store_ok (SaveAlertRule now r)"
  proof (cases "ru_id r = 0")
    case True
    have "rules_ok ids (rs @ [r'])" if "rules_ok ids rs" "ru_id r' = next_rowid ru_id rs"
      "case ru_system_id r' of None \<Rightarrow> True | Some i \<Rightarrow> i \<in> ids" for ids rs r'
      using that rule_rows.insert_distinct [of rs r'] by (auto simp: rules_ok_def)
    then show ?thesis unfolding SaveAlertRule_def if_P [OF True]
      by (intro integrity.keeps_stmt) (auto simp: store_ok_def Let_def rule_system_ok_ids)
  next
    case False
    have "rules_ok ids (map (\<lambda>x. if ru_id x = ru_id r then r\<lparr>ru_created_at := ru_created_at x\<rparr> else x) rs)"
      if "rules_ok ids rs" "case ru_system_id r of None \<Rightarrow> True | Some i \<Rightarrow> i \<in> ids" for ids rs
    proof -
      have "map ru_id (map (\<lambda>x. if ru_id x = ru_id r then r\<lparr>ru_created_at := ru_created_at x\<rparr> else x) rs) = map ru_id rs"
        by (induction rs) auto
      then show ?thesis using that unfolding rules_ok_def by (simp only:) auto
    qed
    then show ?thesis unfolding SaveAlertRule_def if_not_P [OF False]
      by (intro integrity.keeps_stmt) (auto simp: store_ok_def rule_system_ok_ids simp del: map_map)
  qed
  show "keeps store_ok (DeleteAlertRule i)"
    unfolding DeleteAlertRule_def by (intro integrity.keeps_exec_affected) (simp add: store_ok_def tables_filter)
  show "keeps store_ok (CreateAlert a)"
    unfolding CreateAlert_def
    using alert_rows.next_fresh by (intro integrity.keeps_stmt) (auto simp: store_ok_def Let_def)
  have alu: "distinct (map al_id (map (\<lambda>a. if P a then a\<lparr>al_resolved_at := x\<rparr> else a) as)) = distinct (map al_id as)"
    for P x as by (rule distinct_if_same) simp
  show "keeps store_ok (ResolveAlert i ts)" "keeps store_ok (ResolveAlertsWhere i j ts)"
    unfolding ResolveAlert_def ResolveAlertsWhere_def
    by (intro integrity.keeps_exec; simp add: store_ok_def alu del: map_map)+
  show "keeps store_ok (PruneAlerts t)"
    unfolding PruneAlerts_def by (intro integrity.keeps_exec) (simp add: store_ok_def distinct_map_filter)
qed

lemma keeps_scripts:
  "keeps store_ok (SaveScript now sc)" "keeps store_ok (DeleteScript i)" "keeps store_ok (CreateRun r)"
  "keeps store_ok (FinishRun i ts targets)" "keeps store_ok (PruneRuns t)"
proof -
  have scu: "distinct (map sc_id (map (\<lambda>x. if P x then f x else x) xs)) = distinct (map sc_id xs)"
    if "\<And>x. sc_id (f x) = sc_id x" for P f xs using that by (rule distinct_if_same)
  show "keeps store_ok (SaveScript now sc)"
    unfolding SaveScript_def Let_def
    by (auto intro!: integrity.keeps_stmt integrity.keeps_bind integrity.keeps_exec_affected integrity.keeps_return
        simp: next_rowid_neq store_ok_def scu simp del: map_map)
  show "keeps store_ok (DeleteScript i)"
    unfolding DeleteScript_def by (intro integrity.keeps_exec_affected) (simp add: store_ok_def distinct_map_filter)
  show "keeps store_ok (CreateRun r)"
    unfolding CreateRun_def using run_rows.next_fresh by (intro integrity.keeps_stmt) (auto simp: store_ok_def Let_def)
  have sru: "distinct (map sr_id (map (\<lambda>x. if P x then f x else x) xs)) = distinct (map sr_id xs)"
    if "\<And>x. sr_id (f x) = sr_id x" for P f xs using that by (rule distinct_if_same)
  show "keeps store_ok (FinishRun i ts targets)"
    unfolding FinishRun_def by (intro integrity.keeps_exec) (simp add: store_ok_def sru del: map_map)
  show "keeps store_ok (PruneRuns t)"
    unfolding PruneRuns_def by (intro integrity.keeps_exec) (simp add: store_ok_def distinct_map_filter)
qed

lemma metrics_ok_replace:
  assumes "metrics_ok ids old" and "distinct (map metric_key new)" and "\<forall>m \<in> set new. mr_system m \<in> ids"
  shows "metrics_ok ids (replace_rows new old)"
  using assms by (auto simp: metrics_ok_def replace_rows_def distinct_map_filter) (metis image_eqI)

lemma keeps_metrics:
  "keeps store_ok (InsertMetrics i res ts vals)" "keeps store_ok (Rollup toRes window t)" "keeps store_ok (PruneMetrics t)"
proof -
  show "keeps store_ok (InsertMetrics i res ts vals)"
    unfolding InsertMetrics_def
    by (intro integrity.keeps_stmt) (auto simp: store_ok_def system_ids_def intro!: metrics_ok_replace)
  have sys: "\<forall>m \<in> set (rollup_rows toRes b (rollup_source x y s)). mr_system m \<in> system_ids s" for b x y s
    by (auto simp: set_rollup_rows rollup_source_def system_ids_def)
  show "keeps store_ok (Rollup toRes window t)"
    unfolding Rollup_def Let_def
    by (intro integrity.keeps_exec) (simp add: store_ok_def metrics_ok_replace distinct_rollup_rows sys)
  have "keeps store_ok (prune_metrics t rs)" for rs
  proof (induction rs)
    case Nil
    then show ?case by (simp add: keeps_def)
  next
    case (Cons r rs)
    obtain res keep where r: "r = (res, keep)" by (cases r)
    show ?case unfolding r prune_metrics.simps
      by (intro integrity.keeps_bind integrity.keeps_exec Cons.IH) (simp add: store_ok_def tables_filter)
  qed
  then show "keeps store_ok (PruneMetrics t)" by (simp add: PruneMetrics_def)
qed

section \<open>The database in use\<close>

text \<open>Any operation, and any queries and failures between them.\<close>

inductive store_step :: "store \<Rightarrow> store \<Rightarrow> bool" where
  step_queries: "store_step s (s\<lparr>st_faults := fs\<rparr>)"
| step_CreateUser: "store_step s (snd (CreateUser now name hash role s))"
| step_SetRole: "store_step s (snd (SetRole i role s))"
| step_DeleteUser: "store_step s (snd (DeleteUser i s))"
| step_SetLastLogin: "store_step s (snd (SetLastLogin i t s))"
| step_SetPassword: "store_step s (snd (SetPassword i hash s))"
| step_SetTOTPSecret: "store_step s (snd (SetTOTPSecret i secret s))"
| step_CreateSession: "store_step s (snd (CreateSession token i expires s))"
| step_ElevateSession: "store_step s (snd (ElevateSession token t s))"
| step_DeleteOtherSessions: "store_step s (snd (DeleteOtherSessions i token s))"
| step_DeleteSessions: "store_step s (snd (DeleteSessions i s))"
| step_DeleteSession: "store_step s (snd (DeleteSession token s))"
| step_CreateEnrollToken: "store_step s (snd (CreateEnrollToken t token expires s))"
| step_DeleteExpired: "store_step s (snd (DeleteExpired t s))"
| step_CreateSystem: "store_step s (snd (CreateSystem now name fp info v s))"
| step_UpdateSystemInfo: "store_step s (snd (UpdateSystemInfo i info v s))"
| step_RenameSystem: "store_step s (snd (RenameSystem i name s))"
| step_DeleteSystem: "store_step s (snd (DeleteSystem i s))"
| step_UpdateLastSeen: "store_step s (snd (UpdateLastSeen i ts m s))"
| step_InsertMetrics: "store_step s (snd (InsertMetrics i res ts vals s))"
| step_Rollup: "store_step s (snd (Rollup toRes window t s))"
| step_PruneMetrics: "store_step s (snd (PruneMetrics t s))"
| step_AddAudit: "store_step s (snd (AddAudit t e s))"
| step_PruneAudit: "store_step s (snd (PruneAudit t s))"
| step_PasskeyHandle: "store_step s (snd (PasskeyHandle rnd i s))"
| step_CreatePasskey: "store_step s (snd (CreatePasskey now p s))"
| step_UsePasskey: "store_step s (snd (UsePasskey t i n s))"
| step_RenamePasskey: "store_step s (snd (RenamePasskey i uid name s))"
| step_DeletePasskey: "store_step s (snd (DeletePasskey i uid s))"
| step_DeletePasskeysOf: "store_step s (snd (DeletePasskeysOf i s))"
| step_SaveNotifier: "store_step s (snd (SaveNotifier now n s))"
| step_DeleteNotifier: "store_step s (snd (DeleteNotifier i s))"
| step_NotifierResult: "store_step s (snd (NotifierResult i ts msg s))"
| step_SaveAlertRule: "store_step s (snd (SaveAlertRule now r s))"
| step_DeleteAlertRule: "store_step s (snd (DeleteAlertRule i s))"
| step_CreateAlert: "store_step s (snd (CreateAlert a s))"
| step_ResolveAlert: "store_step s (snd (ResolveAlert i ts s))"
| step_ResolveAlertsWhere: "store_step s (snd (ResolveAlertsWhere i j ts s))"
| step_PruneAlerts: "store_step s (snd (PruneAlerts t s))"
| step_SaveScript: "store_step s (snd (SaveScript now sc s))"
| step_DeleteScript: "store_step s (snd (DeleteScript i s))"
| step_CreateRun: "store_step s (snd (CreateRun r s))"
| step_FinishRun: "store_step s (snd (FinishRun i ts targets s))"
| step_PruneRuns: "store_step s (snd (PruneRuns t s))"

lemma keepsD: "keeps P m \<Longrightarrow> P s \<Longrightarrow> P (snd (m s))"
  by (simp add: keeps_def)

lemmas keeps_all = keeps_users keeps_sessions keeps_systems keeps_passkeys keeps_alerting keeps_scripts keeps_metrics

lemma store_ok_step: "store_step s t \<Longrightarrow> store_ok s \<Longrightarrow> store_ok t"
  by (induction rule: store_step.induct) (auto simp: integrity.faults intro: keeps_all [THEN keepsD])

interpretation database: invariant_system "\<lambda>s. s = empty_store" store_step store_ok
proof
  show "s = empty_store \<Longrightarrow> store_ok s" for s
    by (simp add: store_ok_def empty_store_def users_ok_def sessions_ok_def systems_ok_def metrics_ok_def
        passkeys_ok_def rules_ok_def)
qed (rule store_ok_step)

text \<open>
  (C20) Referential integrity: however the operations of the store are interleaved and
  whichever statements fail, keys are unique, user names are unique up to case, every role is
  a valid one, every session and passkey belongs to an existing user, every metric row and
  every rule for one system to an existing system, and credentials, tokens and fingerprints
  are unique.
\<close>

theorem database_integrity:
  assumes "reaches store_step empty_store s"
  shows "distinct (map u_id (st_users s)) \<and>
    (\<forall>u \<in> set (st_users s). \<forall>v \<in> set (st_users s). nocase_eq (u_username u) (u_username v) \<longrightarrow> u = v) \<and>
    (\<forall>u \<in> set (st_users s). ValidRole (u_role u)) \<and>
    (\<forall>x \<in> set (st_sessions s). \<exists>u \<in> set (st_users s). u_id u = se_user x) \<and>
    (\<forall>p \<in> set (st_passkeys s). \<exists>u \<in> set (st_users s). u_id u = pk_user p) \<and>
    (\<forall>m \<in> set (st_metrics s). \<exists>x \<in> set (st_systems s). sy_id x = mr_system m) \<and>
    (\<forall>r \<in> set (st_rules s). \<forall>i. ru_system_id r = Some i \<longrightarrow> (\<exists>x \<in> set (st_systems s). sy_id x = i)) \<and>
    distinct (map se_token (st_sessions s)) \<and> distinct (map pk_credential (st_passkeys s)) \<and>
    distinct (map sy_id (st_systems s)) \<and> distinct (map sy_fingerprint (st_systems s)) \<and>
    distinct (map metric_key (st_metrics s))"
proof -
  have ok: "store_ok s" by (rule database.inv_reachable [OF refl assms])
  then have "inj_on (\<lambda>u. ascii_lower (u_username u)) (set (st_users s))"
    by (simp add: store_ok_def users_ok_def distinct_map)
  then have "u = v" if "u \<in> set (st_users s)" "v \<in> set (st_users s)" "nocase_eq (u_username u) (u_username v)" for u v
    using that by (simp add: inj_on_def nocase_eq_def)
  note names = this
  have fk: "x \<in> f ` A \<Longrightarrow> \<exists>y \<in> A. f y = x" for x f A by auto
  have us: "users_ok (st_users s)" and se: "sessions_ok (user_ids s) (st_sessions s)" and sy: "systems_ok (st_systems s)"
    and me: "metrics_ok (system_ids s) (st_metrics s)" and pk: "passkeys_ok (user_ids s) (st_passkeys s)"
    and ru: "rules_ok (system_ids s) (st_rules s)"
    using ok by (simp_all add: store_ok_def)
  have "\<exists>u \<in> set (st_users s). u_id u = se_user x" if "x \<in> set (st_sessions s)" for x
    by (rule fk) (use se that in \<open>simp add: sessions_ok_def user_ids_def\<close>)
  moreover have "\<exists>u \<in> set (st_users s). u_id u = pk_user p" if "p \<in> set (st_passkeys s)" for p
    by (rule fk) (use pk that in \<open>simp add: passkeys_ok_def user_ids_def\<close>)
  moreover have "\<exists>x \<in> set (st_systems s). sy_id x = mr_system m" if "m \<in> set (st_metrics s)" for m
    by (rule fk) (use me that in \<open>simp add: metrics_ok_def system_ids_def\<close>)
  moreover have "\<exists>x \<in> set (st_systems s). sy_id x = i" if "r \<in> set (st_rules s)" "ru_system_id r = Some i" for r i
    by (rule fk) (use ru that in \<open>force simp: rules_ok_def system_ids_def\<close>)
  ultimately show ?thesis
    using us se sy me pk names
    by (intro conjI ballI allI impI)
      (simp_all add: users_ok_def sessions_ok_def systems_ok_def metrics_ok_def passkeys_ok_def)
qed

section \<open>The last administrator\<close>

definition role_map :: "store \<Rightarrow> (int \<times> string) list" where
  "role_map s = map (\<lambda>u. (u_id u, u_role u)) (st_users s)"

interpretation roles: table_property "\<lambda>s. role_map s = R"
  by unfold_locales (simp add: role_map_def)

lemma role_map_simps [simp]:
  "role_map (s\<lparr>st_sessions := a\<rparr>) = role_map s" "role_map (s\<lparr>st_enroll := b\<rparr>) = role_map s"
  "role_map (s\<lparr>st_systems := c\<rparr>) = role_map s" "role_map (s\<lparr>st_metrics := d\<rparr>) = role_map s"
  "role_map (s\<lparr>st_audit := e\<rparr>) = role_map s" "role_map (s\<lparr>st_passkeys := f\<rparr>) = role_map s"
  "role_map (s\<lparr>st_notifiers := g\<rparr>) = role_map s" "role_map (s\<lparr>st_rules := h\<rparr>) = role_map s"
  "role_map (s\<lparr>st_alerts := i\<rparr>) = role_map s" "role_map (s\<lparr>st_scripts := j\<rparr>) = role_map s"
  "role_map (s\<lparr>st_runs := k\<rparr>) = role_map s" "role_map (s\<lparr>st_faults := l\<rparr>) = role_map s"
  "role_map (update_system m x s) = role_map s" "role_map (update_notifier n y s) = role_map s"
  "role_map (cascade_systems s) = role_map s" "role_map (cascade_users s) = role_map s"
  by (simp_all add: role_map_def update_system_def update_notifier_def cascade_systems_def cascade_users_def)

lemma role_map_update_user:
  "(\<And>u. u_id (f u) = u_id u) \<Longrightarrow> (\<And>u. u_role (f u) = u_role u) \<Longrightarrow> role_map (update_user i f s) = role_map s"
  by (simp add: role_map_def update_user_def)

lemmas roles_rules = roles.keeps_stmt roles.keeps_exec roles.keeps_exec_affected roles.keeps_bind roles.keeps_query
  roles.keeps_query_row roles.keeps_return

lemma roles_kept:
  "keeps (\<lambda>s. role_map s = R) (SetLastLogin i t)" "keeps (\<lambda>s. role_map s = R) (SetPassword i hash)"
  "keeps (\<lambda>s. role_map s = R) (SetTOTPSecret i secret)" "keeps (\<lambda>s. role_map s = R) (CreateSession token i expires)"
  "keeps (\<lambda>s. role_map s = R) (ElevateSession token t)" "keeps (\<lambda>s. role_map s = R) (DeleteOtherSessions i token)"
  "keeps (\<lambda>s. role_map s = R) (DeleteSessions i)" "keeps (\<lambda>s. role_map s = R) (DeleteSession token)"
  "keeps (\<lambda>s. role_map s = R) (CreateEnrollToken t token expires)" "keeps (\<lambda>s. role_map s = R) (DeleteExpired t)"
  "keeps (\<lambda>s. role_map s = R) (CreateSystem now name fp info v)" "keeps (\<lambda>s. role_map s = R) (UpdateSystemInfo i info v)"
  "keeps (\<lambda>s. role_map s = R) (RenameSystem i name)" "keeps (\<lambda>s. role_map s = R) (DeleteSystem i)"
  "keeps (\<lambda>s. role_map s = R) (UpdateLastSeen i ts m)" "keeps (\<lambda>s. role_map s = R) (InsertMetrics i res ts vals)"
  "keeps (\<lambda>s. role_map s = R) (Rollup toRes window t)" "keeps (\<lambda>s. role_map s = R) (AddAudit t e)"
  "keeps (\<lambda>s. role_map s = R) (PruneAudit t)" "keeps (\<lambda>s. role_map s = R) (CreatePasskey now p)"
  "keeps (\<lambda>s. role_map s = R) (UsePasskey t i n)" "keeps (\<lambda>s. role_map s = R) (RenamePasskey i uid name)"
  "keeps (\<lambda>s. role_map s = R) (DeletePasskey i uid)" "keeps (\<lambda>s. role_map s = R) (DeletePasskeysOf i)"
  by (unfold SetLastLogin_def SetPassword_def SetTOTPSecret_def CreateSession_def ElevateSession_def DeleteOtherSessions_def
      DeleteSessions_def DeleteSession_def CreateEnrollToken_def DeleteExpired_def CreateSystem_def System_def
      UpdateSystemInfo_def RenameSystem_def DeleteSystem_def UpdateLastSeen_def InsertMetrics_def Rollup_def AddAudit_def
      PruneAudit_def CreatePasskey_def UsePasskey_def RenamePasskey_def DeletePasskey_def DeletePasskeysOf_def Let_def)
    (intro roles_rules; auto simp: role_map_update_user)+

lemma roles_kept_more:
  "keeps (\<lambda>s. role_map s = R) (PasskeyHandle rnd i)" "keeps (\<lambda>s. role_map s = R) (PruneMetrics t)"
  "keeps (\<lambda>s. role_map s = R) (SaveNotifier now nn)" "keeps (\<lambda>s. role_map s = R) (DeleteNotifier i)"
  "keeps (\<lambda>s. role_map s = R) (NotifierResult i ts msg)" "keeps (\<lambda>s. role_map s = R) (SaveAlertRule now r)"
  "keeps (\<lambda>s. role_map s = R) (DeleteAlertRule i)" "keeps (\<lambda>s. role_map s = R) (CreateAlert a)"
  "keeps (\<lambda>s. role_map s = R) (ResolveAlert i ts)" "keeps (\<lambda>s. role_map s = R) (ResolveAlertsWhere i j ts)"
  "keeps (\<lambda>s. role_map s = R) (PruneAlerts t)" "keeps (\<lambda>s. role_map s = R) (SaveScript now sc)"
  "keeps (\<lambda>s. role_map s = R) (DeleteScript i)" "keeps (\<lambda>s. role_map s = R) (CreateRun rr)"
  "keeps (\<lambda>s. role_map s = R) (FinishRun i ts targets)" "keeps (\<lambda>s. role_map s = R) (PruneRuns t)"
proof -
  show "keeps (\<lambda>s. role_map s = R) (PasskeyHandle rnd i)"
    unfolding PasskeyHandle_def
    by (auto intro!: roles_rules simp: role_map_update_user split: option.split list.split)
  have "keeps (\<lambda>s. role_map s = R) (prune_metrics t rs)" for rs
  proof (induction rs)
    case (Cons r rs)
    obtain res keep where r: "r = (res, keep)" by (cases r)
    show ?case unfolding r prune_metrics.simps by (intro roles_rules Cons.IH) simp
  qed (simp add: keeps_def)
  then show "keeps (\<lambda>s. role_map s = R) (PruneMetrics t)" by (simp add: PruneMetrics_def)
  show "keeps (\<lambda>s. role_map s = R) (SaveNotifier now nn)" "keeps (\<lambda>s. role_map s = R) (SaveAlertRule now r)"
    "keeps (\<lambda>s. role_map s = R) (SaveScript now sc)"
    unfolding SaveNotifier_def SaveAlertRule_def SaveScript_def Let_def by (auto intro!: roles_rules)
  show "keeps (\<lambda>s. role_map s = R) (DeleteNotifier i)" "keeps (\<lambda>s. role_map s = R) (NotifierResult i ts msg)"
    "keeps (\<lambda>s. role_map s = R) (DeleteAlertRule i)" "keeps (\<lambda>s. role_map s = R) (CreateAlert a)"
    "keeps (\<lambda>s. role_map s = R) (ResolveAlert i ts)" "keeps (\<lambda>s. role_map s = R) (ResolveAlertsWhere i j ts)"
    "keeps (\<lambda>s. role_map s = R) (PruneAlerts t)" "keeps (\<lambda>s. role_map s = R) (DeleteScript i)"
    "keeps (\<lambda>s. role_map s = R) (CreateRun rr)" "keeps (\<lambda>s. role_map s = R) (FinishRun i ts targets)"
    "keeps (\<lambda>s. role_map s = R) (PruneRuns t)"
    by (unfold DeleteNotifier_def NotifierResult_def DeleteAlertRule_def CreateAlert_def ResolveAlert_def
        ResolveAlertsWhere_def PruneAlerts_def DeleteScript_def CreateRun_def FinishRun_def PruneRuns_def Let_def)
      (intro roles_rules; auto)+
qed

definition has_admin :: "store \<Rightarrow> bool" where
  "has_admin s \<longleftrightarrow> users_ok (st_users s) \<and> admins s \<noteq> []"

lemma has_admin_roles:
  "has_admin s \<longleftrightarrow> users_ok (st_users s) \<and> RoleAdmin \<in> snd ` set (role_map s)"
proof -
  have "admins s \<noteq> [] \<longleftrightarrow> (\<exists>u \<in> set (st_users s). u_role u = RoleAdmin)"
    by (auto simp: admins_def filter_empty_conv)
  moreover have "RoleAdmin \<in> snd ` set (role_map s) \<longleftrightarrow> (\<exists>u \<in> set (st_users s). u_role u = RoleAdmin)"
    by (force simp: role_map_def)
  ultimately show ?thesis by (simp add: has_admin_def)
qed

interpretation administered: table_property has_admin
  by unfold_locales (simp add: has_admin_def admins_def)

text \<open>With two administrators, one remains when the user with key \<open>i\<close> is set aside.\<close>

lemma another_admin:
  assumes "distinct (map u_id us)" and "1 < length (filter (\<lambda>u. u_role u = RoleAdmin) us)"
  shows "\<exists>u \<in> set us. u_role u = RoleAdmin \<and> u_id u \<noteq> i"
proof (rule ccontr)
  assume "\<not> ?thesis"
  then have all: "\<forall>u \<in> set (filter (\<lambda>u. u_role u = RoleAdmin) us). u_id u = i" by auto
  obtain a b xs where ab: "filter (\<lambda>u. u_role u = RoleAdmin) us = a # b # xs"
    using assms(2)
    by (cases "filter (\<lambda>u. u_role u = RoleAdmin) us"; cases "tl (filter (\<lambda>u. u_role u = RoleAdmin) us)") auto
  have "distinct (map u_id (a # b # xs))"
    using distinct_map_filter [OF assms(1), of "\<lambda>u. u_role u = RoleAdmin"] by (simp only: ab)
  with all ab show False by simp
qed

lemma admin_after_SetRole:
  assumes "has_admin s" and "hit = (\<lambda>u. u_id u = i \<and> (role = RoleAdmin \<or> u_role u \<noteq> RoleAdmin \<or> 1 < length (admins s)))"
    and "ValidRole role"
  shows "has_admin (s\<lparr>st_users := map (\<lambda>u. if hit u then u\<lparr>u_role := role\<rparr> else u) (st_users s)\<rparr>)"
proof -
  let ?us = "map (\<lambda>u. if hit u then u\<lparr>u_role := role\<rparr> else u) (st_users s)"
  have ok: "users_ok (st_users s)" using assms(1) by (simp add: has_admin_def)
  then have "users_ok ?us" using assms(3) by (intro users_ok_update) simp_all
  moreover have "\<exists>u \<in> set ?us. u_role u = RoleAdmin"
  proof -
    obtain v where v: "v \<in> set (st_users s)" "u_role v = RoleAdmin"
      using assms(1) by (auto simp: has_admin_def admins_def filter_empty_conv)
    show ?thesis
    proof (cases "role = RoleAdmin \<or> \<not> hit v")
      case True
      with v show ?thesis by (intro bexI [of _ "if hit v then v\<lparr>u_role := role\<rparr> else v"]) auto
    next
      case False
      then have "1 < length (filter (\<lambda>u. u_role u = RoleAdmin) (st_users s))"
        using v assms(2) by (auto simp: admins_def)
      then obtain w where "w \<in> set (st_users s)" "u_role w = RoleAdmin" "u_id w \<noteq> i"
        using another_admin [of "st_users s" i] ok by (auto simp: users_ok_def)
      then show ?thesis using assms(2) by (intro bexI [of _ w]) auto
    qed
  qed
  ultimately show ?thesis by (auto simp: has_admin_def admins_def filter_empty_conv)
qed

lemma admin_after_DeleteUser:
  assumes "has_admin s"
  shows "has_admin (s\<lparr>st_users := filter (\<lambda>u. \<not> (u_id u = i \<and> (u_role u \<noteq> RoleAdmin \<or> 1 < length (admins s)))) (st_users s)\<rparr>)"
proof -
  have ok: "users_ok (st_users s)" using assms by (simp add: has_admin_def)
  obtain v where v: "v \<in> set (st_users s)" "u_role v = RoleAdmin"
    using assms by (auto simp: has_admin_def admins_def filter_empty_conv)
  have "\<exists>u \<in> set (st_users s). u_role u = RoleAdmin \<and> \<not> (u_id u = i \<and> 1 < length (admins s))"
  proof (cases "1 < length (admins s)")
    case True
    with another_admin [of "st_users s" i] ok show ?thesis by (auto simp: users_ok_def admins_def)
  qed (use v in auto)
  with tables_filter(1) [OF ok] show ?thesis by (auto simp: has_admin_def admins_def filter_empty_conv)
qed

lemma keeps_admin:
  "keeps has_admin (CreateUser now name hash role)" "keeps has_admin (SetRole i role)" "keeps has_admin (DeleteUser i)"
proof -
  show "keeps has_admin (CreateUser now name hash role)"
  proof (cases "ValidRole role")
    case True
    have "keeps has_admin (stmt (\<lambda>s. if username_taken name s then (Inl ErrUsernameTaken, s)
        else let u = \<lparr>u_id = next_rowid u_id (st_users s), u_username = name, u_password_hash = hash,
                      u_totp_secret = [], u_role = role, u_created_at = now, u_last_login = 0, u_handle = None\<rparr>
             in (Inr u, s\<lparr>st_users := st_users s @ [u]\<rparr>)))"
      using True
      by (intro administered.keeps_stmt)
        (auto simp: has_admin_def admins_def Let_def username_taken_def intro!: users_ok_insert)
    with True show ?thesis by (simp add: keeps_def CreateUser_def)
  qed (simp add: keeps_def CreateUser_def)
  show "keeps has_admin (SetRole i role)"
  proof (cases "ValidRole role")
    case True
    have "keeps has_admin (exec_affected
        (\<lambda>s. list_ex (\<lambda>u. u_id u = i \<and> (role = RoleAdmin \<or> u_role u \<noteq> RoleAdmin \<or> 1 < length (admins s))) (st_users s))
        (\<lambda>s. s\<lparr>st_users := map (\<lambda>u. if u_id u = i \<and> (role = RoleAdmin \<or> u_role u \<noteq> RoleAdmin \<or> 1 < length (admins s))
                               then u\<lparr>u_role := role\<rparr> else u) (st_users s)\<rparr>))"
      by (intro administered.keeps_exec_affected admin_after_SetRole [OF _ refl True])
    from administered.keeps_lastAdminCheck [OF this, of i] True show ?thesis by (simp add: keeps_def SetRole_def)
  qed (simp add: keeps_def SetRole_def)
  have cascade: "has_admin (cascade_users s) = has_admin s" for s by (simp add: has_admin_def admins_def cascade_users_def)
  show "keeps has_admin (DeleteUser i)"
    unfolding DeleteUser_def
    by (intro administered.keeps_lastAdminCheck administered.keeps_exec_affected) (subst cascade, rule admin_after_DeleteUser)
qed

lemma has_admin_step:
  assumes "store_step s t" and "store_ok s" and "admins s \<noteq> []"
  shows "admins t \<noteq> []"
proof -
  have s: "has_admin s" and t: "users_ok (st_users t)"
    using assms(2,3) store_ok_step [OF assms(1,2)] by (simp_all add: has_admin_def store_ok_def)
  have same: "has_admin t" if "role_map t = role_map s"
    using s t that by (simp add: has_admin_roles)
  from assms(1) have "has_admin t"
  proof (cases rule: store_step.cases)
    case (step_CreateUser now name hash role)
    then show ?thesis using keepsD [OF keeps_admin(1) s] by simp
  next
    case (step_SetRole i role)
    then show ?thesis using keepsD [OF keeps_admin(2) s] by simp
  next
    case (step_DeleteUser i)
    then show ?thesis using keepsD [OF keeps_admin(3) s] by simp
  qed (use same in \<open>simp_all add: roles_kept [THEN keepsD, OF refl] roles_kept_more [THEN keepsD, OF refl]\<close>)
  then show ?thesis by (simp add: has_admin_def)
qed

text \<open>
  (C21) The hub never loses its last administrator: once there is an administrator, every
  sequence of store operations, in any interleaving, leaves one. The guards of \<open>SetRole\<close> and
  \<open>DeleteUser\<close> are part of the one statement that changes the row, so two concurrent
  demotions cannot both pass.
\<close>

theorem always_an_admin:
  assumes "reaches store_step empty_store s" and "admins s \<noteq> []" and "reaches store_step s t"
  shows "admins t \<noteq> []"
proof -
  have "store_ok s" by (rule database.inv_reachable [OF refl assms(1)])
  with assms(3,2) show ?thesis
  proof (induction rule: reaches.induct)
    case (reaches_step s t u)
    then show ?case using has_admin_step database.inv_from by blast
  qed
qed

definition sample_admin :: user where
  "sample_admin = \<lparr>u_id = 1, u_username = ''ann'', u_password_hash = ''#pw'', u_totp_secret = [], u_role = RoleAdmin,
     u_created_at = 5, u_last_login = 0, u_handle = None\<rparr>"

lemma sample_create: "snd (CreateUser 5 ''ann'' ''#pw'' RoleAdmin empty_store) = empty_store\<lparr>st_users := [sample_admin]\<rparr>"
  by (simp add: CreateUser_def ValidRole_def roleRank_def RoleAdmin_def RoleViewer_def RoleOperator_def stmt_def
      empty_store_def username_taken_def next_rowid_def sample_admin_def Let_def)

lemma sample_reach: "reaches store_step empty_store (empty_store\<lparr>st_users := [sample_admin]\<rparr>)"
  using step_CreateUser [of empty_store 5 "''ann''" "''#pw''" RoleAdmin] unfolding sample_create
  by (rule reaches_step [OF reaches_refl])

theorem database_integrity_witness:
  "reaches store_step empty_store (empty_store\<lparr>st_users := [sample_admin]\<rparr>) \<and> ValidRole (u_role sample_admin)"
  using sample_reach database_integrity [OF sample_reach] by simp

theorem always_an_admin_witness:
  "DeleteUser 1 (empty_store\<lparr>st_users := [sample_admin]\<rparr>) = (Inl ErrLastAdmin, empty_store\<lparr>st_users := [sample_admin]\<rparr>) \<and>
   admins (snd (DeleteUser 1 (empty_store\<lparr>st_users := [sample_admin]\<rparr>))) \<noteq> []"
proof -
  let ?s = "empty_store\<lparr>st_users := [sample_admin]\<rparr>"
  have "admins ?s \<noteq> []" by (simp add: admins_def sample_admin_def)
  moreover have "reaches store_step ?s (snd (DeleteUser 1 ?s))"
    by (rule reaches_single) (rule step_DeleteUser)
  ultimately have "admins (snd (DeleteUser 1 ?s)) \<noteq> []" by (rule always_an_admin [OF sample_reach])
  moreover have "DeleteUser 1 ?s = (Inl ErrLastAdmin, ?s)"
    by (simp add: DeleteUser_def lastAdminCheck_def exec_affected_def stmt_def empty_store_def admins_def sample_admin_def
        User_def query_row_def row_get_def)
  ultimately show ?thesis by simp
qed

end
