(* ===== verification/Limiter.thy ===== *)
theory Limiter
  imports Proxy Interfaces
begin

text \<open>
  The login limiter of \<open>hub/auth.go\<close>. Records are shared between the table and the attempts
  in progress, so they live in a heap and both hold references; \<open>end\<close> compares references.
  The order in which Go ranges over the table is an argument (\<open>ord\<close>) of the operations that
  depend on it, and the time is an argument.
\<close>

definition loginFailures :: int where "loginFailures = 5"

definition loginLockout :: duration where "loginLockout = 5 * minute"

definition maxTrackedClients :: nat where "maxTrackedClients = 10000"

record failRecord =
  fr_count :: int
  fr_first :: go_time

record limiter =
  l_fails :: "(client_key \<times> nat) list"
  l_heap :: "nat \<Rightarrow> failRecord"
  l_next :: nat

record attempt =
  at_key :: client_key
  at_rec :: nat
  at_failed :: bool

definition newLoginLimiter :: limiter where
  "newLoginLimiter = \<lparr>l_fails = [], l_heap = (\<lambda>r. \<lparr>fr_count = 0, fr_first = 0\<rparr>), l_next = 0\<rparr>"

definition expired :: "go_time \<Rightarrow> failRecord \<Rightarrow> bool" where
  "expired now rec \<longleftrightarrow> loginLockout < time_sub now (fr_first rec)"

definition locked_rec :: "failRecord \<Rightarrow> bool" where
  "locked_rec rec \<longleftrightarrow> loginFailures \<le> fr_count rec"

definition del_key :: "client_key \<Rightarrow> (client_key \<times> nat) list \<Rightarrow> (client_key \<times> nat) list" where
  "del_key k fails = filter (\<lambda>(k', r). k' \<noteq> k) fails"

text \<open>The loop of \<open>evictLocked\<close>: the table without expired records, and the victim.\<close>

fun evict_scan ::
    "go_time \<Rightarrow> (nat \<Rightarrow> failRecord) \<Rightarrow> client_key list \<Rightarrow> (client_key \<times> nat) list \<Rightarrow> (client_key \<times> nat) option
      \<Rightarrow> (client_key \<times> nat) list \<times> (client_key \<times> nat) option" where
  "evict_scan now heap [] fails victim = (fails, victim)"
| "evict_scan now heap (k # ks) fails victim =
     (case map_of fails k of
        None \<Rightarrow> evict_scan now heap ks fails victim
      | Some r \<Rightarrow>
          (if expired now (heap r) then evict_scan now heap ks (del_key k fails) victim
           else
             (let locked = locked_rec (heap r);
                  victimLocked = (case victim of None \<Rightarrow> False | Some (_, v) \<Rightarrow> locked_rec (heap v));
                  take_it = (case victim of
                     None \<Rightarrow> True
                   | Some (_, v) \<Rightarrow> (victimLocked \<and> \<not> locked) \<or>
                       (locked = victimLocked \<and> fr_first (heap r) < fr_first (heap v)))
              in evict_scan now heap ks fails (if take_it then Some (k, r) else victim))))"

definition evictLocked :: "go_time \<Rightarrow> client_key list \<Rightarrow> limiter \<Rightarrow> limiter" where
  "evictLocked now ord l =
     (case evict_scan now (l_heap l) ord (l_fails l) None of
        (fails, victim) \<Rightarrow>
          l\<lparr>l_fails := (if maxTrackedClients \<le> length fails
                       then del_key (case victim of None \<Rightarrow> KeyRaw [] | Some (k, _) \<Rightarrow> k) fails
                       else fails)\<rparr>)"

definition recordLocked :: "client_key \<Rightarrow> go_time \<Rightarrow> bool \<Rightarrow> client_key list \<Rightarrow> limiter \<Rightarrow> nat option \<times> limiter" where
  "recordLocked key now create ord l =
     (let (rec, l) =
        (case map_of (l_fails l) key of
           None \<Rightarrow> (None, l)
         | Some r \<Rightarrow>
             (if expired now (l_heap l r) then (None, l\<lparr>l_fails := del_key key (l_fails l)\<rparr>)
              else (Some r, l)))
      in if rec = None \<and> create then
           (let l = (if maxTrackedClients \<le> length (l_fails l) then evictLocked now ord l else l);
                r = l_next l
            in (Some r, l\<lparr>l_fails := (key, r) # l_fails l, l_next := Suc r,
                          l_heap := (l_heap l)(r := \<lparr>fr_count = 0, fr_first = now\<rparr>)\<rparr>))
         else (rec, l))"

definition begin_attempt :: "client_ip \<Rightarrow> go_time \<Rightarrow> client_key list \<Rightarrow> limiter \<Rightarrow> attempt option \<times> limiter" where
  "begin_attempt ip now ord l =
     (let key = clientKey ip in
      case recordLocked key now True ord l of
        (None, l) \<Rightarrow> (None, l)
      | (Some r, l) \<Rightarrow>
          (if loginFailures \<le> fr_count (l_heap l r) then (None, l)
           else (Some \<lparr>at_key = key, at_rec = r, at_failed = False\<rparr>,
                 l\<lparr>l_heap := (l_heap l)(r := (l_heap l r)\<lparr>fr_count := fr_count (l_heap l r) + 1\<rparr>)\<rparr>)))"

definition locked_out :: "client_ip \<Rightarrow> go_time \<Rightarrow> limiter \<Rightarrow> bool \<times> limiter" where
  "locked_out ip now l =
     (case recordLocked (clientKey ip) now False [] l of
        (rec, l) \<Rightarrow>
          ((case rec of None \<Rightarrow> False | Some r \<Rightarrow> loginFailures \<le> fr_count (l_heap l r)), l))"

definition fail_attempt :: "attempt \<Rightarrow> attempt" where
  "fail_attempt a = a\<lparr>at_failed := True\<rparr>"

definition end_attempt :: "attempt \<Rightarrow> limiter \<Rightarrow> limiter" where
  "end_attempt a l =
     (if at_failed a then l
      else
        (let rec = l_heap l (at_rec a);
             rec = rec\<lparr>fr_count := fr_count rec - 1\<rparr>;
             l = l\<lparr>l_heap := (l_heap l)(at_rec a := rec)\<rparr>
         in if fr_count rec = 0 \<and> map_of (l_fails l) (at_key a) = Some (at_rec a)
            then l\<lparr>l_fails := del_key (at_key a) (l_fails l)\<rparr> else l))"

section \<open>The limiter in use\<close>

text \<open>
  The limiter, the clock, the attempts in progress and, per record, the number of attempts
  that ended as failures. Requests run concurrently; each operation holds the mutex.
\<close>

record lim_sys =
  ls_lim :: limiter
  ls_clock :: go_time
  ls_open :: "attempt list"
  ls_failed :: "nat \<Rightarrow> int"

definition table_order :: "limiter \<Rightarrow> client_key list \<Rightarrow> bool" where
  "table_order l ord \<longleftrightarrow> set ord = fst ` set (l_fails l)"

inductive lim_step :: "lim_sys \<Rightarrow> lim_sys \<Rightarrow> bool" where
  lim_begin: "ls_clock s \<le> now \<Longrightarrow> table_order (ls_lim s) ord \<Longrightarrow>
    begin_attempt ip now ord (ls_lim s) = (a, l) \<Longrightarrow>
    lim_step s (s\<lparr>ls_lim := l, ls_clock := now,
      ls_open := (case a of None \<Rightarrow> ls_open s | Some a \<Rightarrow> a # ls_open s)\<rparr>)"
| lim_locked: "ls_clock s \<le> now \<Longrightarrow> locked_out ip now (ls_lim s) = (b, l) \<Longrightarrow>
    lim_step s (s\<lparr>ls_lim := l, ls_clock := now\<rparr>)"
| lim_fail: "a \<in> set (ls_open s) \<Longrightarrow>
    lim_step s (s\<lparr>ls_open := fail_attempt a # remove1 a (ls_open s)\<rparr>)"
| lim_end: "a \<in> set (ls_open s) \<Longrightarrow>
    lim_step s (s\<lparr>ls_lim := end_attempt a (ls_lim s), ls_open := remove1 a (ls_open s),
      ls_failed := (if at_failed a then (ls_failed s)(at_rec a := ls_failed s (at_rec a) + 1) else ls_failed s)\<rparr>)"

section \<open>Eviction\<close>

lemma map_of_del_key: "map_of (del_key k fails) k' = (if k' = k then None else map_of fails k')"
  by (induction fails) (auto simp: del_key_def)

lemma del_key_sub: "set (del_key k fails) \<subseteq> set fails" "length (del_key k fails) \<le> length fails"
  "distinct (map fst fails) \<Longrightarrow> distinct (map fst (del_key k fails))"
  by (auto simp: del_key_def intro: distinct_map_filter)

lemma del_key_less:
  assumes "k \<in> fst ` set fails"
  shows "length (del_key k fails) < length fails"
proof -
  obtain r where "(k, r) \<in> set fails" using assms by auto
  then show ?thesis unfolding del_key_def by (rule length_filter_less) simp
qed

text \<open>The entries the scan keeps, and the victim: unlocked whenever an unlocked entry was seen.\<close>

lemma evict_scan_keeps:
  "evict_scan now heap ks fails victim = (fails', victim') \<Longrightarrow> distinct (map fst fails) \<Longrightarrow>
     fails' = filter (\<lambda>(k, r). \<not> (k \<in> set ks \<and> expired now (heap r))) fails"
proof (induction now heap ks fails victim rule: evict_scan.induct)
  case (1 now heap fails victim)
  then show ?case by simp
next
  case (2 now heap k ks fails victim)
  show ?case
  proof (cases "map_of fails k")
    case None
    then have "k \<notin> fst ` set fails" by (simp add: map_of_eq_None_iff)
    with None 2 show ?thesis by (auto intro!: filter_cong)
  next
    case (Some r)
    show ?thesis
    proof (cases "expired now (heap r)")
      case True
      with Some 2 have "fails' = filter (\<lambda>(k, r). \<not> (k \<in> set ks \<and> expired now (heap r))) (del_key k fails)"
        by (simp add: del_key_sub(3))
      also have "\<dots> = filter (\<lambda>(k', r). \<not> (k' \<in> set (k # ks) \<and> expired now (heap r))) fails"
      proof -
        have "r' = r" if "(k, r') \<in> set fails" for r' using that Some 2(5) by simp
        with True show ?thesis unfolding del_key_def filter_filter by (auto intro!: filter_cong)
      qed
      finally show ?thesis .
    next
      case False
      have "r' = r" if "(k, r') \<in> set fails" for r' using that Some 2(5) by simp
      moreover have "fails' = filter (\<lambda>(k, r). \<not> (k \<in> set ks \<and> expired now (heap r))) fails"
        using "2.IH"(3) [OF Some False refl refl refl] Some False 2(4,5) by (simp add: Let_def)
      ultimately show ?thesis using False by (auto intro!: filter_cong)
    qed
  qed
qed

definition live_entry :: "go_time \<Rightarrow> (nat \<Rightarrow> failRecord) \<Rightarrow> (client_key \<times> nat) list \<Rightarrow> client_key \<Rightarrow> nat \<Rightarrow> bool" where
  "live_entry now heap fails k r \<longleftrightarrow> map_of fails k = Some r \<and> \<not> expired now (heap r)"

lemma evict_scan_victim:
  "evict_scan now heap ks fails victim = (fails', victim') \<Longrightarrow>
     (case victim' of
        None \<Rightarrow> victim = None \<and> (\<forall>k \<in> set ks. \<forall>r. \<not> live_entry now heap fails k r)
      | Some (k, r) \<Rightarrow>
          (victim' = victim \<or> k \<in> set ks \<and> live_entry now heap fails k r) \<and>
          (locked_rec (heap r) \<longrightarrow>
             (case victim of None \<Rightarrow> True | Some (_, v) \<Rightarrow> locked_rec (heap v)) \<and>
             (\<forall>k \<in> set ks. \<forall>r. live_entry now heap fails k r \<longrightarrow> locked_rec (heap r))))"
proof (induction now heap ks fails victim rule: evict_scan.induct)
  case (1 now heap fails victim)
  then show ?case by (auto split: option.splits)
next
  case (2 now heap k ks fails victim)
  show ?case
  proof (cases "map_of fails k")
    case None
    with 2 show ?thesis by (auto simp: live_entry_def split: option.splits)
  next
    case (Some r)
    show ?thesis
    proof (cases "expired now (heap r)")
      case True
      have "live_entry now heap (del_key k fails) k' r' \<longleftrightarrow> live_entry now heap fails k' r'" for k' r'
        using Some True by (auto simp: live_entry_def map_of_del_key)
      with Some True "2.IH"(2) [OF Some True] 2(4) show ?thesis
        by (auto simp: live_entry_def split: option.splits)
    next
      case False
      have le: "live_entry now heap fails k r' \<longleftrightarrow> r' = r" for r'
        using Some False by (auto simp: live_entry_def)
      show ?thesis
        using "2.IH"(3) [OF Some False refl refl refl] Some False 2(4)
        by (auto simp: le Let_def split: option.splits if_splits)
    qed
  qed
qed

lemma evictLocked_spec:
  assumes d: "distinct (map fst (l_fails l))" and cover: "fst ` set (l_fails l) \<subseteq> set ord"
    and len: "length (l_fails l) \<le> maxTrackedClients"
  shows "l_heap (evictLocked now ord l) = l_heap l" and "l_next (evictLocked now ord l) = l_next l"
    and "set (l_fails (evictLocked now ord l)) \<subseteq> set (l_fails l)"
    and "distinct (map fst (l_fails (evictLocked now ord l)))"
    and "length (l_fails (evictLocked now ord l)) < maxTrackedClients"
    and "\<lbrakk>(k, r) \<in> set (l_fails l); \<not> expired now (l_heap l r); locked_rec (l_heap l r);
       (k', r') \<in> set (l_fails l); expired now (l_heap l r') \<or> \<not> locked_rec (l_heap l r')\<rbrakk>
       \<Longrightarrow> (k, r) \<in> set (l_fails (evictLocked now ord l))"
proof -
  obtain f v where s: "evict_scan now (l_heap l) ord (l_fails l) None = (f, v)" by fastforce
  let ?vk = "case v of None \<Rightarrow> KeyRaw [] | Some (k, _) \<Rightarrow> k"
  have e: "evictLocked now ord l = l\<lparr>l_fails := (if maxTrackedClients \<le> length f then del_key ?vk f else f)\<rparr>"
    by (simp add: evictLocked_def s)
  have f: "f = filter (\<lambda>(k, r). \<not> (k \<in> set ord \<and> expired now (l_heap l r))) (l_fails l)"
    by (rule evict_scan_keeps [OF s d])
  then have sub: "set f \<subseteq> set (l_fails l)" and df: "distinct (map fst f)"
    using d by (auto intro: distinct_map_filter)
  have entry: "live_entry now (l_heap l) (l_fails l) k r \<longleftrightarrow> (k, r) \<in> set f" for k r
    using d cover by (auto simp: live_entry_def f)
  have full: "f = l_fails l" if "maxTrackedClients \<le> length f"
  proof -
    have "length (l_fails l) \<le> length f" using that len by simp
    then show ?thesis unfolding f by (metis (no_types, lifting) filter_id_conv length_filter_less not_le)
  qed
  have victim: "\<exists>k r. v = Some (k, r) \<and> (k, r) \<in> set f \<and>
      (locked_rec (l_heap l r) \<longrightarrow> (\<forall>(k, r) \<in> set f. locked_rec (l_heap l r)))"
    if "maxTrackedClients \<le> length f"
  proof -
    have "f \<noteq> []" using that by (auto simp: maxTrackedClients_def)
    then obtain k r where kr: "(k, r) \<in> set f" by (cases f) auto
    have ord: "k \<in> set ord" if "(k, r) \<in> set f" for k r using that sub cover by force
    have v: "v \<noteq> None" using evict_scan_victim [OF s] kr ord by (cases v) (auto simp: entry)
    then obtain vk vr where vkr: "v = Some (vk, vr)" by auto
    have "(vk, vr) \<in> set f" using evict_scan_victim [OF s] by (auto simp: entry vkr)
    moreover have "locked_rec (l_heap l r')" if "locked_rec (l_heap l vr)" "(k', r') \<in> set f" for k' r'
      using evict_scan_victim [OF s] that ord [OF that(2)] by (auto simp: entry vkr)
    ultimately show ?thesis using vkr by blast
  qed
  show "l_heap (evictLocked now ord l) = l_heap l" "l_next (evictLocked now ord l) = l_next l"
    by (simp_all add: e)
  show "set (l_fails (evictLocked now ord l)) \<subseteq> set (l_fails l)"
    using sub del_key_sub(1) [where k = ?vk and fails = f] by (auto simp: e)
  show "distinct (map fst (l_fails (evictLocked now ord l)))"
    using df del_key_sub(3) [OF df, where k = ?vk] by (simp add: e)
  show "length (l_fails (evictLocked now ord l)) < maxTrackedClients"
  proof (cases "maxTrackedClients \<le> length f")
    case True
    with victim have "?vk \<in> fst ` set f" by force
    then have "length (del_key ?vk f) < length f" by (rule del_key_less)
    with full [OF True] len True show ?thesis by (simp add: e)
  qed (simp add: e)
  assume k: "(k, r) \<in> set (l_fails l)" "\<not> expired now (l_heap l r)" "locked_rec (l_heap l r)"
    and k': "(k', r') \<in> set (l_fails l)" "expired now (l_heap l r') \<or> \<not> locked_rec (l_heap l r')"
  have kf: "(k, r) \<in> set f" using k by (simp add: f)
  show "(k, r) \<in> set (l_fails (evictLocked now ord l))"
  proof (cases "maxTrackedClients \<le> length f")
    case True
    have "k' \<in> set ord" using k'(1) cover by force
    with full [OF True] k'(1) have "\<not> expired now (l_heap l r')" by (auto simp: f filter_id_conv)
    with k' full [OF True] have "(k', r') \<in> set f" "\<not> locked_rec (l_heap l r')" by auto
    with victim [OF True] obtain vk vr where v: "v = Some (vk, vr)" "(vk, vr) \<in> set f" "\<not> locked_rec (l_heap l vr)"
      by blast
    have "k \<noteq> vk"
    proof
      assume "k = vk"
      with kf v(2) df have "r = vr" by (metis map_of_eq_Some_iff option.inject)
      with k(3) v(3) show False by simp
    qed
    with kf True v(1) show ?thesis by (simp add: e del_key_def)
  qed (simp add: e kf)
qed

section \<open>Invariant\<close>

definition open_on :: "attempt list \<Rightarrow> nat \<Rightarrow> int" where
  "open_on as r = int (length (filter (\<lambda>a. at_rec a = r) as))"

definition table_ok :: "limiter \<Rightarrow> bool" where
  "table_ok l \<longleftrightarrow>
     distinct (map fst (l_fails l)) \<and> (\<forall>(k, r) \<in> set (l_fails l). r < l_next l) \<and>
     length (l_fails l) \<le> maxTrackedClients"

definition lim_inv :: "lim_sys \<Rightarrow> bool" where
  "lim_inv s \<longleftrightarrow>
     table_ok (ls_lim s) \<and> (\<forall>a \<in> set (ls_open s). at_rec a < l_next (ls_lim s)) \<and>
     (\<forall>r. 0 \<le> ls_failed s r) \<and> (\<forall>r \<ge> l_next (ls_lim s). ls_failed s r = 0) \<and>
     (\<forall>r < l_next (ls_lim s). fr_count (l_heap (ls_lim s) r) = open_on (ls_open s) r + ls_failed s r \<and>
        open_on (ls_open s) r + ls_failed s r \<le> loginFailures)"

lemma open_on_simps [simp]:
  "open_on [] r = 0"
  "open_on (a # as) r = (if at_rec a = r then 1 else 0) + open_on as r"
  by (simp_all add: open_on_def)

lemma open_on_nonneg: "0 \<le> open_on as r"
  by (simp add: open_on_def)

lemma open_on_remove1: "a \<in> set as \<Longrightarrow> open_on (remove1 a as) r = open_on as r - (if at_rec a = r then 1 else 0)"
  by (induction as) auto

lemma open_on_fresh: "(\<forall>a \<in> set as. at_rec a < n) \<Longrightarrow> n \<le> r \<Longrightarrow> open_on as r = 0"
  by (induction as) auto

text \<open>
  Looking up a record finds the unexpired one of the key, or drops an expired one and
  makes room for a new one.
\<close>

definition purge :: "client_key \<Rightarrow> limiter \<Rightarrow> limiter" where
  "purge key l = l\<lparr>l_fails := del_key key (l_fails l)\<rparr>"

definition make_room :: "go_time \<Rightarrow> client_key list \<Rightarrow> limiter \<Rightarrow> limiter" where
  "make_room now ord l = (if maxTrackedClients \<le> length (l_fails l) then evictLocked now ord l else l)"

definition add_record :: "client_key \<Rightarrow> go_time \<Rightarrow> limiter \<Rightarrow> limiter" where
  "add_record key now l =
     l\<lparr>l_fails := (key, l_next l) # l_fails l, l_next := Suc (l_next l),
       l_heap := (l_heap l)(l_next l := \<lparr>fr_count = 0, fr_first = now\<rparr>)\<rparr>"

definition current :: "client_key \<Rightarrow> go_time \<Rightarrow> limiter \<Rightarrow> nat option" where
  "current key now l =
     (case map_of (l_fails l) key of
        None \<Rightarrow> None | Some r \<Rightarrow> if expired now (l_heap l r) then None else Some r)"

lemma del_key_absent: "map_of fails k = None \<Longrightarrow> del_key k fails = fails"
  by (auto simp: del_key_def map_of_eq_None_iff filter_id_conv image_iff)

lemma recordLocked_cases:
  "recordLocked key now create ord l =
     (case current key now l of
        Some r \<Rightarrow> (Some r, l)
      | None \<Rightarrow>
          if create then (let l2 = make_room now ord (purge key l) in (Some (l_next l2), add_record key now l2))
          else (None, purge key l))"
proof (cases "map_of (l_fails l) key")
  case None
  then have "purge key l = l" by (cases l) (simp add: purge_def del_key_absent)
  with None show ?thesis
    by (simp add: recordLocked_def current_def make_room_def add_record_def Let_def)
next
  case (Some r)
  then show ?thesis
    by (simp add: recordLocked_def current_def make_room_def add_record_def purge_def Let_def)
qed

lemma purge_ok: "table_ok l \<Longrightarrow> table_ok (purge key l) \<and> key \<notin> fst ` set (l_fails (purge key l))"
  using del_key_sub [where k = key and fails = "l_fails l"]
  by (auto simp: table_ok_def purge_def) (auto simp: del_key_def)

lemma make_room_ok:
  assumes ok: "table_ok l" and cover: "fst ` set (l_fails l) \<subseteq> set ord"
  shows "table_ok (make_room now ord l)" and "l_heap (make_room now ord l) = l_heap l"
    and "l_next (make_room now ord l) = l_next l" and "set (l_fails (make_room now ord l)) \<subseteq> set (l_fails l)"
    and "length (l_fails (make_room now ord l)) < maxTrackedClients"
    and "\<lbrakk>(k, r) \<in> set (l_fails l); \<not> expired now (l_heap l r); locked_rec (l_heap l r);
       (k', r') \<in> set (l_fails l); \<not> locked_rec (l_heap l r')\<rbrakk>
       \<Longrightarrow> (k, r) \<in> set (l_fails (make_room now ord l))"
proof -
  have pre: "distinct (map fst (l_fails l))" "length (l_fails l) \<le> maxTrackedClients"
    using ok by (auto simp: table_ok_def)
  note ev = evictLocked_spec [OF pre(1) cover pre(2), where now = now]
  show heap: "l_heap (make_room now ord l) = l_heap l" and nx: "l_next (make_room now ord l) = l_next l"
    and sub: "set (l_fails (make_room now ord l)) \<subseteq> set (l_fails l)"
    and len: "length (l_fails (make_room now ord l)) < maxTrackedClients"
    using ev(1-3,5) by (auto simp: make_room_def)
  have "distinct (map fst (l_fails (make_room now ord l)))"
    using ev(4) pre(1) by (simp add: make_room_def)
  with ok nx sub len show "table_ok (make_room now ord l)"
    unfolding table_ok_def by (simp add: subset_iff less_imp_le) blast
  show "\<lbrakk>(k, r) \<in> set (l_fails l); \<not> expired now (l_heap l r); locked_rec (l_heap l r);
       (k', r') \<in> set (l_fails l); \<not> locked_rec (l_heap l r')\<rbrakk>
       \<Longrightarrow> (k, r) \<in> set (l_fails (make_room now ord l))"
    using ev(6) [of k r k' r'] by (simp add: make_room_def)
qed

lemma add_record_ok:
  assumes "table_ok l" and "key \<notin> fst ` set (l_fails l)" and "length (l_fails l) < maxTrackedClients"
  shows "table_ok (add_record key now l)"
  using assms by (auto simp: table_ok_def add_record_def intro: less_SucI)

text \<open>The record of a key after the lookup that \<open>begin\<close> makes.\<close>

lemma recordLocked_create:
  assumes ok: "table_ok l" and cover: "fst ` set (l_fails l) \<subseteq> set ord"
    and rec: "recordLocked key now True ord l = (ro, l')"
  obtains r where "ro = Some r" and "table_ok l'" and "r < l_next l'" and "map_of (l_fails l') key = Some r"
    and "l_next l \<le> l_next l'" and "\<And>i. i < l_next l \<Longrightarrow> l_heap l' i = l_heap l i"
    and "\<And>i. l_next l \<le> i \<Longrightarrow> i < l_next l' \<Longrightarrow> fr_count (l_heap l' i) = 0"
    and "current key now l = Some r \<and> l' = l \<or> current key now l = None"
proof (cases "current key now l")
  case (Some r)
  then have e: "ro = Some r" "l' = l" using rec by (auto simp: recordLocked_cases)
  have m: "map_of (l_fails l) key = Some r" using Some by (auto simp: current_def split: option.splits if_splits)
  then have "r < l_next l" using ok by (auto simp: table_ok_def dest!: map_of_SomeD)
  with e m ok Some show ?thesis by (intro that [of r]) auto
next
  case None
  let ?l1 = "purge key l"
  let ?l2 = "make_room now ord ?l1"
  have e: "ro = Some (l_next ?l2)" "l' = add_record key now ?l2"
    using None rec by (auto simp: recordLocked_cases Let_def)
  have sub: "set (l_fails ?l1) \<subseteq> set (l_fails l)" by (auto simp: purge_def del_key_def)
  then have cov: "fst ` set (l_fails ?l1) \<subseteq> set ord" using cover by (meson image_mono order_trans)
  note p = purge_ok [OF ok, of key]
  note m = make_room_ok [OF conjunct1 [OF p] cov, where now = now]
  have "key \<notin> fst ` set (l_fails ?l2)" using p m(4) by (meson image_mono subsetD)
  then have "table_ok l'" unfolding e(2) using m(1,5) by (intro add_record_ok)
  moreover have "l_next ?l2 = l_next l" "l_heap ?l2 = l_heap l" using m(2,3) by (simp_all add: purge_def)
  ultimately show ?thesis
    using None by (intro that [of "l_next ?l2"]) (auto simp: e add_record_def)
qed

lemma begin_attempt_inv:
  assumes inv: "lim_inv s" and cover: "table_order (ls_lim s) ord"
    and b: "begin_attempt ip now ord (ls_lim s) = (ao, l')"
  shows "lim_inv (s\<lparr>ls_lim := l', ls_clock := now,
      ls_open := (case ao of None \<Rightarrow> ls_open s | Some a \<Rightarrow> a # ls_open s)\<rparr>)"
proof -
  let ?l = "ls_lim s"
  have ok: "table_ok ?l" and cov: "fst ` set (l_fails ?l) \<subseteq> set ord"
    using inv cover by (auto simp: lim_inv_def table_order_def)
  obtain ro l1 where rec: "recordLocked (clientKey ip) now True ord ?l = (ro, l1)" by fastforce
  from recordLocked_create [OF ok cov rec] obtain r where r: "ro = Some r" "table_ok l1" "r < l_next l1"
    "l_next ?l \<le> l_next l1" "\<And>i. i < l_next ?l \<Longrightarrow> l_heap l1 i = l_heap ?l i"
    "\<And>i. l_next ?l \<le> i \<Longrightarrow> i < l_next l1 \<Longrightarrow> fr_count (l_heap l1 i) = 0" by metis
  have fresh: "open_on (ls_open s) i = 0 \<and> ls_failed s i = 0" if "l_next ?l \<le> i" for i
    using inv that open_on_fresh [of "ls_open s" "l_next ?l" i] by (auto simp: lim_inv_def)
  have count: "fr_count (l_heap l1 i) = open_on (ls_open s) i + ls_failed s i \<and> open_on (ls_open s) i + ls_failed s i \<le> loginFailures"
    if "i < l_next l1" for i
    using inv that r(5) [of i] r(6) [of i] fresh [of i] by (cases "i < l_next ?l") (auto simp: lim_inv_def loginFailures_def)
  have open_lt: "\<forall>a \<in> set (ls_open s). at_rec a < l_next l1" using inv r(4) by (force simp: lim_inv_def)
  have rest: "\<forall>i. 0 \<le> ls_failed s i" "\<forall>i \<ge> l_next l1. ls_failed s i = 0"
    using inv r(4) by (auto simp: lim_inv_def)
  show ?thesis
  proof (cases "loginFailures \<le> fr_count (l_heap l1 r)")
    case True
    then have "ao = None" "l' = l1" using b rec r(1) by (auto simp: begin_attempt_def Let_def)
    then show ?thesis using r(2) open_lt rest count by (auto simp: lim_inv_def)
  next
    case False
    then have "ao = Some \<lparr>at_key = clientKey ip, at_rec = r, at_failed = False\<rparr>"
      "l' = l1\<lparr>l_heap := (l_heap l1)(r := (l_heap l1 r)\<lparr>fr_count := fr_count (l_heap l1 r) + 1\<rparr>)\<rparr>"
      using b rec r(1) by (auto simp: begin_attempt_def Let_def)
    with r(2,3) open_lt rest count False show ?thesis by (simp add: lim_inv_def table_ok_def)
  qed
qed

lemma locked_out_inv:
  assumes "lim_inv s" and "locked_out ip now (ls_lim s) = (b, l')"
  shows "lim_inv (s\<lparr>ls_lim := l', ls_clock := now\<rparr>)"
proof -
  have "l' = ls_lim s \<or> l' = purge (clientKey ip) (ls_lim s)"
    using assms(2) by (auto simp: locked_out_def recordLocked_cases split: option.splits)
  with assms(1) purge_ok [of "ls_lim s" "clientKey ip"] show ?thesis
    by (auto simp: lim_inv_def purge_def)
qed

lemma end_attempt_inv:
  assumes inv: "lim_inv s" and a: "a \<in> set (ls_open s)"
  shows "lim_inv (s\<lparr>ls_lim := end_attempt a (ls_lim s), ls_open := remove1 a (ls_open s),
      ls_failed := (if at_failed a then (ls_failed s)(at_rec a := ls_failed s (at_rec a) + 1) else ls_failed s)\<rparr>)"
proof -
  let ?l = "ls_lim s"
  have lt: "at_rec a < l_next ?l" using inv a by (auto simp: lim_inv_def)
  have op: "\<forall>b \<in> set (remove1 a (ls_open s)). at_rec b < l_next ?l"
    using inv by (auto simp: lim_inv_def dest: notin_set_remove1)
  show ?thesis
  proof (cases "at_failed a")
    case True
    with inv lt op a show ?thesis
      by (auto simp: lim_inv_def end_attempt_def open_on_remove1)
  next
    case False
    let ?h = "(l_heap ?l)(at_rec a := (l_heap ?l (at_rec a))\<lparr>fr_count := fr_count (l_heap ?l (at_rec a)) - 1\<rparr>)"
    have e: "l_heap (end_attempt a ?l) = ?h" "l_next (end_attempt a ?l) = l_next ?l"
      "l_fails (end_attempt a ?l) = l_fails ?l \<or> l_fails (end_attempt a ?l) = del_key (at_key a) (l_fails ?l)"
      using False by (auto simp: end_attempt_def Let_def)
    have "table_ok (end_attempt a ?l)"
      using inv e(2,3) purge_ok [of ?l "at_key a"] by (auto simp: lim_inv_def table_ok_def purge_def)
    moreover have "?h i = l_heap ?l i \<or> i = at_rec a \<and> fr_count (?h i) = fr_count (l_heap ?l i) - 1" for i by simp
    ultimately show ?thesis using inv lt op a False e(1,2) by (auto simp: lim_inv_def open_on_remove1)
  qed
qed

definition lim_start :: "lim_sys \<Rightarrow> bool" where
  "lim_start s \<longleftrightarrow> ls_lim s = newLoginLimiter \<and> ls_open s = [] \<and> ls_failed s = (\<lambda>r. 0)"

interpretation limiting: invariant_system lim_start lim_step lim_inv
proof
  show "lim_start s \<Longrightarrow> lim_inv s" for s
    by (simp add: lim_start_def lim_inv_def newLoginLimiter_def table_ok_def)
  show "lim_inv t" if "lim_inv s" "lim_step s t" for s t
    using that(2)
  proof (cases rule: lim_step.cases)
    case (lim_begin now ord ip a l)
    with begin_attempt_inv [OF that(1)] show ?thesis by blast
  next
    case (lim_locked now ip b l)
    with locked_out_inv [OF that(1)] show ?thesis by blast
  next
    case (lim_fail a)
    with that(1) show ?thesis
      by (auto simp: lim_inv_def open_on_remove1 fail_attempt_def dest: notin_set_remove1)
  next
    case (lim_end a)
    with end_attempt_inv [OF that(1)] show ?thesis by blast
  qed
qed

text \<open>
  (C17) Parallel attempts cannot get past the limit: whatever the interleaving of \<open>begin\<close>,
  \<open>fail\<close> and \<open>end\<close> calls, the failed attempts and the attempts in progress that count on one
  record together never exceed \<open>loginFailures\<close>, the record's counter is exactly their
  number, and the table never holds more than \<open>maxTrackedClients\<close> clients, one record each.
\<close>

theorem attempts_never_exceed_limit:
  assumes "lim_start s0" and "reaches lim_step s0 s" and "(k, r) \<in> set (l_fails (ls_lim s))"
  shows "open_on (ls_open s) r + ls_failed s r \<le> loginFailures \<and>
    fr_count (l_heap (ls_lim s) r) = open_on (ls_open s) r + ls_failed s r \<and>
    length (l_fails (ls_lim s)) \<le> maxTrackedClients \<and> distinct (map fst (l_fails (ls_lim s)))"
proof -
  have inv: "lim_inv s" by (rule limiting.inv_reachable [OF assms(1,2)])
  then have "r < l_next (ls_lim s)" using assms(3) by (auto simp: lim_inv_def table_ok_def)
  with inv show ?thesis by (auto simp: lim_inv_def table_ok_def)
qed

section \<open>Lock-out under a flood\<close>

text \<open>
  A step while not every tracked client is locked out; a client with five failed attempts
  on a record that began at \<open>t0\<close>.
\<close>

definition flood_step :: "lim_sys \<Rightarrow> lim_sys \<Rightarrow> bool" where
  "flood_step s t \<longleftrightarrow> lim_step s t \<and>
     (length (l_fails (ls_lim s)) < maxTrackedClients \<or>
      (\<exists>(k, r) \<in> set (l_fails (ls_lim s)). \<not> locked_rec (l_heap (ls_lim s) r)))"

definition barred :: "client_key \<Rightarrow> nat \<Rightarrow> go_time \<Rightarrow> lim_sys \<Rightarrow> bool" where
  "barred k r t0 s \<longleftrightarrow>
     lim_inv s \<and> loginFailures \<le> ls_failed s r \<and>
     (ls_clock s - t0 \<le> loginLockout \<longrightarrow>
        map_of (l_fails (ls_lim s)) k = Some r \<and> fr_first (l_heap (ls_lim s) r) = t0)"

lemma unexpired: "now - fr_first rec \<le> loginLockout \<Longrightarrow> \<not> expired now rec"
  using time_sub_ge_iff [of "loginLockout + 1" now "fr_first rec"]
  by (simp add: expired_def loginLockout_def)

lemma barred_current:
  assumes "barred k r t0 s" and "ls_clock s \<le> now" and "now - t0 \<le> loginLockout"
  shows "map_of (l_fails (ls_lim s)) k = Some r" and "fr_first (l_heap (ls_lim s) r) = t0"
    and "current k now (ls_lim s) = Some r" and "locked_rec (l_heap (ls_lim s) r)" and "open_on (ls_open s) r = 0"
proof -
  have inv: "lim_inv s" and f: "loginFailures \<le> ls_failed s r" using assms(1) by (auto simp: barred_def)
  show m: "map_of (l_fails (ls_lim s)) k = Some r" and t: "fr_first (l_heap (ls_lim s) r) = t0"
    using assms by (auto simp: barred_def)
  with assms(3) show "current k now (ls_lim s) = Some r"
    using unexpired [of now "l_heap (ls_lim s) r"] by (simp add: current_def)
  have "r < l_next (ls_lim s)" using m inv by (auto simp: lim_inv_def table_ok_def dest!: map_of_SomeD)
  then have "fr_count (l_heap (ls_lim s) r) = open_on (ls_open s) r + ls_failed s r"
    "open_on (ls_open s) r + ls_failed s r \<le> loginFailures" using inv by (auto simp: lim_inv_def)
  with f open_on_nonneg [of "ls_open s" r]
  show "locked_rec (l_heap (ls_lim s) r)" "open_on (ls_open s) r = 0" by (auto simp: locked_rec_def)
qed

text \<open>Another client's new record does not displace the locked one.\<close>

lemma make_room_spares:
  assumes ok: "table_ok l" and cover: "fst ` set (l_fails l) \<subseteq> set ord" and k: "map_of (l_fails l) k = Some r"
    and rec: "\<not> expired now (l_heap l r)" "locked_rec (l_heap l r)" and other: "key \<noteq> k"
    and room: "length (l_fails l) < maxTrackedClients \<or> (\<exists>(k, r) \<in> set (l_fails l). \<not> locked_rec (l_heap l r))"
  shows "map_of (l_fails (add_record key now (make_room now ord (purge key l)))) k = Some r"
proof -
  let ?l1 = "purge key l"
  have p: "table_ok ?l1" "l_heap ?l1 = l_heap l" using purge_ok [OF ok, of key] by (simp_all add: purge_def)
  have sub: "fst ` set (l_fails ?l1) \<subseteq> set ord" using cover by (force simp: purge_def del_key_def)
  have kr: "(k, r) \<in> set (l_fails ?l1)" using k other by (auto simp: purge_def del_key_def dest: map_of_SomeD)
  note m = make_room_ok [OF p(1) sub, where now = now]
  have "(k, r) \<in> set (l_fails (make_room now ord ?l1))"
  proof (cases "maxTrackedClients \<le> length (l_fails ?l1)")
    case False
    with kr show ?thesis by (simp add: make_room_def)
  next
    case True
    have len: "length (l_fails l) \<le> maxTrackedClients" using ok by (simp add: table_ok_def)
    have "key \<notin> fst ` set (l_fails l)"
      using del_key_less [of key "l_fails l"] True len by (force simp: purge_def)
    then have same: "l_fails ?l1 = l_fails l" by (simp add: purge_def del_key_absent map_of_eq_None_iff)
    with room True obtain k' r' where "(k', r') \<in> set (l_fails ?l1)" "\<not> locked_rec (l_heap ?l1 r')"
      by (auto simp: p(2))
    with kr rec show ?thesis by (intro m(6)) (simp_all add: p(2))
  qed
  moreover have "distinct (map fst (l_fails (make_room now ord ?l1)))" using m(1) by (simp add: table_ok_def)
  ultimately show ?thesis using other by (simp add: add_record_def)
qed

lemma barred_step:
  assumes b: "barred k r t0 s" and step: "flood_step s t"
  shows "barred k r t0 t"
proof -
  have lim: "lim_step s t" and room: "length (l_fails (ls_lim s)) < maxTrackedClients \<or>
      (\<exists>(k, r) \<in> set (l_fails (ls_lim s)). \<not> locked_rec (l_heap (ls_lim s) r))"
    using step by (auto simp: flood_step_def)
  have inv: "lim_inv s" and f: "loginFailures \<le> ls_failed s r" using b by (auto simp: barred_def)
  have ok: "table_ok (ls_lim s)" using inv by (simp add: lim_inv_def)
  have inv': "lim_inv t" by (rule limiting.inv_step [OF inv lim])
  show ?thesis
    using lim
  proof (cases rule: lim_step.cases)
    case (lim_begin now ord ip a l)
    show ?thesis
    proof (cases "now - t0 \<le> loginLockout")
      case True
      note c = barred_current [OF b lim_begin(2) True]
      have un: "\<not> expired now (l_heap (ls_lim s) r)" using c(2) True by (simp add: unexpired)
      have cov: "fst ` set (l_fails (ls_lim s)) \<subseteq> set ord" using lim_begin(3) by (simp add: table_order_def)
      have "map_of (l_fails l) k = Some r \<and> fr_first (l_heap l r) = t0"
      proof (cases "current (clientKey ip) now (ls_lim s)")
        case (Some r')
        with lim_begin(4) c show ?thesis
          by (auto simp: begin_attempt_def recordLocked_cases Let_def split: if_splits)
      next
        case None
        with c(3) have ne: "clientKey ip \<noteq> k" by auto
        have rlt: "r < l_next (ls_lim s)" using c(1) ok by (auto simp: table_ok_def dest!: map_of_SomeD)
        let ?l2 = "make_room now ord (purge (clientKey ip) (ls_lim s))"
        have sub: "fst ` set (l_fails (purge (clientKey ip) (ls_lim s))) \<subseteq> set ord"
          using cov by (force simp: purge_def del_key_def)
        have h: "l_heap ?l2 = l_heap (ls_lim s)" "l_next ?l2 = l_next (ls_lim s)"
          using make_room_ok(2,3) [OF conjunct1 [OF purge_ok [OF ok]] sub, where now = now] by (simp_all add: purge_def)
        have "l_fails l = l_fails (add_record (clientKey ip) now ?l2)" "fr_first (l_heap l r) = fr_first (l_heap ?l2 r)"
          using lim_begin(4) None rlt h
          by (auto simp: begin_attempt_def recordLocked_cases Let_def add_record_def split: if_splits)
        with make_room_spares [OF ok cov c(1) un c(4) ne room] h c(2) show ?thesis by simp
      qed
      with lim_begin(1) inv' f show ?thesis by (simp add: barred_def)
    qed (use lim_begin(1) inv' f in \<open>simp add: barred_def\<close>)
  next
    case (lim_locked now ip b' l)
    show ?thesis
    proof (cases "now - t0 \<le> loginLockout")
      case True
      note c = barred_current [OF b lim_locked(2) True]
      have "map_of (l_fails l) k = Some r \<and> fr_first (l_heap l r) = t0"
        using lim_locked(3) c
        by (auto simp: locked_out_def recordLocked_cases purge_def map_of_del_key split: option.splits)
      with lim_locked(1) inv' f show ?thesis by (simp add: barred_def)
    qed (use lim_locked(1) inv' f in \<open>simp add: barred_def\<close>)
  next
    case (lim_fail a)
    with b inv' show ?thesis by (simp add: barred_def)
  next
    case (lim_end a)
    show ?thesis
    proof (cases "ls_clock s - t0 \<le> loginLockout")
      case True
      note c = barred_current [OF b order.refl True]
      have ne: "at_rec a \<noteq> r"
        using c(5) lim_end(2) open_on_nonneg [of "remove1 a (ls_open s)" r] open_on_remove1 [of a "ls_open s" r] by auto
      have "map_of (l_fails (end_attempt a (ls_lim s))) k = Some r \<and> fr_first (l_heap (end_attempt a (ls_lim s)) r) = t0"
        using ne c(1,2) by (auto simp: end_attempt_def Let_def map_of_del_key)
      with lim_end(1) inv' f ne show ?thesis by (simp add: barred_def)
    qed (use lim_end(1) inv' f in \<open>auto simp: barred_def\<close>)
  qed
qed

text \<open>
  (C18) A locked-out client stays locked out. After five failed attempts on its record,
  whatever other clients do, including flooding the limiter with new addresses so that it
  must evict records, \<open>begin\<close> refuses every attempt from the client's address (or /64) until
  the lock-out has passed, and \<open>locked\<close> reports it. The only proviso is that not all of the
  \<open>maxTrackedClients\<close> tracked clients are locked out at once.
\<close>

theorem lockout_survives_flood:
  assumes "lim_start s0" and "reaches lim_step s0 s1"
    and "map_of (l_fails (ls_lim s1)) (clientKey ip) = Some r" and "loginFailures \<le> ls_failed s1 r"
    and "reaches flood_step s1 s2" and "ls_clock s2 \<le> now"
    and "now - fr_first (l_heap (ls_lim s1) r) \<le> loginLockout"
  shows "fst (begin_attempt ip now ord (ls_lim s2)) = None \<and> fst (locked_out ip now (ls_lim s2))"
proof -
  let ?t0 = "fr_first (l_heap (ls_lim s1) r)"
  have "barred (clientKey ip) r ?t0 s1"
    using assms(3,4) limiting.inv_reachable [OF assms(1,2)] by (simp add: barred_def)
  with assms(5) have "barred (clientKey ip) r ?t0 s2"
    by (induction rule: reaches.induct) (auto intro: barred_step)
  from barred_current [OF this assms(6,7)] show ?thesis
    by (simp add: begin_attempt_def locked_out_def recordLocked_cases locked_rec_def)
qed

section \<open>Concrete instances\<close>

definition sample_client :: client_ip where
  "sample_client = IP (Addr4 1)"

text \<open>One client, seen first at time 0, with \<open>n\<close> failed attempts.\<close>

definition lim_after :: "int \<Rightarrow> lim_sys" where
  "lim_after n = \<lparr>ls_lim = \<lparr>l_fails = [(Key4 1, 0)],
       l_heap = (\<lambda>r. \<lparr>fr_count = 0, fr_first = 0\<rparr>)(0 := \<lparr>fr_count = n, fr_first = 0\<rparr>), l_next = 1\<rparr>,
     ls_clock = 0, ls_open = [], ls_failed = (\<lambda>r. 0)(0 := n)\<rparr>"

definition lim_fresh :: lim_sys where
  "lim_fresh = \<lparr>ls_lim = newLoginLimiter, ls_clock = 0, ls_open = [], ls_failed = (\<lambda>r. 0)\<rparr>"

lemma fail_and_end:
  assumes "ls_open s = [a]" and "\<not> at_failed a"
  shows "reaches lim_step s (s\<lparr>ls_open := [], ls_failed := (ls_failed s)(at_rec a := ls_failed s (at_rec a) + 1)\<rparr>)"
proof -
  let ?f = "fail_attempt a"
  have "lim_step s (s\<lparr>ls_open := [?f]\<rparr>)" using lim_fail [of a s] assms by simp
  then have "reaches lim_step s (s\<lparr>ls_open := [?f]\<rparr>)" by (rule reaches_step [OF reaches_refl])
  moreover have "lim_step (s\<lparr>ls_open := [?f]\<rparr>)
      (s\<lparr>ls_open := [], ls_failed := (ls_failed s)(at_rec a := ls_failed s (at_rec a) + 1)\<rparr>)"
    using lim_end [of ?f "s\<lparr>ls_open := [?f]\<rparr>"] by (simp add: fail_attempt_def end_attempt_def)
  ultimately show ?thesis by (rule reaches_step)
qed

lemma fail_cycle:
  assumes b: "begin_attempt sample_client 0 ord (ls_lim s) = (Some a, l)" and "ls_clock s = 0"
    and "table_order (ls_lim s) ord" and "ls_open s = []"
    and t: "t = s\<lparr>ls_lim := l, ls_failed := (ls_failed s)(at_rec a := ls_failed s (at_rec a) + 1)\<rparr>"
  shows "reaches lim_step s t"
proof -
  have "\<not> at_failed a" using b by (auto simp: begin_attempt_def Let_def split: prod.splits option.splits if_splits)
  moreover have "lim_step s (s\<lparr>ls_lim := l, ls_clock := 0, ls_open := [a]\<rparr>)"
    using lim_begin [OF _ assms(3) b] assms(2,4) by simp
  ultimately have "reaches lim_step s (s\<lparr>ls_lim := l, ls_clock := 0, ls_open := [],
      ls_failed := (ls_failed s)(at_rec a := ls_failed s (at_rec a) + 1)\<rparr>)"
    using fail_and_end [of "s\<lparr>ls_lim := l, ls_clock := 0, ls_open := [a]\<rparr>" a]
    by (auto intro: reaches_trans reaches_step [OF reaches_refl])
  moreover have "s\<lparr>ls_lim := l, ls_clock := 0, ls_open := [], ls_failed := f\<rparr> = s\<lparr>ls_lim := l, ls_failed := f\<rparr>" for f
    using assms(2,4) by (cases s) simp
  ultimately show ?thesis by (simp add: t)
qed

lemma sample_key: "clientKey sample_client = Key4 1"
  by (simp add: clientKey_def sample_client_def)

lemma unexpired_now: "\<not> expired 0 \<lparr>fr_count = n, fr_first = 0\<rparr>"
  by (simp add: unexpired loginLockout_def)

lemma lim_after_step: "n < 5 \<Longrightarrow> reaches lim_step (lim_after n) (lim_after (n + 1))"
  by (rule fail_cycle [of "[Key4 1]" _ "\<lparr>at_key = Key4 1, at_rec = 0, at_failed = False\<rparr>" "ls_lim (lim_after (n + 1))"])
    (simp_all add: begin_attempt_def recordLocked_def sample_key lim_after_def unexpired_now loginFailures_def
      table_order_def Let_def)

lemma lim_fresh_step: "reaches lim_step lim_fresh (lim_after 1)"
  by (rule fail_cycle [of "[]" _ "\<lparr>at_key = Key4 1, at_rec = 0, at_failed = False\<rparr>" "ls_lim (lim_after 1)"])
    (simp_all add: begin_attempt_def recordLocked_def sample_key lim_after_def lim_fresh_def newLoginLimiter_def
      loginFailures_def maxTrackedClients_def table_order_def Let_def fun_eq_iff)

lemma lim_after_five: "reaches lim_step lim_fresh (lim_after 5)"
  using lim_after_step [of 1] lim_after_step [of 2] lim_after_step [of 3] lim_after_step [of 4]
  by simp (meson lim_fresh_step reaches_trans)

lemma lim_fresh_start: "lim_start lim_fresh"
  by (simp add: lim_start_def lim_fresh_def)

theorem attempts_never_exceed_limit_witness:
  "(Key4 1, 0) \<in> set (l_fails (ls_lim (lim_after 5))) \<and>
   open_on (ls_open (lim_after 5)) 0 + ls_failed (lim_after 5) 0 = 5 \<and>
   open_on (ls_open (lim_after 5)) 0 + ls_failed (lim_after 5) 0 \<le> loginFailures"
proof -
  have "(Key4 1, 0) \<in> set (l_fails (ls_lim (lim_after 5)))" by (simp add: lim_after_def)
  from attempts_never_exceed_limit [OF lim_fresh_start lim_after_five this] this show ?thesis
    by (simp add: lim_after_def)
qed

theorem lockout_survives_flood_witness:
  "fst (begin_attempt sample_client (4 * minute) [] (ls_lim (lim_after 5))) = None"
proof -
  have "map_of (l_fails (ls_lim (lim_after 5))) (clientKey sample_client) = Some 0"
    "loginFailures \<le> ls_failed (lim_after 5) 0" "ls_clock (lim_after 5) \<le> 4 * minute"
    "4 * minute - fr_first (l_heap (ls_lim (lim_after 5)) 0) \<le> loginLockout"
    by (simp_all add: lim_after_def sample_key loginFailures_def loginLockout_def)
  from lockout_survives_flood [OF lim_fresh_start lim_after_five this(1,2) reaches_refl this(3,4)]
  show ?thesis by simp
qed

end
