(* ===== verification/HubState.thy ===== *)
theory HubState
  imports StoreInv Limiter Encoding Crypto "HOL-Library.State_Monad"
begin

text \<open>
  The state of the hub (\<open>hub/hub.go\<close>) and the monad its handlers run in. The record \<open>hub\<close>
  has a field per field of the struct; maps keyed by number are functions to options,
  pointers that are compared (connections, agent links) carry a reference number. A
  goroutine a handler starts is an entry of \<open>hb_tasks\<close>, and a handler, which the mutexes make
  atomic towards the parts of the state they protect, runs as one step at one instant.
\<close>

section \<open>State\<close>

record challenge =
  ch_purpose :: string
  ch_session :: string
  ch_expires :: go_time

record sessionConn =
  cn_ref :: nat
  cn_session :: string
  cn_user :: int
  cn_role :: string

record agentConn =
  ac_ref :: nat
  ac_id :: int
  ac_name :: string
  ac_remote :: client_ip
  ac_info :: system_info
  ac_features :: "string list"

record livePoint =
  lp_t :: int
  lp_m :: metrics

record sysState =
  sx_latest :: "metrics option"
  sx_latest_at :: int
  sx_ring :: "livePoint list"
  sx_bucket_ts :: int
  sx_sum :: "rat list"
  sx_n :: int

record alertState =
  as_since :: go_time
  as_clear :: go_time
  as_alert :: "alert option"

record alertEngine =
  eg_rules :: "alert_rule list"
  eg_states :: "int \<times> int \<Rightarrow> alertState option"   \<comment> \<open>by rule and system\<close>
  eg_offline :: "int \<Rightarrow> go_time option"
  eg_started :: go_time

text \<open>What the broker sends to the open browsers, and its subscribers with their queues.\<close>

datatype event = AlertsEvent | SystemsEvent | StatusEvent int bool | MetricsEvent int int metrics

record broker =
  br_subs :: "(nat \<times> event list) list"

record notification =
  nt_title :: "detail list"
  nt_message :: "detail list"
  nt_firing :: bool
  nt_url :: string
  nt_time :: go_time
  nt_system :: string
  nt_metric :: string
  nt_value :: rat
  nt_threshold :: rat

text \<open>Goroutines: evaluating the offline rules, sending a notification, telling an agent its
  report interval, and executing a script run for the client at an address.\<close>

datatype task =
    EvaluateOffline go_time
  | Deliver int notification
  | SetInterval nat int
  | Execute int client_ip

record hub =
  hb_public_url :: string
  hb_store :: store
  hb_broker :: broker
  hb_limiter :: limiter
  hb_alerts :: alertEngine
  hb_totp_used :: "int \<Rightarrow> int"
  hb_challenges :: "(string \<times> challenge) list"
  hb_agents :: "int \<Rightarrow> agentConn option"
  hb_states :: "int \<Rightarrow> sysState option"
  hb_conns :: "sessionConn list"
  hb_runs :: "int \<Rightarrow> activeRun option"
  hb_live :: bool
  hb_idle_timer :: bool
  hb_stopped :: "nat list"     \<comment> \<open>connections whose \<open>stop\<close> was called\<close>
  hb_closed :: "nat list"      \<comment> \<open>agent links that were closed\<close>
  hb_sent :: "(nat \<times> link_msg) list"   \<comment> \<open>what handlers sent over the links\<close>
  hb_tasks :: "task list"
  hb_next_ref :: nat

text \<open>
  What a request meets outside the state: the cryptographic library, the time, the random
  bytes it draws, the order in which Go ranges over the tables, and whether the client goes
  away while it waits.
\<close>

record env =
  ev_crypto :: crypto
  ev_now :: go_time
  ev_rand :: string
  ev_rand2 :: string
  ev_ord :: "client_key list"
  ev_cancelled :: bool

section \<open>The monad of the handlers\<close>

type_synonym 'a hub_op = "(hub, 'a) state"

abbreviation return :: "'a \<Rightarrow> ('s, 'a) state" where "return \<equiv> State_Monad.return"

definition gets :: "('s \<Rightarrow> 'a) \<Rightarrow> ('s, 'a) state" where
  "gets f = State (\<lambda>s. (f s, s))"

definition modify :: "('s \<Rightarrow> 's) \<Rightarrow> ('s, unit) state" where
  "modify f = State (\<lambda>s. ((), f s))"

text \<open>A statement on the database; \<open>db_log\<close> is a statement whose error is only logged.\<close>

definition db :: "'a op \<Rightarrow> (db_error + 'a) hub_op" where
  "db m = State (\<lambda>h. case m (hb_store h) of (r, s) \<Rightarrow> (r, h\<lparr>hb_store := s\<rparr>))"

definition db_log :: "'a op \<Rightarrow> unit hub_op" where
  "db_log m = do { _ \<leftarrow> db m; return () }"

text \<open>
  The weakest precondition of an operation: what \<open>Q\<close> says of the result and the state after
  it. On a handler it unfolds to the conditions of its branches.
\<close>

definition wp :: "('s, 'a) state \<Rightarrow> ('a \<Rightarrow> 's \<Rightarrow> bool) \<Rightarrow> 's \<Rightarrow> bool" where
  "wp m Q s \<longleftrightarrow> (case run_state m s of (r, t) \<Rightarrow> Q r t)"

lemma wp_run: "wp m Q s \<Longrightarrow> run_state m s = (r, t) \<Longrightarrow> Q r t"
  by (simp add: wp_def)

lemma wpI: "(\<And>r t. run_state m s = (r, t) \<Longrightarrow> Q r t) \<Longrightarrow> wp m Q s"
  by (auto simp: wp_def split: prod.splits)

lemma wp_mono: "wp m Q s \<Longrightarrow> (\<And>r t. Q r t \<Longrightarrow> R r t) \<Longrightarrow> wp m R s"
  by (auto simp: wp_def split: prod.splits)

lemma wp_return [simp]: "wp (return x) Q s \<longleftrightarrow> Q x s"
  by (simp add: wp_def)

lemma wp_bind [simp]: "wp (State_Monad.bind m f) Q s \<longleftrightarrow> wp m (\<lambda>r. wp (f r) Q) s"
  by (simp add: wp_def split: prod.splits)

lemma wp_gets [simp]: "wp (gets f) Q s \<longleftrightarrow> Q (f s) s"
  by (simp add: wp_def gets_def)

lemma wp_modify [simp]: "wp (modify f) Q s \<longleftrightarrow> Q () (f s)"
  by (simp add: wp_def modify_def)

lemma wp_db: "wp (db m) Q h \<longleftrightarrow> (case m (hb_store h) of (r, s) \<Rightarrow> Q r (h\<lparr>hb_store := s\<rparr>))"
  by (simp add: wp_def db_def split: prod.splits)

lemma wp_db_log [simp]: "wp (db_log m) Q h \<longleftrightarrow> Q () (h\<lparr>hb_store := snd (m (hb_store h))\<rparr>)"
  by (simp add: db_log_def wp_db split: prod.splits)

lemma run_gets [simp]: "run_state (gets f) s = (f s, s)"
  by (simp add: gets_def)

lemma run_modify [simp]: "run_state (modify f) s = ((), f s)"
  by (simp add: modify_def)

lemma run_db [simp]: "run_state (db m) h = (case m (hb_store h) of (r, s) \<Rightarrow> (r, h\<lparr>hb_store := s\<rparr>))"
  by (simp add: db_def)

lemma run_db_log [simp]: "run_state (db_log m) h = ((), h\<lparr>hb_store := snd (m (hb_store h))\<rparr>)"
  by (simp add: db_log_def split: prod.splits)

section \<open>Statements and failures\<close>

text \<open>Whether the next statement fails, and the database after its failure was drawn.\<close>

definition fault :: "store \<Rightarrow> bool" where
  "fault s \<longleftrightarrow> (case st_faults s of True # _ \<Rightarrow> True | _ \<Rightarrow> False)"

definition tick :: "store \<Rightarrow> store" where
  "tick s = s\<lparr>st_faults := tl (st_faults s)\<rparr>"

lemma stmt_tick: "stmt f s = (if fault s then (Inl ErrDB, tick s) else f (tick s))"
  by (cases s) (auto simp: stmt_def fault_def tick_def split: list.splits bool.splits)

lemma query_tick: "query f s = (if fault s then Inl ErrDB else Inr (f (tick s)), tick s)"
  by (simp add: query_def stmt_tick)

lemma query_row_tick:
  "query_row f s =
     (if fault s then Inl ErrDB else case f (tick s) of None \<Rightarrow> Inl ErrNotFound | Some x \<Rightarrow> Inr x, tick s)"
  by (simp add: query_row_def stmt_tick)

lemma exec_tick: "exec f s = (if fault s then (Inl ErrDB, tick s) else (Inr (), f (tick s)))"
  by (simp add: exec_def stmt_tick)

lemma exec_affected_tick:
  "exec_affected hit f s =
     (if fault s then (Inl ErrDB, tick s) else if hit (tick s) then (Inr (), f (tick s)) else (Inl ErrNotFound, tick s))"
  by (simp add: exec_affected_def stmt_tick)

lemmas tick_simps = stmt_tick query_tick query_row_tick exec_tick exec_affected_tick

lemma tick_fields [simp]:
  "st_users (tick s) = st_users s" "st_sessions (tick s) = st_sessions s" "st_enroll (tick s) = st_enroll s"
  "st_systems (tick s) = st_systems s" "st_metrics (tick s) = st_metrics s" "st_audit (tick s) = st_audit s"
  "st_passkeys (tick s) = st_passkeys s" "st_notifiers (tick s) = st_notifiers s" "st_rules (tick s) = st_rules s"
  "st_alerts (tick s) = st_alerts s" "st_scripts (tick s) = st_scripts s" "st_runs (tick s) = st_runs s"
  by (simp_all add: tick_def)

lemma no_faults [simp]: "st_faults s = [] \<Longrightarrow> \<not> fault s" "st_faults s = [] \<Longrightarrow> tick s = s"
  by (simp_all add: fault_def tick_def)

section \<open>Activity log\<close>

definition maxNameLen :: nat where "maxNameLen = 64"

text \<open>The loop of \<open>truncate\<close>: back to the start of a character.\<close>

fun truncate_from :: "string \<Rightarrow> nat \<Rightarrow> nat" where
  "truncate_from s 0 = 0"
| "truncate_from s (Suc n) = (if \<not> RuneStart (s ! Suc n) then truncate_from s n else Suc n)"

definition truncate_str :: "string \<Rightarrow> nat \<Rightarrow> string" where
  "truncate_str s n = (if length s \<le> n then s else take (truncate_from s n) s)"

definition audit ::
    "env \<Rightarrow> request option \<Rightarrow> string \<Rightarrow> string \<Rightarrow> system option \<Rightarrow> detail list \<Rightarrow> unit hub_op" where
  "audit ev r username action sys d =
     db_log (AddAudit (ev_now ev)
       \<lparr>ae_id = 0, ae_time = 0, ae_username = truncate_str username maxNameLen, ae_action = action,
        ae_system_id = map_option sy_id sys, ae_system_name = (case sys of None \<Rightarrow> [] | Some x \<Rightarrow> sy_name x),
        ae_remote = map_option clientIP r, ae_detail = d\<rparr>)"

lemma AddAudit_fields [simp]:
  "st_users (snd (AddAudit t e s)) = st_users s" "st_sessions (snd (AddAudit t e s)) = st_sessions s"
  "st_enroll (snd (AddAudit t e s)) = st_enroll s" "st_systems (snd (AddAudit t e s)) = st_systems s"
  "st_metrics (snd (AddAudit t e s)) = st_metrics s" "st_passkeys (snd (AddAudit t e s)) = st_passkeys s"
  "st_notifiers (snd (AddAudit t e s)) = st_notifiers s" "st_rules (snd (AddAudit t e s)) = st_rules s"
  "st_alerts (snd (AddAudit t e s)) = st_alerts s" "st_scripts (snd (AddAudit t e s)) = st_scripts s"
  "st_runs (snd (AddAudit t e s)) = st_runs s" "st_faults (snd (AddAudit t e s)) = tl (st_faults s)"
  by (simp_all add: AddAudit_def exec_tick, simp_all add: tick_def)

text \<open>The activity log after an entry, or unchanged when writing it failed.\<close>

lemma AddAudit_log:
  "st_audit (snd (AddAudit t e s)) =
     (if fault s then st_audit s
      else st_audit s @ [e\<lparr>ae_id := next_rowid ae_id (st_audit s),
                           ae_time := (if ae_time e = 0 then unix_of t else ae_time e)\<rparr>])"
  by (simp add: AddAudit_def exec_tick)

record auditDTO =
  ad_entries :: "audit_entry list"
  ad_more :: bool

definition getAudit :: "string \<Rightarrow> string \<Rightarrow> session \<Rightarrow> auditDTO reply hub_op" where
  "getAudit before limit s = do {
     let before = fst (ParseInt before);
     let limit = fst (ParseInt limit);
     let limit = (if limit \<le> 0 \<or> 200 < limit then 50 else nat limit);
     let name = (if Can (ss_user s) RoleAdmin then [] else u_username (ss_user s));
     r \<leftarrow> db (AuditOf name before (limit + 1));
     (case r of
        Inl _ \<Rightarrow> return internalError
      | Inr entries \<Rightarrow>
          return (WriteJSON 200 \<lparr>ad_entries = take limit entries, ad_more = limit < length entries\<rparr>))
   }"

section \<open>Connections of sessions\<close>

definition track :: "session \<Rightarrow> string \<Rightarrow> nat hub_op" where
  "track s role = do {
     ref \<leftarrow> gets hb_next_ref;
     modify (\<lambda>h. h\<lparr>hb_next_ref := Suc ref,
       hb_conns := \<lparr>cn_ref = ref, cn_session = ss_token s, cn_user = u_id (ss_user s), cn_role = role\<rparr> # hb_conns h\<rparr>);
     return ref
   }"

definition untrack :: "nat \<Rightarrow> unit hub_op" where
  "untrack ref = modify (\<lambda>h. h\<lparr>hb_conns := filter (\<lambda>c. cn_ref c \<noteq> ref) (hb_conns h)\<rparr>)"

definition closeConns :: "(sessionConn \<Rightarrow> bool) \<Rightarrow> unit hub_op" where
  "closeConns match = modify (\<lambda>h. h\<lparr>hb_stopped := map cn_ref (filter match (hb_conns h)) @ hb_stopped h\<rparr>)"

definition closeSessionConns :: "string \<Rightarrow> unit hub_op" where
  "closeSessionConns token = closeConns (\<lambda>c. cn_session c = token)"

definition closeConnsBeyondRole :: "int \<Rightarrow> string \<Rightarrow> unit hub_op" where
  "closeConnsBeyondRole uid role = closeConns (\<lambda>c. cn_user c = uid \<and> \<not> RoleIncludes role (cn_role c))"

definition signOutUser :: "int \<Rightarrow> string option \<Rightarrow> (db_error + unit) hub_op" where
  "signOutUser uid keep = do {
     r \<leftarrow> (case keep of
            Some k \<Rightarrow> db (DeleteOtherSessions uid k)
          | None \<Rightarrow> db (DeleteSessions uid));
     closeConns (\<lambda>c. cn_user c = uid \<and> cn_session c \<noteq> (case keep of None \<Rightarrow> [] | Some k \<Rightarrow> k));
     return r
   }"

section \<open>Broker\<close>

text \<open>A channel of 64 events per subscriber; a full one misses the event.\<close>

definition broker_publish :: "event \<Rightarrow> broker \<Rightarrow> broker" where
  "broker_publish e b = b\<lparr>br_subs := map (\<lambda>(c, q). (c, if length q < 64 then q @ [e] else q)) (br_subs b)\<rparr>"

definition publish :: "event \<Rightarrow> unit hub_op" where
  "publish e = modify (\<lambda>h. h\<lparr>hb_broker := broker_publish e (hb_broker h)\<rparr>)"

definition spawn :: "task \<Rightarrow> unit hub_op" where
  "spawn t = modify (\<lambda>h. h\<lparr>hb_tasks := hb_tasks h @ [t]\<rparr>)"

section \<open>A hub to evaluate on\<close>

text \<open>
  An empty hub, a request from its own page and a toy instance of the cryptographic library,
  on which the statements of the components are evaluated.
\<close>

definition demo_crypto :: crypto where
  "demo_crypto = \<lparr>sha256 = (\<lambda>s. take 32 (s @ replicate 32 CHR 0x00)), ed25519_verify = (\<lambda>k m sig. sig = k),
     ecdsa_verify = (\<lambda>k m sig. sig = k), rsa_verify = (\<lambda>k m sig. sig = k), parse_pkix = (\<lambda>k. Some (Ed25519Key k)),
     bcrypt_generate = (\<lambda>p. Some (CHR ''$'' # p)), bcrypt_compare = (\<lambda>h p. h = CHR ''$'' # p),
     totp_code = (\<lambda>s n. Some (if even n then ''000000'' else ''111111''))\<rparr>"

definition demo_env :: "go_time \<Rightarrow> string \<Rightarrow> env" where
  "demo_env now rnd = \<lparr>ev_crypto = demo_crypto, ev_now = now, ev_rand = rnd, ev_rand2 = ''h'' @ rnd, ev_ord = [],
     ev_cancelled = False\<rparr>"

definition demo_request :: request where
  "demo_request = \<lparr>rq_remote = Peer (Addr4 1) 4711, rq_xff = [], rq_xfp = [], rq_tls = True, rq_host = ''h'',
     rq_origin = ''https://h'', rq_cookie = []\<rparr>"

definition empty_hub :: hub where
  "empty_hub = \<lparr>hb_public_url = [], hb_store = empty_store, hb_broker = \<lparr>br_subs = []\<rparr>, hb_limiter = newLoginLimiter,
     hb_alerts = \<lparr>eg_rules = [], eg_states = (\<lambda>_. None), eg_offline = (\<lambda>_. None), eg_started = 0\<rparr>,
     hb_totp_used = (\<lambda>_. 0), hb_challenges = [], hb_agents = (\<lambda>_. None), hb_states = (\<lambda>_. None), hb_conns = [],
     hb_runs = (\<lambda>_. None), hb_live = False, hb_idle_timer = False, hb_stopped = [], hb_closed = [], hb_sent = [], hb_tasks = [],
     hb_next_ref = 0\<rparr>"

definition demo_info :: system_info where
  "demo_info = \<lparr>si_hostname = ''box'', si_os = ''linux'', si_platform = [], si_platform_version = [], si_kernel = [],
     si_arch = ''amd64'', si_cpu_model = [], si_cores = 1, si_mem_total = 0, si_interfaces = []\<rparr>"

definition demo_metrics :: "rat \<Rightarrow> metrics" where
  "demo_metrics cpu = \<lparr>mt_time = 0, mt_cpu = cpu, mt_mem_used = 0, mt_mem_total = 0, mt_swap_used = 0, mt_swap_total = 0,
     mt_disk_used = 0, mt_disk_total = 0, mt_disk_read = 0, mt_disk_write = 0, mt_net_rx = 0, mt_net_tx = 0, mt_load1 = 0,
     mt_load5 = 0, mt_load15 = 0, mt_uptime = 0, mt_battery = None, mt_filesystems = [], mt_containers = []\<rparr>"

definition demo_system :: "int \<Rightarrow> string \<Rightarrow> system" where
  "demo_system i name = \<lparr>sy_id = i, sy_name = name, sy_fingerprint = name, sy_info = demo_info, sy_agent_version = [],
     sy_last_seen = 0, sy_last_metrics = None, sy_created_at = 0\<rparr>"

end
