(* ===== verification/WebAuthn.thy ===== *)
theory WebAuthn
  imports HubState
begin

text \<open>
  The relying party of \<open>hub/webauthn.go\<close>: pending challenges, the checks on what the browser
  signed, authenticator data, keys and signatures. What \<open>encoding/json\<close> makes of client data
  and \<open>net/url\<close> of an origin are arguments (\<open>web\<close>): both are decoders whose result is all the
  code looks at.
\<close>

unbundle bit_operations_syntax

section \<open>Data\<close>

definition algES256 :: int where "algES256 = - 7"
definition algEdDSA :: int where "algEdDSA = - 8"
definition algRS256 :: int where "algRS256 = - 257"

definition flagUserPresent :: "8 word" where "flagUserPresent = 0x01"
definition flagUserVerified :: "8 word" where "flagUserVerified = 0x04"
definition flagAttested :: "8 word" where "flagAttested = 0x40"

definition passkeyTimeout :: duration where "passkeyTimeout = 5 * minute"
definition maxChallenges :: nat where "maxChallenges = 1000"

record assertion =
  as_id :: string
  as_client_data :: string
  as_authenticator_data :: string
  as_signature :: string
  as_user_handle :: string

record attestation =
  at_id :: string
  at_client_data :: string
  at_authenticator_data :: string
  at_public_key :: string
  at_algorithm :: int

record clientData =
  cd_type :: string
  cd_challenge :: string
  cd_origin :: string
  cd_cross :: bool

record authData =
  ad_flags :: "8 word"
  ad_sign_count :: "32 word"
  ad_credential :: string

record url =
  url_host :: string
  url_hostname :: string

text \<open>
  The decoders, the order in which Go ranges over the pending challenges, and the text of
  an error of the database driver.
\<close>

record web =
  web_url :: "string \<Rightarrow> url option"
  web_client_data :: "string \<Rightarrow> clientData option"
  web_keys :: "string list"
  web_db_error :: string

section \<open>Challenges\<close>

type_synonym challenges = "(string \<times> challenge) list"

definition del_challenge :: "string \<Rightarrow> challenges \<Rightarrow> challenges" where
  "del_challenge k m = filter (\<lambda>(k', _). k' \<noteq> k) m"

text \<open>The second loop of \<open>add\<close>, over the keys in the order of the map.\<close>

fun evict_challenges :: "string list \<Rightarrow> challenges \<Rightarrow> challenges" where
  "evict_challenges [] m = m"
| "evict_challenges (k # ks) m =
     (if length m < maxChallenges then m else evict_challenges ks (del_challenge k m))"

definition challenge_add ::
    "go_time \<Rightarrow> string list \<Rightarrow> string \<Rightarrow> string \<Rightarrow> string \<Rightarrow> challenges \<Rightarrow> challenges" where
  "challenge_add now ord key purpose session m =
     (let m = (if maxChallenges \<le> length m
               then evict_challenges ord (filter (\<lambda>(_, c). \<not> ch_expires c < now) m)
               else m)
      in (key, \<lparr>ch_purpose = purpose, ch_session = session, ch_expires = now + passkeyTimeout\<rparr>) # del_challenge key m)"

definition challenge_take :: "go_time \<Rightarrow> string \<Rightarrow> string \<Rightarrow> string \<Rightarrow> challenges \<Rightarrow> bool \<times> challenges" where
  "challenge_take now key purpose session m =
     (case map_of m key of
        None \<Rightarrow> (False, m)
      | Some c \<Rightarrow>
          (ch_purpose c = purpose \<and> ch_session c = session \<and> now < ch_expires c, del_challenge key m))"

text \<open>The operations on the hub; a challenge is 32 random bytes.\<close>

definition add_challenge :: "env \<Rightarrow> web \<Rightarrow> string \<Rightarrow> string \<Rightarrow> string hub_op" where
  "add_challenge ev w purpose session = do {
     let key = b64_url_encode (ev_rand ev);
     modify (\<lambda>h. h\<lparr>hb_challenges := challenge_add (ev_now ev) (web_keys w) key purpose session (hb_challenges h)\<rparr>);
     return key
   }"

definition take_challenge :: "env \<Rightarrow> string \<Rightarrow> string \<Rightarrow> string \<Rightarrow> bool hub_op" where
  "take_challenge ev key purpose session = do {
     r \<leftarrow> gets (\<lambda>h. challenge_take (ev_now ev) key purpose session (hb_challenges h));
     modify (\<lambda>h. h\<lparr>hb_challenges := snd r\<rparr>);
     return (fst r)
   }"

section \<open>Relying party\<close>

datatype passkey_error = Msg string | DbErr db_error

fun error_text :: "web \<Rightarrow> passkey_error \<Rightarrow> string" where
  "error_text w (Msg m) = m"
| "error_text w (DbErr _) = web_db_error w"

definition relyingParty :: "web \<Rightarrow> request \<Rightarrow> passkey_error + string \<times> string" where
  "relyingParty w r =
     (case web_url w (rq_origin r) of
        Some u \<Rightarrow>
          (if rq_origin r = [] \<or> url_host u \<noteq> rq_host r then Inl (Msg ''passkeys only work from the hub's own page'')
           else Inr (rq_origin r, url_hostname u))
      | None \<Rightarrow> Inl (Msg ''passkeys only work from the hub's own page''))"

definition checkClientData ::
    "env \<Rightarrow> web \<Rightarrow> string \<Rightarrow> string \<Rightarrow> string \<Rightarrow> string \<Rightarrow> string \<Rightarrow> passkey_error option hub_op" where
  "checkClientData ev w raw typ origin purpose session =
     (case web_client_data w raw of
        None \<Rightarrow> return (Some (Msg ''invalid passkey response''))
      | Some cd \<Rightarrow> do {
          ok \<leftarrow> take_challenge ev (cd_challenge cd) purpose session;
          return
            (if \<not> ok then Some (Msg ''the passkey request expired, try again'')
             else if cd_type cd \<noteq> typ \<or> cd_cross cd then Some (Msg ''invalid passkey response'')
             else if cd_origin cd \<noteq> origin then Some (Msg ''the passkey response is for another site'')
             else None)
        })"

definition be16 :: "string \<Rightarrow> nat" where
  "be16 b = byte (b ! 0) * 256 + byte (b ! 1)"

definition be32 :: "string \<Rightarrow> 32 word" where
  "be32 b = of_nat (((byte (b ! 0) * 256 + byte (b ! 1)) * 256 + byte (b ! 2)) * 256 + byte (b ! 3))"

definition parseAuthData :: "crypto \<Rightarrow> string \<Rightarrow> string \<Rightarrow> passkey_error + authData" where
  "parseAuthData c b rpID =
     (if length b < 37 then Inl (Msg ''invalid authenticator data'')
      else if take 32 b \<noteq> sha256 c rpID then Inl (Msg ''the passkey belongs to another site'')
      else
        (let flags = of_nat (byte (b ! 32)); count = be32 (take 4 (drop 33 b)) in
         if flags AND flagUserPresent = 0 \<or> flags AND flagUserVerified = 0
         then Inl (Msg ''the authenticator did not verify you (PIN or biometrics)'')
         else if flags AND flagAttested \<noteq> 0 then
           (if length b < 55 then Inl (Msg ''invalid authenticator data'')
            else
              (let n = be16 (take 2 (drop 53 b)) in
               if n = 0 \<or> length b < 55 + n then Inl (Msg ''invalid authenticator data'')
               else Inr \<lparr>ad_flags = flags, ad_sign_count = count, ad_credential = take n (drop 55 b)\<rparr>))
         else Inr \<lparr>ad_flags = flags, ad_sign_count = count, ad_credential = []\<rparr>))"

definition parsePublicKey :: "crypto \<Rightarrow> string \<Rightarrow> int \<Rightarrow> passkey_error option" where
  "parsePublicKey c spki alg =
     (case parse_pkix c spki of
        None \<Rightarrow> Some (Msg ''invalid passkey public key'')
      | Some k \<Rightarrow>
          (if (case k of
                 EcdsaKey p256 _ \<Rightarrow> alg = algES256 \<and> p256
               | Ed25519Key _ \<Rightarrow> alg = algEdDSA
               | RsaKey bits _ \<Rightarrow> alg = algRS256 \<and> 2048 \<le> bits)
           then None
           else Some (Msg ''this passkey uses an unsupported algorithm'')))"

definition verifySignature :: "crypto \<Rightarrow> string \<Rightarrow> int \<Rightarrow> string \<Rightarrow> string \<Rightarrow> string \<Rightarrow> bool" where
  "verifySignature c spki alg authenticatorData clientDataJSON sig =
     (case parse_pkix c spki of
        None \<Rightarrow> False
      | Some k \<Rightarrow>
          (let signed = authenticatorData @ sha256 c clientDataJSON; digest = sha256 c signed in
           case k of
             EcdsaKey _ q \<Rightarrow> alg = algES256 \<and> ecdsa_verify c q digest sig
           | Ed25519Key q \<Rightarrow> alg = algEdDSA \<and> ed25519_verify c q signed sig
           | RsaKey _ q \<Rightarrow> alg = algRS256 \<and> rsa_verify c q digest sig))"

fun decodeFields :: "string list \<Rightarrow> string list option" where
  "decodeFields [] = Some []"
| "decodeFields (f # fs) =
     (case b64_url_decode f of
        None \<Rightarrow> None
      | Some b \<Rightarrow> map_option (\<lambda>bs. b # bs) (decodeFields fs))"

section \<open>Authenticator data\<close>

text \<open>Writing authenticator data in the layout of WebAuthn section 6.1, the reference for the parser.\<close>

definition put32 :: "32 word \<Rightarrow> string" where
  "put32 n = map (\<lambda>i. char_of (unat (drop_bit i n) mod 256)) [24, 16, 8, 0]"

definition put16 :: "nat \<Rightarrow> string" where
  "put16 n = [char_of (n div 256), char_of (n mod 256)]"

definition writeAuthData :: "crypto \<Rightarrow> string \<Rightarrow> authData \<Rightarrow> string \<Rightarrow> string \<Rightarrow> string" where
  "writeAuthData c rpID ad aaguid cose =
     sha256 c rpID @ [char_of (unat (ad_flags ad))] @ put32 (ad_sign_count ad) @
     (if ad_flags ad AND flagAttested \<noteq> 0 then aaguid @ put16 (length (ad_credential ad)) @ ad_credential ad @ cose else cose)"

lemma be16_put16: "n < 65536 \<Longrightarrow> be16 (put16 n) = n"
proof -
  assume "n < 65536"
  then have "byte (char_of (n div 256)) = n div 256" by (intro byte_char_of) linarith
  then show ?thesis by (simp add: be16_def put16_def byte_char_of)
qed

lemma bytes4: "x < 4294967296 \<Longrightarrow>
    (((x div 16777216 mod 256) * 256 + x div 65536 mod 256) * 256 + x div 256 mod 256) * 256 + x mod 256 = (x :: nat)"
proof -
  assume "x < 4294967296"
  then have a: "x div 16777216 mod 256 = x div 16777216" by simp
  have b: "x div 65536 = 256 * (x div 16777216) + x div 65536 mod 256"
    using mult_div_mod_eq [of 256 "x div 65536"] by (simp add: div_mult2_eq [symmetric])
  have c: "x div 256 = 256 * (x div 65536) + x div 256 mod 256"
    using mult_div_mod_eq [of 256 "x div 256"] by (simp add: div_mult2_eq [symmetric])
  have d: "x = 256 * (x div 256) + x mod 256" by simp
  have join: "x = 256 * C + d' \<Longrightarrow> C = 256 * B + c' \<Longrightarrow> B = 256 * A + b' \<Longrightarrow>
      ((A * 256 + b') * 256 + c') * 256 + d' = x" for A B C b' c' d' :: nat
    by simp
  show ?thesis unfolding a by (rule join [OF d c b])
qed

lemma be32_put32: "be32 (put32 n) = n"
proof -
  have m: "byte (char_of (k mod 256 :: nat)) = k mod 256" for k by (rule byte_char_of) simp
  have d: "unat (drop_bit i n) = unat n div 2 ^ i" for i
    by (subst unat_drop_bit_eq) (rule drop_bit_eq_div)
  have b: "be32 [char_of (x1 mod 256), char_of (x2 mod 256), char_of (x3 mod 256), char_of (x4 mod 256)] =
      of_nat (((x1 mod 256 * 256 + x2 mod 256) * 256 + x3 mod 256) * 256 + x4 mod 256)" for x1 x2 x3 x4 :: nat
    unfolding be32_def using m [of x1] m [of x2] m [of x3] m [of x4] by (simp del: of_char_of)
  have "be32 (put32 n) = of_nat ((((unat n div 2 ^ 24 mod 256) * 256 + unat n div 2 ^ 16 mod 256) * 256
      + unat n div 2 ^ 8 mod 256) * 256 + unat n div 2 ^ 0 mod 256)"
    by (simp only: put32_def list.map d b)
  also have "\<dots> = of_nat (unat n)"
  proof -
    have "unat n < 2 ^ LENGTH(32)" by (rule unsigned_less)
    then have "unat n < 4294967296" by simp
    note join = bytes4 [OF this]
    have "(2::nat) ^ 24 = 16777216" "(2::nat) ^ 16 = 65536" "(2::nat) ^ 8 = 256" "(2::nat) ^ 0 = 1" by simp_all
    then show ?thesis by (simp only: div_by_1 join)
  qed
  finally show ?thesis by simp
qed

text \<open>
  Round trip: authenticator data written in the layout of the specification, for the
  site, with a verified user and, in a registration, a credential ID of at most 65535
  bytes, parses to exactly its flags, its counter and its credential ID, whatever key and
  extensions follow.
\<close>

theorem auth_data_round_trip:
  assumes hash: "length (sha256 c rpID) = 32" and aaguid: "length aaguid = 16"
    and flags: "ad_flags ad AND flagUserPresent \<noteq> 0" "ad_flags ad AND flagUserVerified \<noteq> 0"
    and cred: "if ad_flags ad AND flagAttested \<noteq> 0 then 0 < length (ad_credential ad) \<and> length (ad_credential ad) < 65536
               else ad_credential ad = []"
  shows "parseAuthData c (writeAuthData c rpID ad aaguid cose) rpID = Inr ad"
proof -
  let ?b = "writeAuthData c rpID ad aaguid cose"
  have put: "length (put32 (ad_sign_count ad)) = 4" "length (put16 n) = 2" for n
    by (simp_all add: put32_def put16_def)
  have "unat (ad_flags ad) < 2 ^ LENGTH(8)" by (rule unsigned_less)
  then have fl: "word_of_nat (byte (char_of (unat (ad_flags ad)))) = ad_flags ad"
    by (simp add: byte_char_of del: of_char_of)
  have b: "length ?b \<ge> 37" "take 32 ?b = sha256 c rpID" "?b ! 32 = char_of (unat (ad_flags ad))"
    "take 4 (drop 33 ?b) = put32 (ad_sign_count ad)"
    using hash put by (auto simp: writeAuthData_def nth_append)
  show ?thesis
  proof (cases "ad_flags ad AND flagAttested = 0")
    case True
    with b fl flags cred show ?thesis
      by (cases ad) (simp add: parseAuthData_def be32_put32 Let_def)
  next
    case False
    let ?n = "length (ad_credential ad)"
    have n: "0 < ?n" "?n < 65536" using cred False by auto
    have d: "drop 53 ?b = put16 ?n @ ad_credential ad @ cose" "drop 55 ?b = ad_credential ad @ cose"
      "length ?b \<ge> 55 + ?n"
      using False hash put aaguid by (auto simp: writeAuthData_def)
    then have "be16 (take 2 (drop 53 ?b)) = ?n" by (simp add: be16_put16 [OF n(2)] put(2))
    with b d fl flags n False show ?thesis
      by (cases ad) (simp add: parseAuthData_def be32_put32 Let_def)
  qed
qed

theorem auth_data_round_trip_witness:
  "parseAuthData demo_crypto (writeAuthData demo_crypto ''h''
     \<lparr>ad_flags = 0x45, ad_sign_count = 77, ad_credential = ''id''\<rparr> ''0123456789abcdef'' ''key'') ''h''
   = Inr \<lparr>ad_flags = 0x45, ad_sign_count = 77, ad_credential = ''id''\<rparr>"
  by (rule auth_data_round_trip)
    (simp_all add: demo_crypto_def flagUserPresent_def flagUserVerified_def flagAttested_def)

section \<open>The life of a challenge\<close>

text \<open>
  The pending challenges over time, with every challenge issued and every accepted use
  (key, purpose, session, time). A key is 32 fresh random bytes: it was not issued before.
\<close>

record ch_sys =
  cs_m :: challenges
  cs_clock :: go_time
  cs_issued :: challenges
  cs_accepted :: "(string \<times> string \<times> string \<times> go_time) list"

inductive ch_step :: "ch_sys \<Rightarrow> ch_sys \<Rightarrow> bool" where
  ch_add: "cs_clock s \<le> now \<Longrightarrow> key \<notin> fst ` set (cs_issued s) \<Longrightarrow> fst ` set (cs_m s) \<subseteq> set ord \<Longrightarrow>
    ch_step s (s\<lparr>cs_clock := now, cs_m := challenge_add now ord key purpose session (cs_m s),
      cs_issued := (key, \<lparr>ch_purpose = purpose, ch_session = session, ch_expires = now + passkeyTimeout\<rparr>) # cs_issued s\<rparr>)"
| ch_take: "cs_clock s \<le> now \<Longrightarrow> challenge_take now key purpose session (cs_m s) = (ok, m) \<Longrightarrow>
    ch_step s (s\<lparr>cs_clock := now, cs_m := m,
      cs_accepted := (if ok then (key, purpose, session, now) # cs_accepted s else cs_accepted s)\<rparr>)"

definition ch_start :: "go_time \<Rightarrow> ch_sys" where
  "ch_start t = \<lparr>cs_m = [], cs_clock = t, cs_issued = [], cs_accepted = []\<rparr>"

definition use_ok :: "challenges \<Rightarrow> string \<times> string \<times> string \<times> go_time \<Rightarrow> bool" where
  "use_ok issued u \<longleftrightarrow>
     (case u of (k, p, se, t) \<Rightarrow>
        \<exists>c. (k, c) \<in> set issued \<and> ch_purpose c = p \<and> ch_session c = se \<and>
            ch_expires c - passkeyTimeout \<le> t \<and> t < ch_expires c)"

definition ch_inv :: "ch_sys \<Rightarrow> bool" where
  "ch_inv s \<longleftrightarrow>
     length (cs_m s) \<le> maxChallenges \<and> distinct (map fst (cs_m s)) \<and> set (cs_m s) \<subseteq> set (cs_issued s) \<and>
     (\<forall>(k, c) \<in> set (cs_issued s). ch_expires c - passkeyTimeout \<le> cs_clock s) \<and>
     distinct (map fst (cs_accepted s)) \<and> fst ` set (cs_accepted s) \<inter> fst ` set (cs_m s) = {} \<and>
     (\<forall>u \<in> set (cs_accepted s). use_ok (cs_issued s) u)"

lemma del_challenge_set: "set (del_challenge k m) = {x \<in> set m. fst x \<noteq> k}"
  by (auto simp: del_challenge_def)

lemma del_challenge_distinct: "distinct (map fst m) \<Longrightarrow> distinct (map fst (del_challenge k m))"
  by (simp add: del_challenge_def distinct_map_filter)

lemma evict_challenges_sub: "set (evict_challenges ks m) \<subseteq> set m"
  by (induction ks m rule: evict_challenges.induct) (auto simp: del_challenge_set)

lemma evict_challenges_distinct: "distinct (map fst m) \<Longrightarrow> distinct (map fst (evict_challenges ks m))"
  by (induction ks m rule: evict_challenges.induct) (auto simp: del_challenge_distinct)

lemma evict_challenges_room: "fst ` set m \<subseteq> set ks \<Longrightarrow> length (evict_challenges ks m) < maxChallenges"
proof (induction ks m rule: evict_challenges.induct)
  case (1 m)
  then show ?case by (simp add: maxChallenges_def)
next
  case (2 k ks m)
  then show ?case by (auto simp: del_challenge_set)
qed

lemma challenge_add_set:
  "set (challenge_add now ord key p se m) \<subseteq>
     insert (key, \<lparr>ch_purpose = p, ch_session = se, ch_expires = now + passkeyTimeout\<rparr>) {x \<in> set m. fst x \<noteq> key}"
  using evict_challenges_sub [of ord "filter (\<lambda>(_, c). \<not> ch_expires c < now) m"]
  by (auto simp: challenge_add_def Let_def del_challenge_set split: if_splits)

lemma challenge_add_distinct: "distinct (map fst m) \<Longrightarrow> distinct (map fst (challenge_add now ord key p se m))"
  by (auto simp: challenge_add_def Let_def del_challenge_set
      intro!: del_challenge_distinct evict_challenges_distinct distinct_map_filter)

lemma challenge_add_bound:
  assumes "length m \<le> maxChallenges" "fst ` set m \<subseteq> set ord"
  shows "length (challenge_add now ord key p se m) \<le> maxChallenges"
proof -
  have d: "length (del_challenge key m') \<le> length m'" for m' by (simp add: del_challenge_def)
  let ?f = "filter (\<lambda>(_, c). \<not> ch_expires c < now) m"
  have "fst ` set ?f \<subseteq> set ord" using assms(2) by auto
  then have "length (evict_challenges ord ?f) < maxChallenges" by (rule evict_challenges_room)
  with d [of m] d [of "evict_challenges ord ?f"] assms(1) show ?thesis
    by (auto simp: challenge_add_def Let_def)
qed

lemma challenge_take_cases:
  assumes "challenge_take now key p se m = (ok, m')"
  shows "set m' \<subseteq> set m" "length m' \<le> length m" "distinct (map fst m) \<Longrightarrow> distinct (map fst m')"
    "ok \<Longrightarrow> key \<notin> fst ` set m' \<and> (\<exists>c. (key, c) \<in> set m \<and> ch_purpose c = p \<and> ch_session c = se \<and> now < ch_expires c)"
  using assms
  by (auto simp: challenge_take_def del_challenge_def distinct_map_filter dest: map_of_SomeD split: option.splits)

lemma ch_inv_start: "ch_inv (ch_start t)"
  by (simp add: ch_inv_def ch_start_def)

lemma ch_inv_add:
  assumes inv: "ch_inv s" and now: "cs_clock s \<le> now" and key: "key \<notin> fst ` set (cs_issued s)"
    and ord: "fst ` set (cs_m s) \<subseteq> set ord"
  shows "ch_inv (s\<lparr>cs_clock := now, cs_m := challenge_add now ord key purpose session (cs_m s),
      cs_issued := (key, \<lparr>ch_purpose = purpose, ch_session = session, ch_expires = now + passkeyTimeout\<rparr>) # cs_issued s\<rparr>)"
proof -
  let ?c = "\<lparr>ch_purpose = purpose, ch_session = session, ch_expires = now + passkeyTimeout\<rparr>"
  have u: "use_ok (cs_issued s) u \<Longrightarrow> use_ok ((key, ?c) # cs_issued s) u" for u
    by (fastforce simp: use_ok_def split: prod.splits)
  have a: "key \<notin> fst ` set (cs_accepted s)"
  proof
    assume "key \<in> fst ` set (cs_accepted s)"
    then obtain u where "u \<in> set (cs_accepted s)" "fst u = key" by auto
    moreover from this inv have "use_ok (cs_issued s) u" by (simp add: ch_inv_def)
    ultimately have "key \<in> fst ` set (cs_issued s)" by (force simp: use_ok_def)
    with key show False by simp
  qed
  have dis: "fst ` set (cs_accepted s) \<inter> fst ` set (cs_m s) = {}" using inv by (simp add: ch_inv_def)
  note m = challenge_add_set [of now ord key purpose session "cs_m s"]
  have "length (challenge_add now ord key purpose session (cs_m s)) \<le> maxChallenges"
    using challenge_add_bound inv ord by (simp add: ch_inv_def)
  moreover have "distinct (map fst (challenge_add now ord key purpose session (cs_m s)))"
    using challenge_add_distinct inv by (simp add: ch_inv_def)
  moreover have "set (challenge_add now ord key purpose session (cs_m s)) \<subseteq> insert (key, ?c) (set (cs_issued s))"
    using m inv by (auto simp: ch_inv_def)
  moreover have "fst ` set (challenge_add now ord key purpose session (cs_m s)) \<subseteq> insert key (fst ` set (cs_m s))"
    using m by auto
  then have "fst ` set (cs_accepted s) \<inter> fst ` set (challenge_add now ord key purpose session (cs_m s)) = {}"
    using dis a by blast
  moreover have "\<forall>(k, c) \<in> insert (key, ?c) (set (cs_issued s)). ch_expires c - passkeyTimeout \<le> now"
    using inv now by (auto simp: ch_inv_def)
  moreover have "\<forall>x \<in> set (cs_accepted s). use_ok ((key, ?c) # cs_issued s) x"
    using inv u by (simp add: ch_inv_def)
  ultimately show ?thesis
    using inv unfolding ch_inv_def by simp
qed

lemma ch_inv_take:
  assumes inv: "ch_inv s" and now: "cs_clock s \<le> now"
    and take: "challenge_take now key purpose session (cs_m s) = (ok, m)"
  shows "ch_inv (s\<lparr>cs_clock := now, cs_m := m,
      cs_accepted := (if ok then (key, purpose, session, now) # cs_accepted s else cs_accepted s)\<rparr>)"
proof -
  note t = challenge_take_cases [OF take]
  have c: "\<forall>(k, c) \<in> set (cs_issued s). ch_expires c - passkeyTimeout \<le> now"
    using inv now by (auto simp: ch_inv_def)
  have sub: "set (cs_m s) \<subseteq> set (cs_issued s)" and dis: "fst ` set (cs_accepted s) \<inter> fst ` set (cs_m s) = {}"
    using inv by (simp_all add: ch_inv_def)
  have u: "use_ok (cs_issued s) (key, purpose, session, now) \<and> key \<notin> fst ` set (cs_accepted s)" if ok
  proof -
    from t(4) [OF that] obtain x where x: "(key, x) \<in> set (cs_m s)" "ch_purpose x = purpose" "ch_session x = session"
      "now < ch_expires x" by blast
    moreover have "ch_expires x - passkeyTimeout \<le> now" using x(1) sub c by auto
    moreover have "key \<in> fst ` set (cs_m s)" using x(1) by force
    ultimately show ?thesis using sub dis unfolding use_ok_def by blast
  qed
  have d: "fst ` set (cs_accepted s) \<inter> fst ` set m = {}"
    using dis t(1) by blast
  have "length m \<le> maxChallenges" "set m \<subseteq> set (cs_issued s)" "distinct (map fst m)"
    using t(1-3) inv by (auto simp: ch_inv_def)
  with inv u d c t(4) show ?thesis
    unfolding ch_inv_def by (cases ok) simp_all
qed

lemma ch_inv_step: "ch_inv s \<Longrightarrow> ch_step s s' \<Longrightarrow> ch_inv s'"
  by (erule ch_step.cases) (hypsubst, (rule ch_inv_add | rule ch_inv_take); assumption)+

interpretation pending: invariant_system "\<lambda>s. \<exists>t. s = ch_start t" ch_step ch_inv
  by unfold_locales (auto simp: ch_inv_start ch_inv_step)

text \<open>
  (C22) Challenges are single-use and bounded: over any sequence of additions and uses, at
  most 1000 are pending, no challenge is accepted twice, and an accepted one was issued for
  the same purpose and the same session, at most five minutes before.
\<close>

theorem challenges_single_use:
  assumes "reaches ch_step (ch_start t) s"
  shows "length (cs_m s) \<le> maxChallenges \<and> distinct (map fst (cs_accepted s)) \<and>
    (\<forall>u \<in> set (cs_accepted s). use_ok (cs_issued s) u)"
  using pending.inv_reachable [OF _ assms] by (auto simp: ch_inv_def)

definition demo_issued :: ch_sys where
  "demo_issued = (ch_start 0)\<lparr>cs_clock := 5, cs_m := challenge_add 5 [] ''k'' ''elevate'' ''s'' [],
     cs_issued := [(''k'', \<lparr>ch_purpose = ''elevate'', ch_session = ''s'', ch_expires = 5 + passkeyTimeout\<rparr>)]\<rparr>"

definition demo_used :: ch_sys where
  "demo_used = demo_issued\<lparr>cs_clock := 9, cs_m := [], cs_accepted := [(''k'', ''elevate'', ''s'', 9)]\<rparr>"

lemma demo_used_reached: "reaches ch_step (ch_start 0) demo_used"
proof -
  have "ch_step (ch_start 0) demo_issued"
    using ch_add [of "ch_start 0" 5 "''k''" "[]" "''elevate''" "''s''"]
    by (simp add: demo_issued_def ch_start_def)
  then have a: "reaches ch_step (ch_start 0) demo_issued" by (rule reaches_single)
  have "challenge_take 9 ''k'' ''elevate'' ''s'' (cs_m demo_issued) = (True, [])"
    by (simp add: demo_issued_def challenge_take_def challenge_add_def del_challenge_def maxChallenges_def passkeyTimeout_def)
  moreover have "cs_clock demo_issued \<le> 9" "cs_accepted demo_issued = []" by (simp_all add: demo_issued_def ch_start_def)
  ultimately have "ch_step demo_issued demo_used"
    using ch_take [of demo_issued 9 "''k''" "''elevate''" "''s''" True "[]"] by (simp add: demo_used_def)
  with a show ?thesis by (rule reaches_step)
qed

theorem challenges_single_use_witness:
  "length (cs_m demo_used) \<le> maxChallenges \<and> distinct (map fst (cs_accepted demo_used)) \<and>
   list_all (use_ok (cs_issued demo_used)) (cs_accepted demo_used) \<and> length (cs_accepted demo_used) = 1"
  using challenges_single_use [OF demo_used_reached] by (simp add: demo_used_def)

end
