(* ===== verification/Sessions.thy ===== *)
theory Sessions
  imports WebAuthn
begin

text \<open>
  Sessions (\<open>hub/auth.go\<close>): who a request belongs to and what its role and its last
  re-authentication allow, starting a session, comparing passwords, and the TOTP codes of
  two-factor login.
\<close>

section \<open>Tokens and passwords\<close>

definition elevationTTL :: duration where "elevationTTL = 10 * minute"

definition sessionTTL :: duration where "sessionTTL = 30 * 24 * hour"

definition randomToken :: "env \<Rightarrow> string" where
  "randomToken ev = b64_url_encode (ev_rand ev)"

definition hashToken :: "env \<Rightarrow> string \<Rightarrow> string" where
  "hashToken ev token = sha256 (ev_crypto ev) token"

record credentials =
  cr_username :: string
  cr_password :: string
  cr_code :: string
  cr_passkey :: "assertion option"

definition validatePassword :: "string \<Rightarrow> string" where
  "validatePassword pw =
     (if length pw < 8 then ''password must be at least 8 characters''
      else if 72 < length pw then ''password must be at most 72 bytes''
      else [])"

text \<open>\<open>validate\<close> trims the user name in place: it returns the credentials too.\<close>

definition validate :: "credentials \<Rightarrow> string \<times> credentials" where
  "validate c =
     (let c = c\<lparr>cr_username := TrimSpace (cr_username c)\<rparr> in
      (if cr_username c = [] \<or> maxNameLen < RuneCountInString (cr_username c) then ''username must be 1-64 characters''
       else validatePassword (cr_password c), c))"

text \<open>The comparison waits for a free slot; a client that goes away meanwhile gets \<open>False\<close>.\<close>

definition passwordMatches :: "env \<Rightarrow> string \<Rightarrow> string \<Rightarrow> bool" where
  "passwordMatches ev hash password \<longleftrightarrow> \<not> ev_cancelled ev \<and> bcrypt_compare (ev_crypto ev) hash password"

section \<open>Access\<close>

definition requireUser :: "env \<Rightarrow> request \<Rightarrow> (session \<Rightarrow> 'a reply hub_op) \<Rightarrow> 'a reply hub_op" where
  "requireUser ev r next =
     (if rq_cookie r = [] then return (WriteError 401 ''not logged in'')
      else do {
        x \<leftarrow> db (Session (ev_now ev) (hashToken ev (rq_cookie r)));
        (case x of
           Inl _ \<Rightarrow> return (WriteError 401 ''not logged in'')
         | Inr s \<Rightarrow> next s)
      })"

definition requireRole :: "env \<Rightarrow> request \<Rightarrow> string \<Rightarrow> (session \<Rightarrow> 'a reply hub_op) \<Rightarrow> 'a reply hub_op" where
  "requireRole ev r role next = requireUser ev r (\<lambda>s.
     if \<not> Can (ss_user s) role then return (WriteError 403 (''your role ('' @ u_role (ss_user s) @ '') does not allow this''))
     else next s)"

definition requireElevated :: "env \<Rightarrow> session \<Rightarrow> bool" where
  "requireElevated ev s \<longleftrightarrow> unix_of (ev_now ev) \<le> ss_elevated s"

section \<open>Starting a session\<close>

record meDTO =
  me_id :: int
  me_username :: string
  me_role :: string
  me_totp :: bool
  me_passkeys :: nat
  me_elevated :: int

definition me :: "user \<Rightarrow> int \<Rightarrow> meDTO hub_op" where
  "me u elevatedUntil = do {
     keys \<leftarrow> db (Passkeys (u_id u));
     return \<lparr>me_id = u_id u, me_username = u_username u, me_role = u_role u, me_totp = u_totp_secret u \<noteq> [],
             me_passkeys = (case keys of Inl _ \<Rightarrow> 0 | Inr ks \<Rightarrow> length ks), me_elevated = elevatedUntil\<rparr>
   }"

text \<open>The session cookie (\<open>MaxAge\<close> -1 clears it), and what the login endpoints answer.\<close>

record cookie =
  ck_value :: string
  ck_expires :: go_time
  ck_clear :: bool
  ck_secure :: bool

datatype loginJSON = Me meDTO | TotpRequired string

type_synonym login_reply = "cookie option \<times> loginJSON reply"

definition startSession :: "env \<Rightarrow> request \<Rightarrow> user \<Rightarrow> login_reply hub_op" where
  "startSession ev r u = do {
     let token = randomToken ev;
     let expires = ev_now ev + sessionTTL;
     x \<leftarrow> db (CreateSession (hashToken ev token) (u_id u) expires);
     (case x of
        Inl _ \<Rightarrow> return (None, internalError)
      | Inr _ \<Rightarrow> do {
          db_log (SetLastLogin (u_id u) (ev_now ev));
          m \<leftarrow> me u 0;
          return (Some \<lparr>ck_value = token, ck_expires = expires, ck_clear = False, ck_secure = isHTTPS r\<rparr>,
                  WriteJSON 200 (Me m))
        })
   }"

definition getMe :: "session \<Rightarrow> meDTO reply hub_op" where
  "getMe s = do { m \<leftarrow> me (ss_user s) (ss_elevated s); return (WriteJSON 200 m) }"

section \<open>TOTP\<close>

text \<open>The loop of \<open>checkTOTP\<close>: the step of the first skew whose code matches.\<close>

fun totp_scan :: "crypto \<Rightarrow> string \<Rightarrow> string \<Rightarrow> go_time \<Rightarrow> int list \<Rightarrow> int option" where
  "totp_scan c secret code now [] = None"
| "totp_scan c secret code now (skew # skews) =
     (let t = now + skew * 30 * second in
      case totp_code c secret (unix_of t div 30) of
        None \<Rightarrow> totp_scan c secret code now skews
      | Some want \<Rightarrow> if want \<noteq> code then totp_scan c secret code now skews else Some (go_div (unix_of t) 30))"

definition checkTOTP :: "env \<Rightarrow> int \<Rightarrow> string \<Rightarrow> string \<Rightarrow> bool hub_op" where
  "checkTOTP ev uid secret code0 = do {
     let code = ReplaceAll (TrimSpace code0) CHR '' '' [];
     if secret = [] \<or> length code \<noteq> 6 then return False
     else (case totp_scan (ev_crypto ev) secret code (ev_now ev) [0, - 1, 1] of
             None \<Rightarrow> return False
           | Some step \<Rightarrow> do {
               used \<leftarrow> gets hb_totp_used;
               if step \<le> used uid then return False
               else do {
                 modify (\<lambda>h. h\<lparr>hb_totp_used := (hb_totp_used h)(uid := step)\<rparr>);
                 return True
               }
             })
   }"

section \<open>Lemmas\<close>

text \<open>Sessions are unchanged by what a login does before it starts one.\<close>

lemma wp_audit [simp]:
  "wp (audit ev r n a sys d) Q h \<longleftrightarrow>
     Q () (h\<lparr>hb_store := snd (AddAudit (ev_now ev)
       \<lparr>ae_id = 0, ae_time = 0, ae_username = truncate_str n maxNameLen, ae_action = a,
        ae_system_id = map_option sy_id sys, ae_system_name = (case sys of None \<Rightarrow> [] | Some x \<Rightarrow> sy_name x),
        ae_remote = map_option clientIP r, ae_detail = d\<rparr> (hb_store h))\<rparr>)"
  by (simp add: audit_def)

lemma session_lookup_SomeD:
  assumes "session_lookup now token s = Some x"
  shows "ss_token x = token \<and> ss_user x \<in> set (st_users s) \<and>
    (\<exists>row \<in> set (st_sessions s). se_token row = token \<and> unix_of now < se_expires row \<and>
       se_user row = u_id (ss_user x) \<and> se_elevated row = ss_elevated x)"
  using assms
  by (auto simp: session_lookup_def row_get_def dest!: find_SomeD split: option.splits)

text \<open>
  (C23) Access: a handler behind a role runs only for the cookie of a session that is in
  the database, has not expired and belongs to an existing user whose role includes the
  required one. Otherwise the request is answered with 401 or 403 and changes nothing.
\<close>

theorem require_role_gate:
  assumes "run_state (requireRole ev r role next) h = (rep, h')"
  shows "(\<exists>s. run_state (next s) (h\<lparr>hb_store := tick (hb_store h)\<rparr>) = (rep, h') \<and>
            rq_cookie r \<noteq> [] \<and> ss_user s \<in> set (st_users (hb_store h)) \<and>
            roleRank role \<le> roleRank (u_role (ss_user s)) \<and>
            (\<exists>row \<in> set (st_sessions (hb_store h)). se_token row = hashToken ev (rq_cookie r) \<and>
               unix_of (ev_now ev) < se_expires row \<and> se_user row = u_id (ss_user s) \<and> se_elevated row = ss_elevated s)) \<or>
         (\<exists>code msg. rep = WriteError code msg \<and> (code = 401 \<or> code = 403) \<and>
            (h' = h \<or> h' = h\<lparr>hb_store := tick (hb_store h)\<rparr>))"
proof (cases "rq_cookie r = []")
  case True
  with assms show ?thesis by (auto simp: requireRole_def requireUser_def)
next
  case False
  let ?x = "session_lookup (ev_now ev) (hashToken ev (rq_cookie r)) (tick (hb_store h))"
  show ?thesis
  proof (cases "fault (hb_store h) \<or> ?x = None")
    case True
    with False assms show ?thesis
      by (cases "fault (hb_store h)") (auto simp: requireRole_def requireUser_def Session_def query_row_tick)
  next
    case lookup: False
    then obtain s where s: "?x = Some s" by blast
    from session_lookup_SomeD [OF s] lookup s False assms show ?thesis
      by (auto simp: requireRole_def requireUser_def Session_def query_row_tick Can_def RoleIncludes_def
          split: if_splits)
  qed
qed

definition demo_user :: user where
  "demo_user = \<lparr>u_id = 1, u_username = ''ada'', u_password_hash = ''$longpassword'', u_totp_secret = ''S'', u_role = RoleAdmin,
     u_created_at = 0, u_last_login = 0, u_handle = None\<rparr>"

definition demo_session :: session_row where
  "demo_session = \<lparr>se_token = take 32 (''tok'' @ replicate 32 CHR 0x00), se_user = 1, se_expires = 1000, se_elevated = 0\<rparr>"

definition demo_hub :: hub where
  "demo_hub = empty_hub\<lparr>hb_store := empty_store\<lparr>st_users := [demo_user], st_sessions := [demo_session]\<rparr>\<rparr>"

theorem require_role_gate_witness:
  "\<exists>s. run_state (getMe s) demo_hub =
      run_state (requireRole (demo_env 0 []) (demo_request\<lparr>rq_cookie := ''tok''\<rparr>) RoleOperator getMe) demo_hub \<and>
    roleRank RoleOperator \<le> roleRank (u_role (ss_user s))"
proof -
  let ?run = "run_state (requireRole (demo_env 0 []) (demo_request\<lparr>rq_cookie := ''tok''\<rparr>) RoleOperator getMe) demo_hub"
  have t: "demo_hub\<lparr>hb_store := tick (hb_store demo_hub)\<rparr> = demo_hub"
    by (simp add: demo_hub_def empty_hub_def empty_store_def tick_def)
  have "fst ?run \<noteq> WriteError code msg" for code msg
    by (simp add: requireRole_def requireUser_def Session_def query_row_tick session_lookup_def empty_hub_def fault_def
        tick_def empty_store_def demo_hub_def demo_session_def demo_env_def demo_crypto_def hashToken_def demo_request_def row_get_def demo_user_def
        unix_of_def Can_def RoleIncludes_def roleRank_def RoleAdmin_def RoleOperator_def RoleViewer_def getMe_def
        split: prod.splits)
  with require_role_gate [of "demo_env 0 []" "demo_request\<lparr>rq_cookie := ''tok''\<rparr>" RoleOperator getMe demo_hub
      "fst ?run" "snd ?run"] t
  show ?thesis by auto
qed

section \<open>Replays of TOTP codes\<close>




lemma checkTOTP_cases:
  assumes "run_state (checkTOTP ev uid secret code) h = (ok, h')"
  shows "\<not> ok \<and> h' = h \<or>
    ok \<and> (\<exists>step. totp_scan (ev_crypto ev) secret (ReplaceAll (TrimSpace code) CHR '' '' []) (ev_now ev) [0, - 1, 1] = Some step \<and>
      hb_totp_used h uid < step \<and> h' = h\<lparr>hb_totp_used := (hb_totp_used h)(uid := step)\<rparr>)"
  using assms
  by (auto simp: checkTOTP_def Let_def split: option.splits if_splits)




lemma demo_trim: "ReplaceAll (TrimSpace ''000 000 '') CHR '' '' [] = ''000000''"
  by (simp add: TrimSpace_eval ReplaceAll_def)

lemma demo_check:
  "run_state (checkTOTP (demo_env (3600 * second) []) 1 ''S'' ''000 000 '') demo_hub =
     (True, demo_hub\<lparr>hb_totp_used := (hb_totp_used demo_hub)(1 := 120)\<rparr>)"
  by (simp add: checkTOTP_def Let_def demo_trim demo_env_def demo_crypto_def unix_of_def demo_hub_def empty_hub_def)


lemma totp_scan_SomeD:
  "totp_scan c secret code now skews = Some step \<Longrightarrow>
     \<exists>skew \<in> set skews. totp_code c secret (unix_of (now + skew * 30 * second) div 30) = Some code \<and>
       step = go_div (unix_of (now + skew * 30 * second)) 30"
  by (induction skews) (auto simp: Let_def split: option.splits if_splits)

text \<open>
  Only current codes: a code that is accepted is, up to spaces, the six digits of the
  secret for the current time step or one of its neighbours, and that step is remembered as
  used.
\<close>

theorem totp_accepts_current_code:
  assumes "run_state (checkTOTP ev uid secret code) h = (True, h')" and "30 * second \<le> ev_now ev"
  shows "\<exists>n. \<bar>n - unix_of (ev_now ev) div 30\<bar> \<le> 1 \<and>
    totp_code (ev_crypto ev) secret n = Some (ReplaceAll (TrimSpace code) CHR '' '' []) \<and>
    hb_totp_used h uid < n \<and> hb_totp_used h' uid = n \<and> secret \<noteq> []"
proof -
  from checkTOTP_cases [OF assms(1)] obtain step where
    step: "totp_scan (ev_crypto ev) secret (ReplaceAll (TrimSpace code) CHR '' '' []) (ev_now ev) [0, - 1, 1] = Some step"
      "hb_totp_used h uid < step" "h' = h\<lparr>hb_totp_used := (hb_totp_used h)(uid := step)\<rparr>" by auto
  from totp_scan_SomeD [OF step(1)] obtain skew where skew: "skew \<in> set [0, - 1, 1]"
    "totp_code (ev_crypto ev) secret (unix_of (ev_now ev + skew * 30 * second) div 30)
       = Some (ReplaceAll (TrimSpace code) CHR '' '' [])"
    "step = go_div (unix_of (ev_now ev + skew * 30 * second)) 30" by blast
  have "unix_of (ev_now ev + skew * 30 * second) = unix_of (ev_now ev) + skew * 30"
    unfolding unix_of_def using div_mult_self1 [of second "ev_now ev" "skew * 30"] by (simp add: mult.commute)
  moreover have "30 \<le> unix_of (ev_now ev)"
    using assms(2) zdiv_mono1 [OF assms(2), of second] by (simp add: unix_of_def)
  ultimately have n: "step = unix_of (ev_now ev) div 30 + skew"
    "unix_of (ev_now ev + skew * 30 * second) div 30 = step"
    using skew(1,3) by auto
  have "secret \<noteq> []" using assms(1) by (auto simp: checkTOTP_def)
  with n skew step(2,3) show ?thesis by (intro exI [of _ step]) auto
qed

theorem totp_accepts_current_code_witness:
  "\<exists>n. \<bar>n - unix_of (3600 * second) div 30\<bar> \<le> 1 \<and> totp_code demo_crypto ''S'' n = Some ''000000'' \<and>
     hb_totp_used demo_hub 1 < n"
  using totp_accepts_current_code [OF demo_check] by (auto simp: demo_env_def demo_trim)

end
