(* ===== verification/Passkeys.thy ===== *)
theory Passkeys
  imports Sessions
begin

text \<open>
  Passkeys (\<open>hub/passkeys.go\<close>): the options of the two ceremonies, the verification of
  assertions and attestations, and the endpoints that use and manage passkeys.
\<close>

section \<open>Attempts\<close>

text \<open>The limiter's operations on the hub.\<close>

definition limiter_begin :: "env \<Rightarrow> request \<Rightarrow> attempt option hub_op" where
  "limiter_begin ev r = do {
     x \<leftarrow> gets (\<lambda>h. begin_attempt (clientIP r) (ev_now ev) (ev_ord ev) (hb_limiter h));
     modify (\<lambda>h. h\<lparr>hb_limiter := snd x\<rparr>);
     return (fst x)
   }"

definition limiter_end :: "attempt \<Rightarrow> unit hub_op" where
  "limiter_end a = modify (\<lambda>h. h\<lparr>hb_limiter := end_attempt a (hb_limiter h)\<rparr>)"

definition limiter_locked :: "env \<Rightarrow> request \<Rightarrow> bool hub_op" where
  "limiter_locked ev r = do {
     x \<leftarrow> gets (\<lambda>h. locked_out (clientIP r) (ev_now ev) (hb_limiter h));
     modify (\<lambda>h. h\<lparr>hb_limiter := snd x\<rparr>);
     return (fst x)
   }"

definition writeTooManyAttempts :: "'a reply" where
  "writeTooManyAttempts = WriteError 429 ''too many failed attempts, try again in a few minutes''"

section \<open>Options\<close>

text \<open>A credential descriptor is the encoded ID; its type is always the same.\<close>

definition descriptors :: "int \<Rightarrow> string \<Rightarrow> (db_error + string list) hub_op" where
  "descriptors uid rpID = do {
     keys \<leftarrow> db (Passkeys uid);
     return (case keys of
       Inl e \<Rightarrow> Inl e
     | Inr ks \<Rightarrow> Inr (map (\<lambda>k. b64_url_encode (pk_credential k)) (filter (\<lambda>k. pk_rp_id k = rpID) ks)))
   }"

record request_options =
  ro_challenge :: string
  ro_rp_id :: string
  ro_timeout :: int               \<comment> \<open>milliseconds\<close>
  ro_user_verification :: string
  ro_allow :: "string list option"

definition requestOptions :: "string \<Rightarrow> string \<Rightarrow> string list option \<Rightarrow> request_options" where
  "requestOptions ch rpID allow =
     \<lparr>ro_challenge = ch, ro_rp_id = rpID, ro_timeout = passkeyTimeout div 1000000, ro_user_verification = ''required'',
      ro_allow = allow\<rparr>"

record creation_options =
  co_challenge :: string
  co_rp_id :: string
  co_user_id :: string
  co_user_name :: string
  co_algorithms :: "int list"
  co_timeout :: int
  co_exclude :: "string list"
  co_user_verification :: string

datatype passkey_options = RequestOptions request_options | CreationOptions creation_options

definition postLoginPasskeyOptions :: "env \<Rightarrow> web \<Rightarrow> request \<Rightarrow> passkey_options reply hub_op" where
  "postLoginPasskeyOptions ev w r = do {
     locked \<leftarrow> limiter_locked ev r;
     if locked then return writeTooManyAttempts
     else (case relyingParty w r of
             Inl e \<Rightarrow> return (WriteError 400 (error_text w e))
           | Inr (_, rpID) \<Rightarrow> do {
               ch \<leftarrow> add_challenge ev w ''login'' [];
               return (WriteJSON 200 (RequestOptions (requestOptions ch rpID None)))
             })
   }"

definition postPasskeyOptions :: "env \<Rightarrow> web \<Rightarrow> request \<Rightarrow> string option \<Rightarrow> session \<Rightarrow> passkey_options reply hub_op" where
  "postPasskeyOptions ev w r body s =
     (case body of
        None \<Rightarrow> return badJSON
      | Some purpose \<Rightarrow>
          (case relyingParty w r of
             Inl e \<Rightarrow> return (WriteError 400 (error_text w e))
           | Inr (_, rpID) \<Rightarrow> do {
               existing \<leftarrow> descriptors (u_id (ss_user s)) rpID;
               (case existing of
                  Inl _ \<Rightarrow> return internalError
                | Inr existing \<Rightarrow>
                    if purpose = ''elevate'' then
                      (if existing = [] then return (WriteError 409 ''you have no passkey for this address'')
                       else do {
                         ch \<leftarrow> add_challenge ev w ''elevate'' (ss_token s);
                         return (WriteJSON 200 (RequestOptions (requestOptions ch rpID (Some existing))))
                       })
                    else if purpose = ''register'' then
                      (if \<not> requireElevated ev s then return ReauthRequired
                       else do {
                         handle \<leftarrow> db (PasskeyHandle (ev_rand2 ev) (u_id (ss_user s)));
                         (case handle of
                            Inl _ \<Rightarrow> return internalError
                          | Inr handle \<Rightarrow> do {
                              ch \<leftarrow> add_challenge ev w ''register'' (ss_token s);
                              return (WriteJSON 200 (CreationOptions
                                \<lparr>co_challenge = ch, co_rp_id = rpID, co_user_id = b64_url_encode handle,
                                 co_user_name = u_username (ss_user s), co_algorithms = [algEdDSA, algES256, algRS256],
                                 co_timeout = passkeyTimeout div 1000000, co_exclude = existing,
                                 co_user_verification = ''required''\<rparr>))
                            })
                       })
                    else return (WriteError 400 ''purpose must be register or elevate''))
             }))"

section \<open>Assertions\<close>

definition handle_matches :: "env \<Rightarrow> string \<Rightarrow> passkey \<Rightarrow> bool hub_op" where
  "handle_matches ev userHandle key =
     (if userHandle = [] then return True
      else do {
        handle \<leftarrow> db (PasskeyHandle (ev_rand2 ev) (pk_user key));
        return (handle = Inr userHandle)
      })"

definition check_passkey ::
    "env \<Rightarrow> string \<Rightarrow> authData \<Rightarrow> string \<Rightarrow> string \<Rightarrow> string \<Rightarrow> string \<Rightarrow> passkey \<Rightarrow> (passkey_error + passkey) hub_op" where
  "check_passkey ev rpID ad cdJSON adBytes sig userHandle key =
     (if pk_rp_id key \<noteq> rpID \<or> \<not> verifySignature (ev_crypto ev) (pk_public_key key) (pk_algorithm key) adBytes cdJSON sig
      then return (Inl (Msg ''the passkey signature is invalid''))
      else do {
        ok \<leftarrow> handle_matches ev userHandle key;
        if \<not> ok then return (Inl (Msg ''the passkey belongs to another account''))
        else if (ad_sign_count ad \<noteq> 0 \<or> pk_sign_count key \<noteq> 0) \<and> ad_sign_count ad \<le> pk_sign_count key
        then return (Inl (Msg ''this passkey's signature counter went backwards; it may have been copied''))
        else do {
          db_log (UsePasskey (ev_now ev) (pk_id key) (ad_sign_count ad));
          return (Inr key)
        }
      })"

definition verifyAssertion ::
    "env \<Rightarrow> web \<Rightarrow> request \<Rightarrow> assertion \<Rightarrow> string \<Rightarrow> string \<Rightarrow> (passkey_error + passkey) hub_op" where
  "verifyAssertion ev w r a purpose session =
     (case relyingParty w r of
        Inl e \<Rightarrow> return (Inl e)
      | Inr (origin, rpID) \<Rightarrow>
          (case decodeFields [as_id a, as_client_data a, as_authenticator_data a, as_signature a, as_user_handle a] of
             Some [credID, cdJSON, adBytes, sig, userHandle] \<Rightarrow> do {
               e \<leftarrow> checkClientData ev w cdJSON ''webauthn.get'' origin purpose session;
               (case e of
                  Some e \<Rightarrow> return (Inl e)
                | None \<Rightarrow>
                    (case parseAuthData (ev_crypto ev) adBytes rpID of
                       Inl e \<Rightarrow> return (Inl e)
                     | Inr ad \<Rightarrow> do {
                         key \<leftarrow> db (PasskeyByCredential credID);
                         (case key of
                            Inl ErrNotFound \<Rightarrow> return (Inl (Msg ''this passkey is not registered with the hub''))
                          | Inl e \<Rightarrow> return (Inl (DbErr e))
                          | Inr key \<Rightarrow> check_passkey ev rpID ad cdJSON adBytes sig userHandle key)
                       }))
             }
           | _ \<Rightarrow> return (Inl (Msg ''invalid passkey response''))))"

definition loginWithPasskey :: "env \<Rightarrow> web \<Rightarrow> request \<Rightarrow> assertion \<Rightarrow> (bool \<times> login_reply) hub_op" where
  "loginWithPasskey ev w r a = do {
     key \<leftarrow> verifyAssertion ev w r a ''login'' [];
     (case key of
        Inl e \<Rightarrow> do {
          audit ev (Some r) [] ''login_failed'' None [Txt (''passkey: '' @ error_text w e)];
          return (True, None, WriteError 401 (error_text w e))
        }
      | Inr key \<Rightarrow> do {
          u \<leftarrow> db (User (pk_user key));
          (case u of
             Inl _ \<Rightarrow> return (False, None, internalError)
           | Inr u \<Rightarrow> do {
               audit ev (Some r) (u_username u) ''login'' None [Txt ''with passkey '', Quoted (pk_name key)];
               x \<leftarrow> startSession ev r u;
               return (False, x)
             })
        })
   }"

text \<open>\<open>reauthenticateWithPasskey\<close> returns the name of the passkey, or the error it wrote.\<close>

definition reauthenticateWithPasskey ::
    "env \<Rightarrow> web \<Rightarrow> request \<Rightarrow> session \<Rightarrow> assertion \<Rightarrow> ('a reply + string) hub_op" where
  "reauthenticateWithPasskey ev w r s a = do {
     att \<leftarrow> limiter_begin ev r;
     (case att of
        None \<Rightarrow> return (Inl writeTooManyAttempts)
      | Some att \<Rightarrow> do {
          key \<leftarrow> verifyAssertion ev w r a ''elevate'' (ss_token s);
          let key = (case key of
             Inr k \<Rightarrow> if pk_user k \<noteq> u_id (ss_user s) then Inl (Msg ''that passkey belongs to another account'') else Inr k
           | Inl e \<Rightarrow> Inl e);
          (case key of
             Inl e \<Rightarrow> do {
               audit ev (Some r) (u_username (ss_user s)) ''reauth_failed'' None [Txt (''passkey: '' @ error_text w e)];
               limiter_end (fail_attempt att);
               return (Inl (WriteError 403 (error_text w e)))
             }
           | Inr k \<Rightarrow> do {
               limiter_end att;
               return (Inr (pk_name k))
             })
        })
   }"

section \<open>Managing passkeys\<close>

definition getPasskeys :: "session \<Rightarrow> passkey list reply hub_op" where
  "getPasskeys s = do {
     keys \<leftarrow> db (Passkeys (u_id (ss_user s)));
     return (case keys of Inl _ \<Rightarrow> internalError | Inr ks \<Rightarrow> WriteJSON 200 ks)
   }"

definition passkeyName :: "string \<Rightarrow> string \<times> bool" where
  "passkeyName name =
     (let name = TrimSpace name; name = (if name = [] then ''Passkey'' else name)
      in (name, RuneCountInString name \<le> maxNameLen))"

definition verifyAttestation ::
    "env \<Rightarrow> web \<Rightarrow> request \<Rightarrow> attestation \<Rightarrow> session \<Rightarrow> (passkey_error + passkey) hub_op" where
  "verifyAttestation ev w r a s =
     (case relyingParty w r of
        Inl e \<Rightarrow> return (Inl e)
      | Inr (origin, rpID) \<Rightarrow>
          (case decodeFields [at_id a, at_client_data a, at_authenticator_data a, at_public_key a] of
             Some [credID, cdJSON, adBytes, spki] \<Rightarrow> do {
               e \<leftarrow> checkClientData ev w cdJSON ''webauthn.create'' origin ''register'' (ss_token s);
               return (case e of
                  Some e \<Rightarrow> Inl e
                | None \<Rightarrow>
                    (case parseAuthData (ev_crypto ev) adBytes rpID of
                       Inl e \<Rightarrow> Inl e
                     | Inr ad \<Rightarrow>
                         if credID = [] \<or> 1023 < length credID \<or> ad_credential ad \<noteq> credID
                         then Inl (Msg ''invalid passkey response'')
                         else if spki = []
                         then Inl (Msg ''this browser did not share the passkey's public key; try a current browser'')
                         else (case parsePublicKey (ev_crypto ev) spki (at_algorithm a) of
                                 Some e \<Rightarrow> Inl e
                               | None \<Rightarrow> Inr \<lparr>pk_id = 0, pk_user = u_id (ss_user s), pk_name = [], pk_rp_id = rpID,
                                   pk_credential = credID, pk_public_key = spki, pk_algorithm = at_algorithm a,
                                   pk_sign_count = ad_sign_count ad, pk_created_at = 0, pk_last_used = 0\<rparr>)))
             }
           | _ \<Rightarrow> return (Inl (Msg ''invalid passkey response''))))"

definition postPasskey ::
    "env \<Rightarrow> web \<Rightarrow> request \<Rightarrow> (string \<times> attestation) option \<Rightarrow> session \<Rightarrow> passkey reply hub_op" where
  "postPasskey ev w r body s =
     (case body of
        None \<Rightarrow> return badJSON
      | Some (rawName, credential) \<Rightarrow>
          if \<not> requireElevated ev s then return ReauthRequired
          else (case passkeyName rawName of
             (name, ok) \<Rightarrow>
               if \<not> ok then return (WriteError 400 ''name must be at most 64 characters'')
               else do {
                 key \<leftarrow> verifyAttestation ev w r credential s;
                 (case key of
                    Inl e \<Rightarrow> do {
                      audit ev (Some r) (u_username (ss_user s)) ''passkey_add_failed'' None [Txt (error_text w e)];
                      return (WriteError 400 (error_text w e))
                    }
                  | Inr key \<Rightarrow> do {
                      x \<leftarrow> db (CreatePasskey (unix_of (ev_now ev)) (key\<lparr>pk_name := name\<rparr>));
                      (case x of
                         Inl ErrPasskeyExists \<Rightarrow> return (WriteError 409 ''this passkey is already registered'')
                       | Inl _ \<Rightarrow> return internalError
                       | Inr key \<Rightarrow> do {
                           audit ev (Some r) (u_username (ss_user s)) ''passkey_added'' None
                             [Quoted (pk_name key), Txt '' for '', Txt (pk_rp_id key)];
                           return (WriteJSON 200 key)
                         })
                    })
               }))"

definition patchPasskey :: "string \<Rightarrow> string option \<Rightarrow> session \<Rightarrow> unit reply hub_op" where
  "patchPasskey idStr body s =
     (case body of
        None \<Rightarrow> return badJSON
      | Some rawName \<Rightarrow>
          (case passkeyName rawName of
             (name, ok) \<Rightarrow>
               if \<not> ok then return (WriteError 400 ''name must be at most 64 characters'')
               else do {
                 x \<leftarrow> db (RenamePasskey (fst (ParseInt idStr)) (u_id (ss_user s)) name);
                 return (case x of
                   Inl ErrNotFound \<Rightarrow> WriteError 404 ''passkey not found''
                 | Inl _ \<Rightarrow> internalError
                 | Inr _ \<Rightarrow> NoContent)
               }))"

definition deletePasskey :: "env \<Rightarrow> request \<Rightarrow> string \<Rightarrow> session \<Rightarrow> unit reply hub_op" where
  "deletePasskey ev r idStr s =
     (if \<not> requireElevated ev s then return ReauthRequired
      else do {
        x \<leftarrow> db (DeletePasskey (fst (ParseInt idStr)) (u_id (ss_user s)));
        (case x of
           Inl ErrNotFound \<Rightarrow> return (WriteError 404 ''passkey not found'')
         | Inl _ \<Rightarrow> return internalError
         | Inr key \<Rightarrow> do {
             audit ev (Some r) (u_username (ss_user s)) ''passkey_removed'' None [Quoted (pk_name key)];
             return NoContent
           })
      })"

section \<open>Properties\<close>

definition counter_ok :: "authData \<Rightarrow> passkey \<Rightarrow> bool" where
  "counter_ok ad key \<longleftrightarrow> ad_sign_count ad = 0 \<and> pk_sign_count key = 0 \<or> pk_sign_count key < ad_sign_count ad"

lemma handle_matches_frame:
  assumes "run_state (handle_matches ev u key) h = (ok, h')"
  shows "hb_challenges h' = hb_challenges h"
  using assms by (auto simp: handle_matches_def split: if_splits prod.splits)

lemma check_passkey_sound:
  assumes "run_state (check_passkey ev rpID ad cdJSON adBytes sig userHandle key) h = (x, h')"
  shows "hb_challenges h' = hb_challenges h"
    and "x = Inr k \<Longrightarrow> k = key \<and> pk_rp_id key = rpID \<and> counter_ok ad key \<and>
      verifySignature (ev_crypto ev) (pk_public_key key) (pk_algorithm key) adBytes cdJSON sig"
  using assms
  by (auto simp: check_passkey_def counter_ok_def not_le split: if_splits prod.splits dest!: handle_matches_frame)

lemma checkClientData_cases:
  assumes "run_state (checkClientData ev w raw typ origin purpose session) h = (e, h')"
  shows "(\<forall>cd. web_client_data w raw = Some cd \<longrightarrow> cd_challenge cd \<notin> fst ` set (hb_challenges h'))"
    and "hb_store h' = hb_store h"
    and "e = None \<Longrightarrow> \<exists>cd c. web_client_data w raw = Some cd \<and> cd_type cd = typ \<and> \<not> cd_cross cd \<and> cd_origin cd = origin \<and>
      map_of (hb_challenges h) (cd_challenge cd) = Some c \<and> ch_purpose c = purpose \<and> ch_session c = session \<and>
      ev_now ev < ch_expires c"
  using assms
  by (auto simp: checkClientData_def take_challenge_def challenge_take_def del_challenge_def map_of_eq_None_iff
      split: option.splits if_splits)

text \<open>
  (C25) Passkeys: an assertion that the hub accepts was made for its own page (the origin's
  host is the one the request was sent to), answers a pending challenge of the same purpose
  and session that has not expired, is for the site the passkey is registered for with the
  user present and verified, carries a signature over authenticator data and client data
  that verifies under the registered key, and its signature counter went up (or both are
  zero). The challenge is used up.
\<close>

theorem verify_assertion_sound:
  assumes "run_state (verifyAssertion ev w r a purpose session) h = (Inr key, h')"
  shows "\<exists>u cd c ad credID cdJSON adBytes sig.
    web_url w (rq_origin r) = Some u \<and> url_host u = rq_host r \<and>
    b64_url_decode (as_id a) = Some credID \<and> b64_url_decode (as_client_data a) = Some cdJSON \<and>
    b64_url_decode (as_authenticator_data a) = Some adBytes \<and> b64_url_decode (as_signature a) = Some sig \<and>
    web_client_data w cdJSON = Some cd \<and> cd_type cd = ''webauthn.get'' \<and> cd_origin cd = rq_origin r \<and> \<not> cd_cross cd \<and>
    map_of (hb_challenges h) (cd_challenge cd) = Some c \<and> ch_purpose c = purpose \<and> ch_session c = session \<and>
    ev_now ev < ch_expires c \<and> cd_challenge cd \<notin> fst ` set (hb_challenges h') \<and>
    parseAuthData (ev_crypto ev) adBytes (url_hostname u) = Inr ad \<and>
    key \<in> set (st_passkeys (hb_store h)) \<and> pk_credential key = credID \<and> pk_rp_id key = url_hostname u \<and>
    verifySignature (ev_crypto ev) (pk_public_key key) (pk_algorithm key) adBytes cdJSON sig \<and> counter_ok ad key"
proof -
  from assms obtain u where u: "web_url w (rq_origin r) = Some u" "url_host u = rq_host r"
      "relyingParty w r = Inr (rq_origin r, url_hostname u)"
    by (auto simp: verifyAssertion_def relyingParty_def split: option.splits if_splits)
  from assms u(3) obtain credID cdJSON adBytes sig uh where
    d: "b64_url_decode (as_id a) = Some credID" "b64_url_decode (as_client_data a) = Some cdJSON"
      "b64_url_decode (as_authenticator_data a) = Some adBytes" "b64_url_decode (as_signature a) = Some sig"
      "b64_url_decode (as_user_handle a) = Some uh"
    by (auto simp: verifyAssertion_def split: option.splits)
  obtain e h1 where e: "run_state (checkClientData ev w cdJSON ''webauthn.get'' (rq_origin r) purpose session) h = (e, h1)"
    by fastforce
  from assms u(3) d e have "e = None"
    by (auto simp: verifyAssertion_def split: option.splits)
  note cd = checkClientData_cases [OF e]
  from assms u(3) d e \<open>e = None\<close> obtain ad where ad: "parseAuthData (ev_crypto ev) adBytes (url_hostname u) = Inr ad"
    by (auto simp: verifyAssertion_def split: sum.splits)
  obtain k where k: "find (\<lambda>p. pk_credential p = credID) (st_passkeys (hb_store h)) = Some k" and
    run: "run_state (check_passkey ev (url_hostname u) ad cdJSON adBytes sig uh k) (h1\<lparr>hb_store := tick (hb_store h)\<rparr>) = (Inr key, h')"
    using assms u(3) d e \<open>e = None\<close> ad cd(2)
    by (auto simp: verifyAssertion_def PasskeyByCredential_def query_row_tick split: sum.splits if_splits option.splits
        db_error.splits)
  from check_passkey_sound(2) [OF run refl] check_passkey_sound(1) [OF run] find_SomeD [OF k] cd(1) cd(3) [OF \<open>e = None\<close>] u d ad
  show ?thesis by auto
qed

definition demo_web :: web where
  "demo_web = \<lparr>web_url = (\<lambda>s. if s = ''https://h'' then Some \<lparr>url_host = ''h'', url_hostname = ''h''\<rparr> else None),
     web_client_data = (\<lambda>s. if s = ''cd''
       then Some \<lparr>cd_type = ''webauthn.get'', cd_challenge = ''k'', cd_origin = ''https://h'', cd_cross = False\<rparr> else None),
     web_keys = [], web_db_error = ''disk I/O error''\<rparr>"

definition demo_auth_data :: string where
  "demo_auth_data = writeAuthData demo_crypto ''h'' \<lparr>ad_flags = 0x05, ad_sign_count = 8, ad_credential = []\<rparr> [] []"

definition demo_assertion :: assertion where
  "demo_assertion = \<lparr>as_id = b64_url_encode ''id'', as_client_data = b64_url_encode ''cd'',
     as_authenticator_data = b64_url_encode demo_auth_data, as_signature = b64_url_encode ''pub'',
     as_user_handle = b64_url_encode []\<rparr>"

definition demo_passkey :: passkey where
  "demo_passkey = \<lparr>pk_id = 1, pk_user = 1, pk_name = ''phone'', pk_rp_id = ''h'', pk_credential = ''id'', pk_public_key = ''pub'',
     pk_algorithm = - 8, pk_sign_count = 7, pk_created_at = 0, pk_last_used = 0\<rparr>"

definition demo_passkey_hub :: hub where
  "demo_passkey_hub = demo_hub\<lparr>hb_store := (hb_store demo_hub)\<lparr>st_passkeys := [demo_passkey]\<rparr>,
     hb_challenges := [(''k'', \<lparr>ch_purpose = ''login'', ch_session = [], ch_expires = 100\<rparr>)]\<rparr>"

lemma demo_auth_data_parses:
  "parseAuthData demo_crypto demo_auth_data ''h'' = Inr \<lparr>ad_flags = 0x05, ad_sign_count = 8, ad_credential = []\<rparr>"
  by code_simp

lemma demo_assertion_fields:
  "decodeFields [as_id demo_assertion, as_client_data demo_assertion, as_authenticator_data demo_assertion,
     as_signature demo_assertion, as_user_handle demo_assertion] = Some [''id'', ''cd'', demo_auth_data, ''pub'', []]"
  by (simp add: demo_assertion_def b64_url_round_trip del: b64_url_encode.simps)

lemma demo_relying_party: "relyingParty demo_web demo_request = Inr (''https://h'', ''h'')"
  by (simp add: relyingParty_def demo_web_def demo_request_def)

lemma demo_client_data:
  "run_state (checkClientData (demo_env 5 rnd) demo_web ''cd'' ''webauthn.get'' ''https://h'' ''login'' []) demo_passkey_hub
     = (None, demo_passkey_hub\<lparr>hb_challenges := []\<rparr>)"
  by (simp add: checkClientData_def take_challenge_def challenge_take_def demo_web_def demo_passkey_hub_def demo_env_def
      del_challenge_def)

lemma demo_verifies:
  "fst (run_state (verifyAssertion (demo_env 5 rnd) demo_web demo_request demo_assertion ''login'' []) demo_passkey_hub)
     = Inr demo_passkey"
proof -
  have c: "ev_crypto (demo_env 5 rnd) = demo_crypto" by (simp add: demo_env_def)
  have s: "fault (hb_store demo_passkey_hub) = False" "st_passkeys (hb_store demo_passkey_hub) = [demo_passkey]"
    by (simp_all add: demo_passkey_hub_def demo_hub_def empty_hub_def empty_store_def fault_def)
  have v: "verifySignature demo_crypto ''pub'' (- 8) demo_auth_data ''cd'' ''pub''"
    by (simp add: verifySignature_def demo_crypto_def algEdDSA_def)
  show ?thesis
    by (simp add: verifyAssertion_def demo_relying_party demo_assertion_fields demo_client_data c demo_auth_data_parses
        PasskeyByCredential_def query_row_tick s check_passkey_def handle_matches_def demo_passkey_def v
        del: decodeFields.simps)
qed

theorem verify_assertion_sound_witness:
  "\<exists>ad. parseAuthData demo_crypto demo_auth_data ''h'' = Inr ad \<and> counter_ok ad demo_passkey \<and>
     verifySignature demo_crypto ''pub'' (- 8) demo_auth_data ''cd'' ''pub''"
proof -
  obtain h' where "run_state (verifyAssertion (demo_env 5 []) demo_web demo_request demo_assertion ''login'' []) demo_passkey_hub
      = (Inr demo_passkey, h')"
    using demo_verifies by (metis prod.collapse)
  from verify_assertion_sound [OF this] show ?thesis
    by (auto simp: demo_assertion_def b64_url_round_trip demo_web_def demo_request_def demo_env_def demo_passkey_def
        simp del: b64_url_encode.simps)
qed

text \<open>
  The comment on \<open>verifyAssertion\<close> says its errors are safe to show to the user. When the
  lookup of the passkey fails, the text of the database driver's error is what a sign-in
  attempt is answered with.
\<close>

theorem passkey_lookup_failure_shown:
  assumes "relyingParty w r = Inr (origin, rpID)"
    and "decodeFields [as_id a, as_client_data a, as_authenticator_data a, as_signature a, as_user_handle a]
           = Some [credID, cdJSON, adBytes, sig, uh]"
    and "fst (run_state (checkClientData ev w cdJSON ''webauthn.get'' origin ''login'' []) h) = None"
    and "parseAuthData (ev_crypto ev) adBytes rpID = Inr ad" and "fault (hb_store h)"
  shows "fst (run_state (loginWithPasskey ev w r a) h) = (True, None, WriteError 401 (web_db_error w))"
proof -
  obtain h1 where h1: "run_state (checkClientData ev w cdJSON ''webauthn.get'' origin ''login'' []) h = (None, h1)"
    using assms(3) by (metis prod.collapse)
  have "hb_store h1 = hb_store h" by (rule checkClientData_cases(2) [OF h1])
  with assms h1 have "run_state (verifyAssertion ev w r a ''login'' []) h
      = (Inl (DbErr ErrDB), h1\<lparr>hb_store := tick (hb_store h)\<rparr>)"
    by (simp add: verifyAssertion_def PasskeyByCredential_def query_row_tick)
  then show ?thesis by (simp add: loginWithPasskey_def audit_def)
qed

theorem passkey_lookup_failure_shown_witness:
  "fst (run_state (loginWithPasskey (demo_env 5 []) demo_web demo_request demo_assertion)
      (demo_passkey_hub\<lparr>hb_store := (hb_store demo_passkey_hub)\<lparr>st_faults := [True]\<rparr>\<rparr>))
   = (True, None, WriteError 401 ''disk I/O error'')"
proof -
  let ?h = "demo_passkey_hub\<lparr>hb_store := (hb_store demo_passkey_hub)\<lparr>st_faults := [True]\<rparr>\<rparr>"
  have "fst (run_state (checkClientData (demo_env 5 []) demo_web ''cd'' ''webauthn.get'' ''https://h'' ''login'' []) ?h) = None"
    by (simp add: checkClientData_def take_challenge_def challenge_take_def demo_web_def demo_passkey_hub_def demo_env_def)
  moreover have "parseAuthData (ev_crypto (demo_env 5 [])) demo_auth_data ''h''
      = Inr \<lparr>ad_flags = 0x05, ad_sign_count = 8, ad_credential = []\<rparr>"
    by (simp add: demo_env_def demo_auth_data_parses)
  moreover have "fault (hb_store ?h)" by (simp add: fault_def)
  ultimately have "fst (run_state (loginWithPasskey (demo_env 5 []) demo_web demo_request demo_assertion) ?h)
      = (True, None, WriteError 401 (web_db_error demo_web))"
    by (rule passkey_lookup_failure_shown [OF demo_relying_party demo_assertion_fields])
  then show ?thesis by (simp add: demo_web_def)
qed

end
