(* ===== verification/Login.thy ===== *)
theory Login
  imports Passkeys
begin

text \<open>
  Signing in and out and the own account (\<open>hub/auth.go\<close>): the first account, login with
  password and code or with a passkey, confirming the password, changing it, and turning
  two-factor login on and off. A request body is \<open>None\<close> when it is not valid JSON.
\<close>

section \<open>Setup\<close>

definition getSetup :: "bool reply hub_op" where
  "getSetup = do {
     n \<leftarrow> db CountUsers;
     return (case n of Inl _ \<Rightarrow> internalError | Inr n \<Rightarrow> WriteJSON 200 (n = 0))
   }"

definition postSetup :: "env \<Rightarrow> request \<Rightarrow> credentials option \<Rightarrow> login_reply hub_op" where
  "postSetup ev r body =
     (case body of
        None \<Rightarrow> return (None, badJSON)
      | Some c0 \<Rightarrow>
          (case validate c0 of
             (msg, c) \<Rightarrow>
               if msg \<noteq> [] then return (None, WriteError 400 msg)
               else do {
                 n \<leftarrow> db CountUsers;
                 (case n of
                    Inl _ \<Rightarrow> return (None, internalError)
                  | Inr n \<Rightarrow>
                      if 0 < n then return (None, WriteError 409 ''setup is already complete'')
                      else (case bcrypt_generate (ev_crypto ev) (cr_password c) of
                              None \<Rightarrow> return (None, internalError)
                            | Some hash \<Rightarrow> do {
                                u \<leftarrow> db (CreateUser (unix_of (ev_now ev)) (cr_username c) hash RoleAdmin);
                                (case u of
                                   Inl _ \<Rightarrow> return (None, internalError)
                                 | Inr u \<Rightarrow> do {
                                     audit ev (Some r) (u_username u) ''setup'' None [Txt ''created the admin account''];
                                     startSession ev r u
                                   })
                              }))
               }))"

section \<open>Login\<close>

text \<open>
  The part of \<open>postLogin\<close> between \<open>begin\<close> and the deferred \<open>end\<close>: whether the attempt failed,
  and either the answer or the user to start a session for. For an unknown user the code
  compares the password with a dummy hash first, which takes its time and decides nothing.
\<close>

definition login_check ::
    "env \<Rightarrow> request \<Rightarrow> credentials \<Rightarrow> (bool \<times> (loginJSON reply + user)) hub_op" where
  "login_check ev r c = do {
     u \<leftarrow> db (UserByName (TrimSpace (cr_username c)));
     (case u of
        Inr u \<Rightarrow>
          if \<not> passwordMatches ev (u_password_hash u) (cr_password c) then do {
            audit ev (Some r) (cr_username c) ''login_failed'' None [Txt ''wrong username or password''];
            return (True, Inl (WriteError 401 ''invalid username or password''))
          }
          else if u_totp_secret u \<noteq> [] then
            (if TrimSpace (cr_code c) = []
             then return (False, Inl (WriteJSON 401 (TotpRequired ''enter the code from your authenticator app'')))
             else do {
               ok \<leftarrow> checkTOTP ev (u_id u) (u_totp_secret u) (cr_code c);
               if \<not> ok then do {
                 audit ev (Some r) (u_username u) ''login_failed'' None [Txt ''wrong two-factor code''];
                 return (True, Inl (WriteJSON 401 (TotpRequired ''invalid code'')))
               }
               else return (False, Inr u)
             })
          else return (False, Inr u)
      | Inl ErrNotFound \<Rightarrow> do {
          audit ev (Some r) (cr_username c) ''login_failed'' None [Txt ''wrong username or password''];
          return (True, Inl (WriteError 401 ''invalid username or password''))
        }
      | Inl _ \<Rightarrow> return (False, Inl internalError))
   }"

definition login_password :: "env \<Rightarrow> request \<Rightarrow> credentials \<Rightarrow> (bool \<times> login_reply) hub_op" where
  "login_password ev r c = do {
     x \<leftarrow> login_check ev r c;
     (case x of
        (failed, Inl rep) \<Rightarrow> return (failed, None, rep)
      | (failed, Inr u) \<Rightarrow> do {
          audit ev (Some r) (u_username u) ''login'' None [];
          y \<leftarrow> startSession ev r u;
          return (failed, y)
        })
   }"

definition postLogin :: "env \<Rightarrow> web \<Rightarrow> request \<Rightarrow> credentials option \<Rightarrow> login_reply hub_op" where
  "postLogin ev w r body = do {
     a \<leftarrow> limiter_begin ev r;
     (case a of
        None \<Rightarrow> return (None, writeTooManyAttempts)
      | Some a \<Rightarrow> do {
          x \<leftarrow> (case body of
                 None \<Rightarrow> return (False, None, badJSON)
               | Some c \<Rightarrow>
                   (case cr_passkey c of
                      Some p \<Rightarrow> loginWithPasskey ev w r p
                    | None \<Rightarrow> login_password ev r c));
          limiter_end (if fst x then fail_attempt a else a);
          return (snd x)
        })
   }"

definition postLogout :: "env \<Rightarrow> request \<Rightarrow> (cookie \<times> unit reply) hub_op" where
  "postLogout ev r = do {
     (if rq_cookie r = [] then return ()
      else do {
        let hash = hashToken ev (rq_cookie r);
        s \<leftarrow> db (Session (ev_now ev) hash);
        (case s of
           Inl _ \<Rightarrow> return ()
         | Inr s \<Rightarrow> audit ev (Some r) (u_username (ss_user s)) ''logout'' None []);
        closeSessionConns hash;
        db_log (DeleteSession hash)
      });
     return (\<lparr>ck_value = [], ck_expires = zero_time, ck_clear = True, ck_secure = isHTTPS r\<rparr>, NoContent)
   }"

section \<open>Confirming the password\<close>

text \<open>\<open>None\<close> when the user is confirmed, otherwise the error it wrote.\<close>

definition reauthenticate ::
    "env \<Rightarrow> request \<Rightarrow> session \<Rightarrow> string \<Rightarrow> string \<Rightarrow> bool \<Rightarrow> string \<Rightarrow> 'a reply option hub_op" where
  "reauthenticate ev r s password code withCode action = do {
     a \<leftarrow> limiter_begin ev r;
     (case a of
        None \<Rightarrow> return (Some writeTooManyAttempts)
      | Some a \<Rightarrow>
          if \<not> passwordMatches ev (u_password_hash (ss_user s)) password then do {
            audit ev (Some r) (u_username (ss_user s)) (action @ ''_failed'') None [Txt ''wrong password''];
            limiter_end (fail_attempt a);
            return (Some (WriteError 403 ''wrong password''))
          }
          else do {
            ok \<leftarrow> (if withCode \<and> u_totp_secret (ss_user s) \<noteq> []
                  then checkTOTP ev (u_id (ss_user s)) (u_totp_secret (ss_user s)) code else return True);
            if \<not> ok then do {
              audit ev (Some r) (u_username (ss_user s)) (action @ ''_failed'') None [Txt ''wrong two-factor code''];
              limiter_end (fail_attempt a);
              return (Some (WriteError 403 ''invalid two-factor code''))
            }
            else do {
              limiter_end a;
              return None
            }
          })
   }"

text \<open>A passkey with an empty name would end the request without an answer: status 200, no body.\<close>

definition elevate_confirm ::
    "env \<Rightarrow> web \<Rightarrow> request \<Rightarrow> credentials \<Rightarrow> session \<Rightarrow> (int reply + detail list) hub_op" where
  "elevate_confirm ev w r body s =
     (case cr_passkey body of
        Some p \<Rightarrow> do {
          name \<leftarrow> reauthenticateWithPasskey ev w r s p;
          return (case name of
            Inl rep \<Rightarrow> Inl rep
          | Inr name \<Rightarrow> if name = [] then Inl (WriteError 200 []) else Inr [Txt ''with passkey '', Quoted name])
        }
      | None \<Rightarrow> do {
          e \<leftarrow> reauthenticate ev r s (cr_password body) (cr_code body) True ''reauth'';
          return (case e of Some rep \<Rightarrow> Inl rep | None \<Rightarrow> Inr [])
        })"

definition postElevate :: "env \<Rightarrow> web \<Rightarrow> request \<Rightarrow> credentials option \<Rightarrow> session \<Rightarrow> int reply hub_op" where
  "postElevate ev w r body s =
     (case body of
        None \<Rightarrow> return badJSON
      | Some body \<Rightarrow> do {
          x \<leftarrow> elevate_confirm ev w r body s;
          (case x of
             Inl rep \<Rightarrow> return rep
           | Inr d \<Rightarrow> do {
               let until = ev_now ev + elevationTTL;
               y \<leftarrow> db (ElevateSession (ss_token s) until);
               (case y of
                  Inl _ \<Rightarrow> return internalError
                | Inr _ \<Rightarrow> do {
                    audit ev (Some r) (u_username (ss_user s)) ''reauth'' None d;
                    return (WriteJSON 200 (unix_of until))
                  })
             })
        })"

definition postPassword :: "env \<Rightarrow> request \<Rightarrow> (string \<times> string) option \<Rightarrow> session \<Rightarrow> unit reply hub_op" where
  "postPassword ev r body s =
     (case body of
        None \<Rightarrow> return badJSON
      | Some (cur, new) \<Rightarrow>
          let msg = validatePassword new in
          if msg \<noteq> [] then return (WriteError 400 msg)
          else do {
            e \<leftarrow> reauthenticate ev r s cur [] False ''password_change'';
            (case e of
               Some rep \<Rightarrow> return rep
             | None \<Rightarrow>
                 (case bcrypt_generate (ev_crypto ev) new of
                    None \<Rightarrow> return internalError
                  | Some hash \<Rightarrow> do {
                      x \<leftarrow> db (SetPassword (u_id (ss_user s)) hash);
                      (case x of
                         Inl _ \<Rightarrow> return internalError
                       | Inr _ \<Rightarrow> do {
                           _ \<leftarrow> signOutUser (u_id (ss_user s)) (Some (ss_token s));
                           audit ev (Some r) (u_username (ss_user s)) ''password_changed'' None
                             [Txt ''other sessions were logged out''];
                           return NoContent
                         })
                    }))
          })"

section \<open>Two-factor login\<close>

text \<open>\<open>postTOTPSetup\<close> with the secret, the URI and the image the TOTP library generates.\<close>

definition postTOTPSetup :: "(string \<times> string \<times> string) option \<Rightarrow> session \<Rightarrow> (string \<times> string \<times> string) reply hub_op" where
  "postTOTPSetup generated s = return (case generated of None \<Rightarrow> internalError | Some x \<Rightarrow> WriteJSON 200 x)"

definition postTOTPEnable ::
    "env \<Rightarrow> request \<Rightarrow> (string \<times> string \<times> string) option \<Rightarrow> session \<Rightarrow> unit reply hub_op" where
  "postTOTPEnable ev r body s =
     (case body of
        None \<Rightarrow> return badJSON
      | Some (secret, code, password) \<Rightarrow>
          if u_totp_secret (ss_user s) \<noteq> [] then return (WriteError 409 ''two-factor login is already on'')
          else do {
            e \<leftarrow> reauthenticate ev r s password [] False ''totp_enable'';
            (case e of
               Some rep \<Rightarrow> return rep
             | None \<Rightarrow> do {
                 ok \<leftarrow> checkTOTP ev (u_id (ss_user s)) secret code;
                 if \<not> ok
                 then return (WriteError 400 ''that code does not match; check the time on your phone and try the next code'')
                 else do {
                   x \<leftarrow> db (SetTOTPSecret (u_id (ss_user s)) secret);
                   (case x of
                      Inl _ \<Rightarrow> return internalError
                    | Inr _ \<Rightarrow> do {
                        audit ev (Some r) (u_username (ss_user s)) ''totp_enabled'' None [];
                        return NoContent
                      })
                 }
               })
          })"

definition postTOTPDisable :: "env \<Rightarrow> request \<Rightarrow> credentials option \<Rightarrow> session \<Rightarrow> unit reply hub_op" where
  "postTOTPDisable ev r body s =
     (case body of
        None \<Rightarrow> return badJSON
      | Some body \<Rightarrow>
          if u_totp_secret (ss_user s) = [] then return NoContent
          else do {
            e \<leftarrow> reauthenticate ev r s (cr_password body) (cr_code body) True ''totp_disable'';
            (case e of
               Some rep \<Rightarrow> return rep
             | None \<Rightarrow> do {
                 x \<leftarrow> db (SetTOTPSecret (u_id (ss_user s)) []);
                 (case x of
                    Inl _ \<Rightarrow> return internalError
                  | Inr _ \<Rightarrow> do {
                      audit ev (Some r) (u_username (ss_user s)) ''totp_disabled'' None [];
                      return NoContent
                    })
               })
          })"

section \<open>Frames\<close>

text \<open>What the parts of a login leave alone.\<close>

lemma limiter_begin_frame:
  "run_state (limiter_begin ev r) h = (a, h') \<Longrightarrow> \<exists>l. h' = h\<lparr>hb_limiter := l\<rparr>"
  by (auto simp: limiter_begin_def)

lemma limiter_end_run: "run_state (limiter_end a) h = ((), h\<lparr>hb_limiter := end_attempt a (hb_limiter h)\<rparr>)"
  by (simp add: limiter_end_def)

lemma handle_matches_sessions:
  "run_state (handle_matches ev u key) h = (ok, h') \<Longrightarrow> st_sessions (hb_store h') = st_sessions (hb_store h)"
  by (auto simp: handle_matches_def PasskeyHandle_def bind_op_def tick_simps update_user_def
      split: if_splits prod.splits option.splits list.splits sum.splits)

lemma UsePasskey_fields [simp]:
  "st_sessions (snd (UsePasskey t i n s)) = st_sessions s" "st_users (snd (UsePasskey t i n s)) = st_users s"
  by (simp_all add: UsePasskey_def exec_tick)

lemma check_passkey_sessions:
  "run_state (check_passkey ev rp ad cd adb sig uh key) h = (x, h') \<Longrightarrow> st_sessions (hb_store h') = st_sessions (hb_store h)"
  by (auto simp: check_passkey_def split: if_splits prod.splits dest!: handle_matches_sessions)

lemma verifyAssertion_sessions:
  assumes "run_state (verifyAssertion ev w r a p se) h = (x, h')"
  shows "st_sessions (hb_store h') = st_sessions (hb_store h)"
  using assms
  by (auto simp: verifyAssertion_def PasskeyByCredential_def query_row_tick split: sum.splits option.splits list.splits
      prod.splits db_error.splits if_splits dest!: checkClientData_cases(2) check_passkey_sessions)

lemma audit_run: "\<exists>s. run_state (audit ev r n act sys d) h = ((), h\<lparr>hb_store := s\<rparr>) \<and>
    st_sessions s = st_sessions (hb_store h) \<and> st_users s = st_users (hb_store h)"
  unfolding audit_def run_db_log by (intro exI conjI) (rule refl, simp_all)

lemma me_run: "\<exists>m. run_state (me u e) h = (m, h\<lparr>hb_store := tick (hb_store h)\<rparr>)"
  by (simp add: me_def Passkeys_def query_tick)

lemma SetLastLogin_sessions [simp]: "st_sessions (snd (SetLastLogin i t s)) = st_sessions s"
  by (simp add: SetLastLogin_def exec_tick update_user_def)

definition new_session :: "env \<Rightarrow> user \<Rightarrow> session_row" where
  "new_session ev u = \<lparr>se_token = hashToken ev (randomToken ev), se_user = u_id u,
     se_expires = unix_of (ev_now ev + sessionTTL), se_elevated = 0\<rparr>"

lemma startSession_cases:
  assumes "run_state (startSession ev r u) h = ((ck, rep), h')"
  shows "(case ck of
      None \<Rightarrow> \<not> is_success rep \<and> st_sessions (hb_store h') = st_sessions (hb_store h)
    | Some c \<Rightarrow> ck_value c = randomToken ev \<and> u_id u \<in> u_id ` set (st_users (hb_store h)) \<and>
        st_sessions (hb_store h') = st_sessions (hb_store h) @ [new_session ev u])"
    and "hb_totp_used h' = hb_totp_used h"
proof -
  obtain m where m: "run_state (me u 0) g = (m g, g\<lparr>hb_store := tick (hb_store g)\<rparr>)" for g
    using me_run [of u 0] by metis
  show "(case ck of
      None \<Rightarrow> \<not> is_success rep \<and> st_sessions (hb_store h') = st_sessions (hb_store h)
    | Some c \<Rightarrow> ck_value c = randomToken ev \<and> u_id u \<in> u_id ` set (st_users (hb_store h)) \<and>
        st_sessions (hb_store h') = st_sessions (hb_store h) @ [new_session ev u])"
    and "hb_totp_used h' = hb_totp_used h"
    using assms
    by (auto simp: startSession_def CreateSession_def stmt_tick new_session_def Let_def m split: if_splits)
qed

lemma login_check_cases:
  assumes "run_state (login_check ev r c) h = ((failed, x), h')"
  shows "st_sessions (hb_store h') = st_sessions (hb_store h) \<and> st_users (hb_store h') = st_users (hb_store h)"
    and "x = Inr u \<Longrightarrow> u \<in> set (st_users (hb_store h)) \<and> nocase_eq (u_username u) (TrimSpace (cr_username c)) \<and>
      passwordMatches ev (u_password_hash u) (cr_password c) \<and>
      (u_totp_secret u \<noteq> [] \<longrightarrow> hb_totp_used h (u_id u) < hb_totp_used h' (u_id u) \<and>
        totp_scan (ev_crypto ev) (u_totp_secret u) (ReplaceAll (TrimSpace (cr_code c)) CHR '' '' []) (ev_now ev) [0, - 1, 1]
          = Some (hb_totp_used h' (u_id u)))"
    and "x = Inl rep \<Longrightarrow> \<not> is_success rep"
proof -
  let ?find = "find (\<lambda>u. nocase_eq (u_username u) (TrimSpace (cr_username c))) (st_users (hb_store h))"
  consider (none) "\<exists>rep. x = Inl rep \<and> \<not> is_success rep" "st_sessions (hb_store h') = st_sessions (hb_store h)"
      "st_users (hb_store h') = st_users (hb_store h)"
    | (plain) v where "?find = Some v" "x = Inr v" "passwordMatches ev (u_password_hash v) (cr_password c)"
        "u_totp_secret v = []" "h' = h\<lparr>hb_store := tick (hb_store h)\<rparr>"
    | (code) v where "?find = Some v" "x = Inr v" "passwordMatches ev (u_password_hash v) (cr_password c)"
        "run_state (checkTOTP ev (u_id v) (u_totp_secret v) (cr_code c)) (h\<lparr>hb_store := tick (hb_store h)\<rparr>) = (True, h')"
    using assms
    by (auto simp: login_check_def UserByName_def query_row_tick audit_def split: if_splits option.splits prod.splits
        dest: checkTOTP_cases)
  note cases = this
  show "st_sessions (hb_store h') = st_sessions (hb_store h) \<and> st_users (hb_store h') = st_users (hb_store h)"
    by (rule cases) (auto dest: checkTOTP_cases)
  show "x = Inl rep \<Longrightarrow> \<not> is_success rep"
    by (rule cases) auto
  show "x = Inr u \<Longrightarrow> u \<in> set (st_users (hb_store h)) \<and> nocase_eq (u_username u) (TrimSpace (cr_username c)) \<and>
      passwordMatches ev (u_password_hash u) (cr_password c) \<and>
      (u_totp_secret u \<noteq> [] \<longrightarrow> hb_totp_used h (u_id u) < hb_totp_used h' (u_id u) \<and>
        totp_scan (ev_crypto ev) (u_totp_secret u) (ReplaceAll (TrimSpace (cr_code c)) CHR '' '' []) (ev_now ev) [0, - 1, 1]
          = Some (hb_totp_used h' (u_id u)))"
    by (rule cases) (auto dest: find_SomeD checkTOTP_cases)
qed

lemma login_password_cases:
  assumes "run_state (login_password ev r c) h = ((failed, ck, rep), h')"
  shows "(ck = None \<and> \<not> is_success rep \<and> st_sessions (hb_store h') = st_sessions (hb_store h)) \<or>
    (\<exists>u k. ck = Some k \<and> ck_value k = randomToken ev \<and> u \<in> set (st_users (hb_store h)) \<and>
      nocase_eq (u_username u) (TrimSpace (cr_username c)) \<and> passwordMatches ev (u_password_hash u) (cr_password c) \<and>
      (u_totp_secret u \<noteq> [] \<longrightarrow> hb_totp_used h (u_id u) < hb_totp_used h' (u_id u) \<and>
        totp_scan (ev_crypto ev) (u_totp_secret u) (ReplaceAll (TrimSpace (cr_code c)) CHR '' '' []) (ev_now ev) [0, - 1, 1]
          = Some (hb_totp_used h' (u_id u))) \<and>
      st_sessions (hb_store h') = st_sessions (hb_store h) @ [new_session ev u])"
proof -
  obtain f x h1 where c: "run_state (login_check ev r c) h = ((f, x), h1)" by (metis prod.collapse)
  note lc = login_check_cases [OF c]
  show ?thesis
  proof (cases x)
    case (Inl rep')
    with assms c have "ck = None" "rep = rep'" "h' = h1" by (auto simp: login_password_def)
    with lc(1,3) Inl show ?thesis by auto
  next
    case (Inr u)
    obtain s where a: "run_state (audit ev (Some r) (u_username u) ''login'' None []) h1 = ((), h1\<lparr>hb_store := s\<rparr>)"
      "st_sessions s = st_sessions (hb_store h1)" "st_users s = st_users (hb_store h1)"
      using audit_run by metis
    with assms c Inr have "run_state (startSession ev r u) (h1\<lparr>hb_store := s\<rparr>) = ((ck, rep), h')"
      by (auto simp: login_password_def split: prod.splits)
    from startSession_cases [OF this] lc(1) lc(2) [OF Inr] a(2) show ?thesis
      by (cases ck) auto
  qed
qed

lemma loginWithPasskey_cases:
  assumes "run_state (loginWithPasskey ev w r p) h = ((failed, ck, rep), h')"
  shows "(ck = None \<and> \<not> is_success rep \<and> st_sessions (hb_store h') = st_sessions (hb_store h)) \<or>
    (\<exists>u k key. ck = Some k \<and> ck_value k = randomToken ev \<and>
      fst (run_state (verifyAssertion ev w r p ''login'' []) h) = Inr key \<and> pk_user key = u_id u \<and>
      st_sessions (hb_store h') = st_sessions (hb_store h) @ [new_session ev u])"
proof -
  obtain x h1 where v: "run_state (verifyAssertion ev w r p ''login'' []) h = (x, h1)" by fastforce
  note vs = verifyAssertion_sessions [OF v]
  show ?thesis
  proof (cases x)
    case (Inl e)
    with assms v vs show ?thesis by (auto simp: loginWithPasskey_def audit_def)
  next
    case (Inr key)
    show ?thesis
    proof (cases "fault (hb_store h1) \<or> row_get u_id (pk_user key) (st_users (hb_store h1)) = None")
      case True
      with assms v vs Inr show ?thesis
        by (cases "fault (hb_store h1)") (auto simp: loginWithPasskey_def User_def query_row_tick)
    next
      case False
      then obtain u where u: "row_get u_id (pk_user key) (st_users (hb_store h1)) = Some u" by blast
      then have uid: "u_id u = pk_user key" by (auto simp: row_get_def dest: find_SomeD)
      let ?h = "h1\<lparr>hb_store := tick (hb_store h1)\<rparr>"
      obtain s where a: "run_state (audit ev (Some r) (u_username u) ''login'' None [Txt ''with passkey '', Quoted (pk_name key)]) ?h
          = ((), ?h\<lparr>hb_store := s\<rparr>)" "st_sessions s = st_sessions (hb_store ?h)"
        using audit_run by metis
      with assms v Inr False u have "run_state (startSession ev r u) (?h\<lparr>hb_store := s\<rparr>) = ((ck, rep), h')"
        by (auto simp: loginWithPasskey_def User_def query_row_tick split: prod.splits)
      from startSession_cases(1) [OF this] a(2) vs v Inr uid show ?thesis
        by (cases ck) (auto intro: exI [of _ u])
    qed
  qed
qed

text \<open>
  (C26) Login: a session starts (a cookie is set) only for a user whose password matched and,
  with two-factor login on, whose current code was accepted and had not been used before,
  or for the user of a passkey whose assertion was verified. Exactly one session is
  added, for that user, under the hash of the token in the cookie; a login that fails adds
  none.
\<close>

theorem login_needs_credentials:
  assumes "run_state (postLogin ev w r body) h = ((ck, rep), h')"
  shows "case ck of
      None \<Rightarrow> \<not> is_success rep \<and> st_sessions (hb_store h') = st_sessions (hb_store h)
    | Some k \<Rightarrow>
        \<exists>c u. body = Some c \<and> ck_value k = randomToken ev \<and>
          st_sessions (hb_store h') = st_sessions (hb_store h) @ [new_session ev u] \<and>
          (case cr_passkey c of
             None \<Rightarrow>
               u \<in> set (st_users (hb_store h)) \<and> nocase_eq (u_username u) (TrimSpace (cr_username c)) \<and>
               passwordMatches ev (u_password_hash u) (cr_password c) \<and>
               (u_totp_secret u \<noteq> [] \<longrightarrow> hb_totp_used h (u_id u) < hb_totp_used h' (u_id u) \<and>
                  totp_scan (ev_crypto ev) (u_totp_secret u) (ReplaceAll (TrimSpace (cr_code c)) CHR '' '' []) (ev_now ev) [0, - 1, 1]
                    = Some (hb_totp_used h' (u_id u)))
           | Some p \<Rightarrow>
               \<exists>key l. fst (run_state (verifyAssertion ev w r p ''login'' []) (h\<lparr>hb_limiter := l\<rparr>)) = Inr key \<and>
                 pk_user key = u_id u)"
proof -
  obtain a h1 where b: "run_state (limiter_begin ev r) h = (a, h1)" by fastforce
  from limiter_begin_frame [OF b] obtain l where h1: "h1 = h\<lparr>hb_limiter := l\<rparr>" by blast
  show ?thesis
  proof (cases "a = None \<or> body = None")
    case True
    with assms b h1 show ?thesis
      by (cases a) (auto simp: postLogin_def writeTooManyAttempts_def limiter_end_run)
  next
    case False
    then obtain at' c where ac: "a = Some at'" "body = Some c" by auto
    obtain f ck2 rep2 h2 where x:
      "run_state (case cr_passkey c of Some p \<Rightarrow> loginWithPasskey ev w r p | None \<Rightarrow> login_password ev r c) h1
        = ((f, ck2, rep2), h2)"
      by (metis prod.collapse)
    with assms b ac have e: "ck = ck2" "rep = rep2" and h': "hb_store h' = hb_store h2" "hb_totp_used h' = hb_totp_used h2"
      by (auto simp: postLogin_def limiter_end_run)
    show ?thesis
    proof (cases "cr_passkey c")
      case None
      with x have "run_state (login_password ev r c) h1 = ((f, ck2, rep2), h2)" by simp
      from login_password_cases [OF this] None ac(2) h1 e h' show ?thesis by auto
    next
      case (Some p)
      with x have "run_state (loginWithPasskey ev w r p) h1 = ((f, ck2, rep2), h2)" by simp
      from loginWithPasskey_cases [OF this] Some ac(2) h1 e h' show ?thesis by auto blast
    qed
  qed
qed

section \<open>The first account\<close>

lemma startSession_users:
  assumes "run_state (startSession ev r u) h = (x, h')"
  shows "st_users (hb_store h') = st_users (hb_store h) \<or>
    st_users (hb_store h') =
      map (\<lambda>v. if u_id v = u_id u then v\<lparr>u_last_login := unix_of (ev_now ev)\<rparr> else v) (st_users (hb_store h))"
proof -
  obtain m where m: "run_state (me u 0) g = (m g, g\<lparr>hb_store := tick (hb_store g)\<rparr>)" for g
    using me_run [of u 0] by metis
  show ?thesis using assms
    by (auto simp: startSession_def CreateSession_def SetLastLogin_def update_user_def tick_simps Let_def m split: if_splits)
qed

text \<open>
  Setup works once: it changes the accounts only while there is none, and then creates
  exactly one, an administrator with the requested name and a password of 8 to 72 bytes.
\<close>

theorem setup_only_once:
  assumes "run_state (postSetup ev r body) h = (x, h')"
  shows "st_users (hb_store h') = st_users (hb_store h) \<or>
    st_users (hb_store h) = [] \<and>
    (\<exists>c u. body = Some c \<and> st_users (hb_store h') = [u] \<and> u_role u = RoleAdmin \<and>
       u_username u = TrimSpace (cr_username c) \<and> u_username u \<noteq> [] \<and>
       bcrypt_generate (ev_crypto ev) (cr_password c) = Some (u_password_hash u) \<and>
       8 \<le> length (cr_password c) \<and> length (cr_password c) \<le> 72)"
proof (cases "st_users (hb_store h') = st_users (hb_store h)")
  case False
  from assms False obtain c0 where c0: "body = Some c0" by (cases body) (auto simp: postSetup_def)
  let ?c = "c0\<lparr>cr_username := TrimSpace (cr_username c0)\<rparr>"
  have v: "snd (validate c0) = ?c" by (simp add: validate_def Let_def)
  with assms False c0 have ok: "fst (validate c0) = []" "validate c0 = ([], ?c)"
    by (auto simp: postSetup_def split: prod.splits if_splits)
  with assms False c0 have n: "st_users (hb_store h) = []" "\<not> fault (hb_store h)"
    by (auto simp: postSetup_def CountUsers_def query_tick split: if_splits)
  with assms False c0 ok obtain hash where hash: "bcrypt_generate (ev_crypto ev) (cr_password c0) = Some hash"
    by (auto simp: postSetup_def CountUsers_def query_tick split: option.splits)
  let ?h = "h\<lparr>hb_store := tick (hb_store h)\<rparr>"
  let ?cr = "CreateUser (unix_of (ev_now ev)) (cr_username ?c) hash RoleAdmin (tick (hb_store h))"
  obtain u s where u: "?cr = (Inr u, s)" "st_users s = [u]" "u_role u = RoleAdmin" "u_password_hash u = hash"
      "u_username u = TrimSpace (cr_username c0)"
    using assms False c0 ok n hash
    by (auto simp: postSetup_def CountUsers_def query_tick CreateUser_def ValidRole_def roleRank_def RoleAdmin_def RoleViewer_def
        RoleOperator_def stmt_tick username_taken_def Let_def next_rowid_def split: if_splits)
  obtain s2 where a: "run_state (audit ev (Some r) (u_username u) ''setup'' None [Txt ''created the admin account''])
      (h\<lparr>hb_store := s\<rparr>) = ((), h\<lparr>hb_store := s2\<rparr>)" "st_users s2 = st_users s"
    using audit_run [of ev "Some r" "u_username u" "''setup''" None "[Txt ''created the admin account'']" "h\<lparr>hb_store := s\<rparr>"]
    by auto
  have "run_state (startSession ev r u) (h\<lparr>hb_store := s2\<rparr>) = (x, h')"
    using assms c0 ok n hash u(1) a(1) by (auto simp: postSetup_def CountUsers_def query_tick)
  from startSession_users [OF this] a(2) u ok(1) hash c0 n show ?thesis
    by (auto simp: validate_def validatePassword_def Let_def split: if_splits)
qed simp

section \<open>Confirming and changing the password\<close>

lemma checkTOTP_frame:
  "run_state (checkTOTP ev uid secret code) h = (ok, h') \<Longrightarrow> hb_store h' = hb_store h \<and> hb_conns h' = hb_conns h \<and> hb_stopped h' = hb_stopped h"
  by (drule checkTOTP_cases) auto

lemma reauthenticate_cases:
  assumes "run_state (reauthenticate ev r s password code withCode action) h = (e, h')"
  shows "hb_conns h' = hb_conns h \<and> hb_stopped h' = hb_stopped h \<and>
      st_sessions (hb_store h') = st_sessions (hb_store h) \<and> st_users (hb_store h') = st_users (hb_store h)"
    and "e = None \<Longrightarrow> hb_store h' = hb_store h \<and> passwordMatches ev (u_password_hash (ss_user s)) password \<and>
      (withCode \<and> u_totp_secret (ss_user s) \<noteq> [] \<longrightarrow>
         hb_totp_used h (u_id (ss_user s)) < hb_totp_used h' (u_id (ss_user s)))"
    and "e = Some rep \<Longrightarrow> \<not> is_success rep"
proof -
  obtain a h1 where b: "run_state (limiter_begin ev r) h = (a, h1)" by fastforce
  from limiter_begin_frame [OF b] obtain l where h1: "h1 = h\<lparr>hb_limiter := l\<rparr>" by blast
  show "hb_conns h' = hb_conns h \<and> hb_stopped h' = hb_stopped h \<and>
      st_sessions (hb_store h') = st_sessions (hb_store h) \<and> st_users (hb_store h') = st_users (hb_store h)"
    using assms b h1
    by (auto simp: reauthenticate_def audit_def limiter_end_run split: option.splits if_splits prod.splits
        dest!: checkTOTP_frame)
  show "e = None \<Longrightarrow> hb_store h' = hb_store h \<and> passwordMatches ev (u_password_hash (ss_user s)) password \<and>
      (withCode \<and> u_totp_secret (ss_user s) \<noteq> [] \<longrightarrow>
         hb_totp_used h (u_id (ss_user s)) < hb_totp_used h' (u_id (ss_user s)))"
    using assms b h1
    by (auto simp: reauthenticate_def audit_def limiter_end_run split: option.splits if_splits prod.splits
        dest!: checkTOTP_cases)
  show "e = Some rep \<Longrightarrow> \<not> is_success rep"
    using assms b h1
    by (auto simp: reauthenticate_def audit_def limiter_end_run writeTooManyAttempts_def split: option.splits if_splits prod.splits)
qed

text \<open>
  Changing the password: when it succeeds, the current password was confirmed and the
  user's hash is one of the new password. Every other session of the user is gone and
  every tracked connection of them (terminals, transfers, streams) has been told to stop;
  sessions of other users are untouched. The database is taken not to fail.
\<close>

theorem password_change_signs_out:
  assumes "run_state (postPassword ev r body s) h = (NoContent, h')" and "st_faults (hb_store h) = []"
  shows "\<exists>cur new hash. body = Some (cur, new) \<and> passwordMatches ev (u_password_hash (ss_user s)) cur \<and>
    8 \<le> length new \<and> bcrypt_generate (ev_crypto ev) new = Some hash \<and>
    st_users (hb_store h') =
      map (\<lambda>u. if u_id u = u_id (ss_user s) then u\<lparr>u_password_hash := hash\<rparr> else u) (st_users (hb_store h)) \<and>
    st_sessions (hb_store h') =
      filter (\<lambda>x. se_user x \<noteq> u_id (ss_user s) \<or> se_token x = ss_token s) (st_sessions (hb_store h)) \<and>
    (\<forall>c \<in> set (hb_conns h). cn_user c = u_id (ss_user s) \<and> cn_session c \<noteq> ss_token s \<longrightarrow> cn_ref c \<in> set (hb_stopped h'))"
proof -
  from assms(1) obtain cur new where body: "body = Some (cur, new)"
    by (cases body) (auto simp: postPassword_def badJSON_def)
  obtain e h1 where e: "run_state (reauthenticate ev r s cur [] False ''password_change'') h = (e :: unit reply option, h1)" by fastforce
  note re = reauthenticate_cases [OF e]
  from assms(1) body e have v: "validatePassword new = []"
    by (auto simp: postPassword_def Let_def split: if_splits)
  from assms(1) body e v re(3) have none: "e = None"
    by (cases e) (auto simp: postPassword_def Let_def)
  from assms(1) body e v none obtain hash where hash: "bcrypt_generate (ev_crypto ev) new = Some hash"
    by (auto simp: postPassword_def Let_def internalError_def split: option.splits)
  from re(2) [OF none] assms(2) have f: "st_faults (hb_store h1) = []" by simp
  from assms(1) body e v none hash f re show ?thesis
    by (auto simp: postPassword_def Let_def SetPassword_def exec_tick signOutUser_def DeleteOtherSessions_def closeConns_def
        audit_def update_user_def validatePassword_def split: if_splits intro: filter_cong)
qed

lemma reauthenticateWithPasskey_cases:
  assumes "run_state (reauthenticateWithPasskey ev w r s p) h = (x, h')"
  shows "st_sessions (hb_store h') = st_sessions (hb_store h)"
    and "x = Inl rep \<Longrightarrow> \<not> is_success rep"
    and "x = Inr name \<Longrightarrow> \<exists>key l. pk_user key = u_id (ss_user s) \<and> pk_name key = name \<and>
      fst (run_state (verifyAssertion ev w r p ''elevate'' (ss_token s)) (h\<lparr>hb_limiter := l\<rparr>)) = Inr key"
proof -
  obtain a h1 where b: "run_state (limiter_begin ev r) h = (a, h1)" by fastforce
  from limiter_begin_frame [OF b] obtain l where h1: "h1 = h\<lparr>hb_limiter := l\<rparr>" by blast
  obtain k h2 where v: "run_state (verifyAssertion ev w r p ''elevate'' (ss_token s)) h1 = (k, h2)" by fastforce
  note vs = verifyAssertion_sessions [OF v]
  show "st_sessions (hb_store h') = st_sessions (hb_store h)"
    using assms b h1 v vs
    by (auto simp: reauthenticateWithPasskey_def audit_def limiter_end_run Let_def split: option.splits sum.splits if_splits)
  show "x = Inl rep \<Longrightarrow> \<not> is_success rep"
    using assms b h1 v
    by (auto simp: reauthenticateWithPasskey_def audit_def limiter_end_run Let_def writeTooManyAttempts_def
        split: option.splits sum.splits if_splits)
  show "x = Inr name \<Longrightarrow> \<exists>key l. pk_user key = u_id (ss_user s) \<and> pk_name key = name \<and>
      fst (run_state (verifyAssertion ev w r p ''elevate'' (ss_token s)) (h\<lparr>hb_limiter := l\<rparr>)) = Inr key"
    using assms b h1 v
    by (auto simp: reauthenticateWithPasskey_def audit_def limiter_end_run Let_def
        split: option.splits sum.splits if_splits intro!: exI [of _ l])
qed

text \<open>
  (C27) Elevation: the session of a request is elevated only after its user was confirmed
  again, with the password (and an unused code, when two-factor login is on) or with a
  verified passkey of the same user. It is then elevated for ten minutes, no other session
  is, and a confirmation that fails elevates nothing.
\<close>

theorem elevation_needs_confirmation:
  assumes "run_state (postElevate ev w r body s) h = (rep, h')"
  shows "if is_success rep then
      rep = WriteJSON 200 (unix_of (ev_now ev + elevationTTL)) \<and>
      st_sessions (hb_store h') = map (\<lambda>x. if se_token x = ss_token s
        then x\<lparr>se_elevated := unix_of (ev_now ev + elevationTTL)\<rparr> else x) (st_sessions (hb_store h)) \<and>
      (\<exists>c. body = Some c \<and>
        (case cr_passkey c of
           None \<Rightarrow> passwordMatches ev (u_password_hash (ss_user s)) (cr_password c) \<and>
             (u_totp_secret (ss_user s) \<noteq> [] \<longrightarrow>
                hb_totp_used h (u_id (ss_user s)) < hb_totp_used h' (u_id (ss_user s)))
         | Some p \<Rightarrow> \<exists>key l. pk_user key = u_id (ss_user s) \<and>
             fst (run_state (verifyAssertion ev w r p ''elevate'' (ss_token s)) (h\<lparr>hb_limiter := l\<rparr>)) = Inr key))
    else st_sessions (hb_store h') = st_sessions (hb_store h)"
proof (cases body)
  case None
  with assms show ?thesis by (auto simp: postElevate_def)
next
  case (Some c)
  obtain x h1 where x: "run_state (elevate_confirm ev w r c s) h = (x, h1)" by fastforce
  have ss: "st_sessions (hb_store h1) = st_sessions (hb_store h)"
    using x by (auto simp: elevate_confirm_def split: option.splits prod.splits
        dest!: reauthenticate_cases(1) reauthenticateWithPasskey_cases(1))
  have err: "\<not> is_success rep'" if "x = Inl rep'" for rep'
    using x that by (auto simp: elevate_confirm_def split: option.splits sum.splits prod.splits if_splits
        dest!: reauthenticate_cases(3) [OF _ refl] reauthenticateWithPasskey_cases(2) [OF _ refl])
  have ok: "(case cr_passkey c of
      None \<Rightarrow> passwordMatches ev (u_password_hash (ss_user s)) (cr_password c) \<and>
        (u_totp_secret (ss_user s) \<noteq> [] \<longrightarrow> hb_totp_used h (u_id (ss_user s)) < hb_totp_used h1 (u_id (ss_user s)))
    | Some p \<Rightarrow> \<exists>key l. pk_user key = u_id (ss_user s) \<and>
        fst (run_state (verifyAssertion ev w r p ''elevate'' (ss_token s)) (h\<lparr>hb_limiter := l\<rparr>)) = Inr key)"
    if "x = Inr d" for d
    using x that
    by (auto simp: elevate_confirm_def split: option.splits sum.splits prod.splits if_splits
        dest!: reauthenticate_cases(2) [OF _ refl] reauthenticateWithPasskey_cases(3) [OF _ refl])
  show ?thesis
  proof (cases x)
    case (Inl rep')
    with assms Some x ss err show ?thesis by (auto simp: postElevate_def)
  next
    case (Inr d)
    with assms Some x ss ok [OF Inr] show ?thesis
      by (cases "cr_passkey c") (auto simp: postElevate_def ElevateSession_def exec_tick audit_def Let_def split: if_splits)
  qed
qed

section \<open>Instances\<close>

text \<open>The administrator of \<open>demo_hub\<close> signs in, confirms the password and changes it.\<close>

definition demo_creds :: credentials where
  "demo_creds = \<lparr>cr_username = ''ADA'', cr_password = ''longpassword'', cr_code = ''000 000 '', cr_passkey = None\<rparr>"

lemma demo_names: "TrimSpace ''ADA'' = ''ADA''" "TrimSpace ''000 000 '' = ''000 000''" "nocase_eq ''ada'' ''ADA''"
  "RuneCountInString ''ADA'' = 3"
  by (simp_all add: TrimSpace_eval RuneCount_eval) code_simp

lemmas demo_defs = demo_creds_def demo_hub_def empty_hub_def newLoginLimiter_def fault_def tick_def empty_store_def
  demo_user_def demo_env_def demo_crypto_def demo_session_def

lemmas demo_runs = limiter_begin_def begin_attempt_def recordLocked_def query_row_tick exec_tick stmt_tick query_tick
  passwordMatches_def unix_of_def Let_def audit_def AddAudit_def limiter_end_def clientKey_def loginFailures_def
  maxTrackedClients_def

lemma demo_token: "b64_char True 30 = CHR ''e''" "b64_char True 0 = CHR ''A''"
  by code_simp+

lemma demo_login_cookie:
  "\<exists>k rep h'. run_state (postLogin (demo_env (3600 * second) ''x'') demo_web demo_request (Some demo_creds)) demo_hub = ((Some k, rep), h')"
  by (simp add: postLogin_def demo_defs demo_runs login_password_def login_check_def UserByName_def demo_names
     checkTOTP_def ReplaceAll_def startSession_def CreateSession_def randomToken_def hashToken_def me_def Passkeys_def demo_token)

lemma demo_setup_runs:
  "\<exists>x h' u. run_state (postSetup (demo_env 0 ''x'') demo_request (Some demo_creds)) empty_hub = (x, h') \<and> st_users (hb_store h') = [u]"
  by (simp add: postSetup_def demo_defs demo_runs demo_names validate_def validatePassword_def maxNameLen_def CountUsers_def CreateUser_def
   ValidRole_def roleRank_def RoleAdmin_def RoleOperator_def RoleViewer_def username_taken_def next_rowid_def startSession_def
   CreateSession_def SetLastLogin_def update_user_def me_def Passkeys_def)

definition demo_own :: session where
  "demo_own = \<lparr>ss_user = demo_user, ss_token = se_token demo_session, ss_elevated = 0\<rparr>"

definition demo_other :: session_row where
  "demo_other = \<lparr>se_token = ''other'', se_user = 1, se_expires = 1000, se_elevated = 0\<rparr>"

definition demo_two :: hub where
  "demo_two = demo_hub\<lparr>hb_store := (hb_store demo_hub)\<lparr>st_sessions := [demo_session, demo_other]\<rparr>,
     hb_conns := [\<lparr>cn_ref = 9, cn_session = ''other'', cn_user = 1, cn_role = RoleOperator\<rparr>]\<rparr>"

lemma demo_change_runs:
  "\<exists>h'. run_state (postPassword (demo_env 0 []) demo_request (Some (''longpassword'', ''newpassword'')) demo_own) demo_two = (NoContent, h')"
  by (simp add: postPassword_def demo_two_def demo_own_def demo_defs demo_runs validatePassword_def reauthenticate_def SetPassword_def 
   signOutUser_def closeConns_def DeleteOtherSessions_def update_user_def)

lemma demo_elevate_runs:
  "\<exists>n h'. run_state (postElevate (demo_env (3600 * second) []) demo_web demo_request (Some demo_creds) demo_own) demo_hub = (WriteJSON 200 n, h')"
  by (simp add: postElevate_def elevate_confirm_def demo_own_def demo_defs demo_runs reauthenticate_def ElevateSession_def
   checkTOTP_def demo_names ReplaceAll_def)

theorem login_needs_credentials_witness:
  "\<exists>u \<in> set (st_users (hb_store demo_hub)). nocase_eq (u_username u) ''ADA'' \<and>
     passwordMatches (demo_env (3600 * second) ''x'') (u_password_hash u) ''longpassword'' \<and>
     totp_scan demo_crypto (u_totp_secret u) ''000000'' (3600 * second) [0, - 1, 1] = Some 120"
proof -
  obtain k rep h' where run: "run_state (postLogin (demo_env (3600 * second) ''x'') demo_web demo_request (Some demo_creds)) demo_hub
      = ((Some k, rep), h')"
    using demo_login_cookie by blast
  have c: "cr_passkey demo_creds = None" "ReplaceAll (TrimSpace (cr_code demo_creds)) CHR '' '' [] = ''000000''"
    "TrimSpace (cr_username demo_creds) = ''ADA''" "cr_password demo_creds = ''longpassword''"
    by (simp_all add: demo_creds_def demo_names ReplaceAll_def)
  from login_needs_credentials [OF run] c obtain u where
    "u \<in> set (st_users (hb_store demo_hub))" "nocase_eq (u_username u) ''ADA''"
    "passwordMatches (demo_env (3600 * second) ''x'') (u_password_hash u) ''longpassword''"
    by auto
  moreover from this have "totp_scan demo_crypto (u_totp_secret u) ''000000'' (3600 * second) [0, - 1, 1] = Some 120"
    by (simp add: demo_crypto_def unix_of_def)
  ultimately show ?thesis by blast
qed

theorem setup_only_once_witness:
  "\<exists>u :: user. u_role u = RoleAdmin \<and> u_username u = ''ADA'' \<and> bcrypt_generate demo_crypto ''longpassword'' = Some (u_password_hash u)"
proof -
  obtain x h' u where run: "run_state (postSetup (demo_env 0 ''x'') demo_request (Some demo_creds)) empty_hub = (x, h')"
      "st_users (hb_store h') = [u]"
    using demo_setup_runs by blast
  have e: "st_users (hb_store empty_hub) = []" by (simp add: empty_hub_def empty_store_def)
  have "u_role u = RoleAdmin \<and> u_username u = ''ADA'' \<and> bcrypt_generate demo_crypto ''longpassword'' = Some (u_password_hash u)"
    using setup_only_once [OF run(1)] run(2) e by (auto simp: demo_creds_def demo_names demo_env_def)
  then show ?thesis by blast
qed

theorem password_change_signs_out_witness:
  "\<exists>h'. run_state (postPassword (demo_env 0 []) demo_request (Some (''longpassword'', ''newpassword'')) demo_own) demo_two
      = (NoContent, h') \<and> 9 \<in> set (hb_stopped h') \<and> st_sessions (hb_store h') = [demo_session]"
proof -
  obtain h' where run: "run_state (postPassword (demo_env 0 []) demo_request (Some (''longpassword'', ''newpassword'')) demo_own) demo_two
      = (NoContent, h')"
    using demo_change_runs by blast
  have "st_faults (hb_store demo_two) = []" by (simp add: demo_two_def demo_defs)
  from password_change_signs_out [OF run this] run show ?thesis
    by (auto simp: demo_two_def demo_own_def demo_other_def demo_user_def demo_session_def)
qed

theorem elevation_needs_confirmation_witness:
  "passwordMatches (demo_env (3600 * second) []) (u_password_hash (ss_user demo_own)) (cr_password demo_creds) \<and>
   (\<exists>n h'. run_state (postElevate (demo_env (3600 * second) []) demo_web demo_request (Some demo_creds) demo_own) demo_hub
      = (WriteJSON 200 n, h') \<and> n = 3600 + 600)"
proof -
  obtain n h' where run: "run_state (postElevate (demo_env (3600 * second) []) demo_web demo_request (Some demo_creds) demo_own) demo_hub
      = (WriteJSON 200 n, h')"
    using demo_elevate_runs by blast
  have "cr_passkey demo_creds = None" by (simp add: demo_creds_def)
  with elevation_needs_confirmation [OF run] run show ?thesis
    by (auto simp: demo_env_def elevationTTL_def unix_of_def)
qed

section \<open>Logins during a password change\<close>

text \<open>
  \<open>postPassword\<close> says that anyone who knew the old password is logged out. No lock spans
  \<open>postLogin\<close>: a login that has compared the old password, which bcrypt makes take a while,
  starts its session after the change has ended all others, and keeps it.
\<close>

definition demo_race :: "(unit reply \<times> login_reply) hub_op" where
  "demo_race = do {
     x \<leftarrow> login_check (demo_env (3600 * second) ''x'') demo_request demo_creds;
     p \<leftarrow> postPassword (demo_env (3600 * second) []) demo_request (Some (''longpassword'', ''newpassword'')) demo_own;
     (case snd x of
        Inl rep \<Rightarrow> return (p, None, rep)
      | Inr u \<Rightarrow> do { y \<leftarrow> startSession (demo_env (3600 * second) ''x'') demo_request u; return (p, y) })
   }"

theorem login_races_password_change:
  "\<exists>k rep h'. run_state demo_race demo_two = ((NoContent, Some k, rep), h') \<and>
     (\<exists>x \<in> set (st_sessions (hb_store h')). se_user x = 1 \<and> se_token x = hashToken (demo_env 0 []) (ck_value k)) \<and>
     (\<forall>u \<in> set (st_users (hb_store h')). \<not> passwordMatches (demo_env 0 []) (u_password_hash u) ''longpassword'')"
  by (simp add: demo_race_def demo_two_def login_check_def demo_defs demo_runs UserByName_def demo_names demo_own_def demo_other_def
     checkTOTP_def ReplaceAll_def postPassword_def validatePassword_def reauthenticate_def SetPassword_def 
   signOutUser_def closeConns_def DeleteOtherSessions_def update_user_def startSession_def CreateSession_def randomToken_def hashToken_def me_def
   Passkeys_def demo_token SetLastLogin_def)

section \<open>The own entries of the activity log\<close>

lemma length_ascii_lower: "length (ascii_lower s) = length s"
  by (simp add: ascii_lower_def)

lemma nocase_eq_length: "nocase_eq s t \<Longrightarrow> length s = length t"
  unfolding nocase_eq_def by (metis length_ascii_lower)

lemma truncate_from_le: "truncate_from s n \<le> n"
  by (induction s n rule: truncate_from.induct) auto

lemma length_truncate: "length (truncate_str s n) \<le> n"
  using truncate_from_le [of s n] by (auto simp: truncate_str_def)

text \<open>
  \<open>getAudit\<close> shows users who are not administrators their own entries, found by their user
  name. Names have up to 64 characters, but \<open>audit\<close> stores their first 64 bytes: a user
  with a longer name never sees an entry.
\<close>

theorem long_name_hides_own_entries:
  assumes "maxNameLen < length (u_username (ss_user s))" and "\<not> Can (ss_user s) RoleAdmin"
    and "st_audit (hb_store h) = []" and "st_faults (hb_store h) = []"
  shows "fst (run_state (do { audit ev r (u_username (ss_user s)) action sys d; getAudit before limit s }) h)
    = WriteJSON 200 \<lparr>ad_entries = [], ad_more = False\<rparr>"
proof -
  have "\<not> nocase_eq (truncate_str (u_username (ss_user s)) maxNameLen) (u_username (ss_user s))"
    using nocase_eq_length length_truncate [of "u_username (ss_user s)" maxNameLen] assms(1) by fastforce
  moreover have "u_username (ss_user s) \<noteq> []" using assms(1) by auto
  ultimately show ?thesis using assms(2-4)
    by (simp add: audit_def getAudit_def AuditOf_def query_tick AddAudit_log Let_def fault_def)
qed

definition demo_long_name :: string where
  "demo_long_name = concat (replicate 33 [CHR 0xC3, CHR 0xA9])"

definition demo_viewer :: session where
  "demo_viewer = \<lparr>ss_user = demo_user\<lparr>u_username := demo_long_name, u_role := RoleViewer\<rparr>, ss_token = [], ss_elevated = 0\<rparr>"

theorem long_name_hides_own_entries_witness:
  "fst (run_state (do { audit (demo_env 0 []) None demo_long_name ''login'' None []; getAudit [] [] demo_viewer }) demo_hub)
     = WriteJSON 200 \<lparr>ad_entries = [], ad_more = False\<rparr>"
proof -
  have l: "length demo_long_name = 66" by (simp add: demo_long_name_def length_concat sum_list_replicate)
  have "fst (run_state (do { audit (demo_env 0 []) None (u_username (ss_user demo_viewer)) ''login'' None [];
      getAudit [] [] demo_viewer }) demo_hub) = WriteJSON 200 \<lparr>ad_entries = [], ad_more = False\<rparr>"
    by (rule long_name_hides_own_entries)
      (simp_all add: l demo_viewer_def maxNameLen_def Can_def RoleIncludes_def roleRank_def RoleAdmin_def RoleOperator_def
        RoleViewer_def demo_hub_def empty_hub_def empty_store_def)
  then show ?thesis by (simp add: demo_viewer_def)
qed

end
