(* ===== verification/AlertEngine.thy ===== *)
theory AlertEngine
  imports HubState
begin

text \<open>
  The alert engine of \<open>hub/alerts.go\<close>: one state per rule and system, advanced by every
  sample and by the periodic check for offline systems, with the alerts of the database
  written along. Every function runs with the engine's mutex held, so each is one step.
\<close>

section \<open>Rules\<close>

text \<open>The conditions a rule can watch: their label and whether they are percentages.\<close>

definition alertMetrics :: "string \<Rightarrow> (string \<times> bool) option" where
  "alertMetrics metric =
     (if metric = ''offline'' then Some (''Offline'', False)
      else if metric = ''cpu'' then Some (''CPU'', True)
      else if metric = ''memory'' then Some (''Memory'', True)
      else if metric = ''disk'' then Some (''Disk'', True)
      else if metric = ''load'' then Some (''Load'', False)
      else None)"

definition alertClearDelay :: duration where "alertClearDelay = 60 * second"

definition alertHistory :: nat where "alertHistory = 50"

record alertEvent =
  an_rule :: alert_rule
  an_alert :: alert
  an_firing :: bool
  an_value :: rat

definition appliesTo :: "alert_rule \<Rightarrow> int \<Rightarrow> bool" where
  "appliesTo r systemID \<longleftrightarrow> (case ru_system_id r of None \<Rightarrow> True | Some i \<Rightarrow> i = systemID)"

definition pct :: "int \<Rightarrow> int \<Rightarrow> rat option" where
  "pct used tot = (if tot = 0 then None else Some (of_int used / of_int tot * 100))"

definition metricValue :: "string \<Rightarrow> metrics \<Rightarrow> rat option" where
  "metricValue metric m =
     (if metric = ''cpu'' then Some (mt_cpu m)
      else if metric = ''memory'' then pct (mt_mem_used m) (mt_mem_total m)
      else if metric = ''disk'' then pct (mt_disk_used m) (mt_disk_total m)
      else if metric = ''load'' then Some (mt_load1 m)
      else None)"

section \<open>The engine\<close>

abbreviation alert_key :: "alert \<Rightarrow> int \<times> int" where
  "alert_key a \<equiv> (al_rule_id a, al_system_id a)"

definition update_engine :: "(alertEngine \<Rightarrow> alertEngine) \<Rightarrow> unit hub_op" where
  "update_engine f = modify (\<lambda>h. h\<lparr>hb_alerts := f (hb_alerts h)\<rparr>)"

definition put_state :: "int \<times> int \<Rightarrow> alertState \<Rightarrow> unit hub_op" where
  "put_state k st = update_engine (\<lambda>e. e\<lparr>eg_states := (eg_states e)(k \<mapsto> st)\<rparr>)"

definition del_state :: "int \<times> int \<Rightarrow> unit hub_op" where
  "del_state k = update_engine (\<lambda>e. e\<lparr>eg_states := (eg_states e)(k := None)\<rparr>)"

definition new_alert_state :: alertState where
  "new_alert_state = \<lparr>as_since = zero_time, as_clear = zero_time, as_alert = None\<rparr>"

definition restore_states :: "alert list \<Rightarrow> (int \<times> int \<Rightarrow> alertState option) \<Rightarrow> int \<times> int \<Rightarrow> alertState option" where
  "restore_states active m =
     fold (\<lambda>a m. m(alert_key a \<mapsto>
       \<lparr>as_since = unix_time (al_started_at a), as_clear = zero_time, as_alert = Some a\<rparr>)) active m"

definition loadAlerts :: "(db_error + unit) hub_op" where
  "loadAlerts = do {
     rules \<leftarrow> db AlertRules;
     (case rules of
        Inl e \<Rightarrow> return (Inl e)
      | Inr rules \<Rightarrow> do {
          active \<leftarrow> db ActiveAlerts;
          (case active of
             Inl e \<Rightarrow> return (Inl e)
           | Inr active \<Rightarrow> do {
               update_engine (\<lambda>e. e\<lparr>eg_rules := filter ru_enabled rules, eg_states := restore_states active (eg_states e)\<rparr>);
               return (Inr ())
             })
        })
   }"

definition fire_alert ::
    "alert_rule \<Rightarrow> int \<Rightarrow> rat \<Rightarrow> alertState \<Rightarrow> alertEvent option hub_op" where
  "fire_alert r systemID value st = do {
     sys \<leftarrow> db (System systemID);
     let name = (case sys of Inr x \<Rightarrow> sy_name x | Inl _ \<Rightarrow> []);
     x \<leftarrow> db (CreateAlert \<lparr>al_id = 0, al_rule_id = ru_id r, al_rule_name = ru_name r, al_system_id = systemID,
            al_system_name = name, al_metric = ru_metric r, al_threshold = ru_threshold r, al_value = value,
            al_started_at = unix_of (as_since st), al_resolved_at = None\<rparr>);
     (case x of
        Inl _ \<Rightarrow> return None
      | Inr a \<Rightarrow> do {
          put_state (ru_id r, systemID) (st\<lparr>as_alert := Some a\<rparr>);
          return (Some \<lparr>an_rule = r, an_alert = a, an_firing = True, an_value = value\<rparr>)
        })
   }"

definition alert_step ::
    "alert_rule \<Rightarrow> int \<Rightarrow> bool \<Rightarrow> rat \<Rightarrow> go_time \<Rightarrow> go_time \<Rightarrow> duration \<Rightarrow> alertEvent option hub_op" where
  "alert_step r systemID holds value since now clearDelay = do {
     let key = (ru_id r, systemID);
     found \<leftarrow> gets (\<lambda>h. eg_states (hb_alerts h) key);
     let st = (case found of None \<Rightarrow> new_alert_state | Some st \<Rightarrow> st);
     if holds then do {
       let st = st\<lparr>as_clear := zero_time, as_since := (if is_zero (as_since st) then since else as_since st)\<rparr>;
       put_state key st;
       if as_alert st \<noteq> None \<or> time_sub now (as_since st) < ru_duration r * second then return None
       else fire_alert r systemID value st
     }
     else (case as_alert st of
             None \<Rightarrow> do { del_state key; return None }
           | Some a \<Rightarrow> do {
               let st = st\<lparr>as_since := zero_time, as_clear := (if is_zero (as_clear st) then now else as_clear st)\<rparr>;
               put_state key st;
               if time_sub now (as_clear st) < clearDelay then return None
               else do {
                 del_state key;
                 db_log (ResolveAlert (al_id a) (unix_of now));
                 return (Some \<lparr>an_rule = r, an_alert = a, an_firing = False, an_value = value\<rparr>)
               }
             })
   }"

section \<open>Notifications\<close>

definition round_minute :: "duration \<Rightarrow> duration" where
  "round_minute d = (if 0 \<le> d then (d + 30 * second) div minute * minute else - ((- d + 30 * second) div minute * minute))"

definition humanDuration :: "duration \<Rightarrow> detail list" where
  "humanDuration d0 =
     (let d = round_minute d0 in
      if d < minute then [Txt ''less than a minute'']
      else if d < hour then [Num (d div minute), Txt '' min'']
      else if d < 48 * hour then [Num (d div hour), Txt ''h '', Num (d div minute mod 60), Txt ''min'']
      else [Num (d div hour div 24), Txt '' days''])"

text \<open>Values keep their number; a percentage is followed by its sign.\<close>

definition format_value :: "bool \<Rightarrow> rat \<Rightarrow> detail list" where
  "format_value percent v = (if percent then [Flt v, Txt ''%''] else [Flt v])"

definition alertText :: "alertEvent \<Rightarrow> go_time \<Rightarrow> detail list \<times> detail list" where
  "alertText e now =
     (let a = an_alert e;
          lasted = humanDuration (time_sub now (unix_time (al_started_at a)));
          name = Txt (al_system_name a)
      in if al_metric a = ''offline'' then
           (if an_firing e
            then ([name, Txt '' is offline''], [Txt ''No contact with '', name, Txt '' for ''] @ lasted @ [Txt ''.''])
            else ([name, Txt '' is back online''], [name, Txt '' was offline for ''] @ lasted @ [Txt ''.'']))
         else
           (let (label, percent) = (case alertMetrics (al_metric a) of None \<Rightarrow> ([], False) | Some x \<Rightarrow> x);
                fmt = format_value percent
            in if an_firing e
               then ([name, Txt '': '', Txt label, Txt '' at ''] @ fmt (an_value e),
                     [Txt label, Txt '' has been above ''] @ fmt (al_threshold a) @ [Txt '' for ''] @ lasted @
                     [Txt '' (rule '', Quoted (al_rule_name a), Txt '').''])
               else ([name, Txt '': '', Txt label, Txt '' back to normal''],
                     [Txt label, Txt '' is at ''] @ fmt (an_value e) @ [Txt '' again after ''] @ lasted @
                     [Txt '' above ''] @ fmt (al_threshold a) @ [Txt ''.''])))"

definition systemURL :: "string \<Rightarrow> int \<Rightarrow> string" where
  "systemURL base i = (if base = [] then [] else base @ ''/systems/'' @ show_int i)"

definition event_notification :: "string \<Rightarrow> alertEvent \<Rightarrow> go_time \<Rightarrow> notification" where
  "event_notification base e now =
     (case alertText e now of
        (title, msg) \<Rightarrow>
          \<lparr>nt_title = title, nt_message = msg, nt_firing = an_firing e, nt_url = systemURL base (al_system_id (an_alert e)),
           nt_time = now, nt_system = al_system_name (an_alert e), nt_metric = al_metric (an_alert e), nt_value = an_value e,
           nt_threshold = al_threshold (an_alert e)\<rparr>)"

definition dispatch :: "alertEvent list \<Rightarrow> go_time \<Rightarrow> unit hub_op" where
  "dispatch events now =
     (if events = [] then return ()
      else do {
        publish AlertsEvent;
        modify (\<lambda>h. h\<lparr>hb_tasks := hb_tasks h @
          concat (map (\<lambda>e. map (\<lambda>i. Deliver i (event_notification (hb_public_url h) e now)) (ru_notifiers (an_rule e))) events)\<rparr>)
      })"

section \<open>Evaluation\<close>

text \<open>The loops append the events of their steps.\<close>

fun metric_rules :: "int \<Rightarrow> metrics \<Rightarrow> go_time \<Rightarrow> alert_rule list \<Rightarrow> alertEvent list hub_op" where
  "metric_rules systemID m now [] = return []"
| "metric_rules systemID m now (r # rs) =
     (if ru_metric r = ''offline'' \<or> \<not> appliesTo r systemID then metric_rules systemID m now rs
      else (case metricValue (ru_metric r) m of
              None \<Rightarrow> metric_rules systemID m now rs
            | Some v \<Rightarrow> do {
                e \<leftarrow> alert_step r systemID (ru_threshold r < v) v now now alertClearDelay;
                es \<leftarrow> metric_rules systemID m now rs;
                return (case e of None \<Rightarrow> es | Some e \<Rightarrow> e # es)
              }))"

definition evaluateMetrics :: "int \<Rightarrow> metrics \<Rightarrow> go_time \<Rightarrow> unit hub_op" where
  "evaluateMetrics systemID m now = do {
     rules \<leftarrow> gets (\<lambda>h. eg_rules (hb_alerts h));
     events \<leftarrow> metric_rules systemID m now rules;
     dispatch events now
   }"

fun offline_systems :: "alert_rule \<Rightarrow> go_time \<Rightarrow> system list \<Rightarrow> alertEvent list hub_op" where
  "offline_systems r now [] = return []"
| "offline_systems r now (s # ss) =
     (if \<not> appliesTo r (sy_id s) then offline_systems r now ss
      else do {
        h \<leftarrow> State_Monad.get;
        let online = hb_agents h (sy_id s) \<noteq> None;
        let since = (case eg_offline (hb_alerts h) (sy_id s) of None \<Rightarrow> eg_started (hb_alerts h) | Some t \<Rightarrow> t);
        e \<leftarrow> alert_step r (sy_id s) (\<not> online) 0 since now 0;
        es \<leftarrow> offline_systems r now ss;
        return (case e of None \<Rightarrow> es | Some e \<Rightarrow> e # es)
      })"

fun offline_rules :: "go_time \<Rightarrow> system list \<Rightarrow> alert_rule list \<Rightarrow> alertEvent list hub_op" where
  "offline_rules now systems [] = return []"
| "offline_rules now systems (r # rs) =
     (if ru_metric r \<noteq> ''offline'' then offline_rules now systems rs
      else do {
        es \<leftarrow> offline_systems r now systems;
        fs \<leftarrow> offline_rules now systems rs;
        return (es @ fs)
      })"

text \<open>The part of \<open>evaluateOffline\<close> that runs with the mutex held, on the systems read before.\<close>

definition offline_scan :: "go_time \<Rightarrow> system list \<Rightarrow> unit hub_op" where
  "offline_scan now systems = do {
     rules \<leftarrow> gets (\<lambda>h. eg_rules (hb_alerts h));
     events \<leftarrow> offline_rules now systems rules;
     dispatch events now
   }"

definition evaluateOffline :: "go_time \<Rightarrow> unit hub_op" where
  "evaluateOffline now = do {
     systems \<leftarrow> db Systems;
     (case systems of
        Inl _ \<Rightarrow> return ()
      | Inr systems \<Rightarrow> offline_scan now systems)
   }"

definition agentOnline :: "go_time \<Rightarrow> int \<Rightarrow> unit hub_op" where
  "agentOnline now i = do {
     update_engine (\<lambda>e. e\<lparr>eg_offline := (eg_offline e)(i := None)\<rparr>);
     spawn (EvaluateOffline now)
   }"

definition agentOffline :: "go_time \<Rightarrow> int \<Rightarrow> unit hub_op" where
  "agentOffline now i = update_engine (\<lambda>e. e\<lparr>eg_offline := (eg_offline e)(i \<mapsto> now)\<rparr>)"

definition reloadRulesLocked :: "unit hub_op" where
  "reloadRulesLocked = do {
     rules \<leftarrow> db AlertRules;
     (case rules of
        Inl _ \<Rightarrow> return ()
      | Inr rules \<Rightarrow> update_engine (\<lambda>e. e\<lparr>eg_rules := filter ru_enabled rules\<rparr>))
   }"

definition resetAlerts :: "go_time \<Rightarrow> int \<Rightarrow> int \<Rightarrow> unit hub_op" where
  "resetAlerts now ruleID systemID = do {
     db_log (ResolveAlertsWhere ruleID systemID (unix_of now));
     update_engine (\<lambda>e. e\<lparr>eg_states := (\<lambda>k. if fst k = ruleID \<or> snd k = systemID then None else eg_states e k),
       eg_offline := (if systemID \<noteq> 0 then (eg_offline e)(systemID := None) else eg_offline e)\<rparr>);
     (if ruleID \<noteq> 0 then reloadRulesLocked else return ());
     publish AlertsEvent
   }"

text \<open>
  \<open>deliver\<close> sends through one channel, up to three times; \<open>outcome n\<close> is the error of attempt
  \<open>n\<close>, or \<open>None\<close>. The result is recorded for the user interface.
\<close>

fun deliver_attempts :: "(nat \<Rightarrow> string option) \<Rightarrow> nat list \<Rightarrow> string option \<Rightarrow> string option" where
  "deliver_attempts outcome [] err = err"
| "deliver_attempts outcome (n # ns) err = (case outcome n of None \<Rightarrow> None | Some e \<Rightarrow> deliver_attempts outcome ns (Some e))"

definition deliver :: "(nat \<Rightarrow> string option) \<Rightarrow> go_time \<Rightarrow> int \<Rightarrow> unit hub_op" where
  "deliver outcome now notifierID = do {
     nf \<leftarrow> db (Notifier notifierID);
     (case nf of
        Inl _ \<Rightarrow> return ()
      | Inr nf \<Rightarrow>
          if \<not> no_enabled nf then return ()
          else do {
            let err = deliver_attempts outcome [0, 1, 2] None;
            db_log (NotifierResult notifierID (unix_of now) (case err of None \<Rightarrow> [] | Some e \<Rightarrow> e));
            publish AlertsEvent
          })
   }"

end
