(* ===== verification/AlertProps.thy ===== *)
theory AlertProps
  imports AlertEngine
begin

text \<open>
  Properties of the alert engine: it implements, for each rule and system, a small machine
  that says when an alert fires and when it resolves.
\<close>

section \<open>The machine of one rule and system\<close>

datatype phase = Quiet | Pending go_time | Firing "go_time option"

datatype verdict = Fire | Resolve

text \<open>
  While the condition holds, the machine is pending since the condition began, and fires
  once that is the rule's duration ago. A firing alert resolves once the condition has not
  held for the clear delay; when it holds again before, the delay starts over.
\<close>

fun spec_step :: "duration \<Rightarrow> duration \<Rightarrow> phase \<Rightarrow> bool \<Rightarrow> go_time \<Rightarrow> go_time \<Rightarrow> phase \<times> verdict option" where
  "spec_step dur clear Quiet holds since now =
     (if \<not> holds then (Quiet, None)
      else if time_sub now since < dur then (Pending since, None) else (Firing None, Some Fire))"
| "spec_step dur clear (Pending t) holds since now =
     (if \<not> holds then (Quiet, None)
      else if time_sub now t < dur then (Pending t, None) else (Firing None, Some Fire))"
| "spec_step dur clear (Firing c) holds since now =
     (if holds then (Firing None, None)
      else (let t = (case c of None \<Rightarrow> now | Some t \<Rightarrow> t) in
            if time_sub now t < clear then (Firing (Some t), None) else (Quiet, Some Resolve)))"

text \<open>The abstraction of the engine's state.\<close>

definition phase_of :: "alertState option \<Rightarrow> phase" where
  "phase_of x =
     (case x of
        None \<Rightarrow> Quiet
      | Some st \<Rightarrow>
          (case as_alert st of
             None \<Rightarrow> if is_zero (as_since st) then Quiet else Pending (as_since st)
           | Some _ \<Rightarrow> Firing (if is_zero (as_clear st) then None else Some (as_clear st))))"

definition verdict_of :: "alertEvent \<Rightarrow> verdict" where
  "verdict_of e = (if an_firing e then Fire else Resolve)"

lemmas step_defs = alert_step_def fire_alert_def put_state_def del_state_def update_engine_def

lemma CreateAlert_run:
  "st_faults s = [] \<Longrightarrow> CreateAlert a s =
     (Inr (a\<lparr>al_id := next_rowid al_id (st_alerts s), al_resolved_at := None\<rparr>),
      s\<lparr>st_alerts := st_alerts s @ [a\<lparr>al_id := next_rowid al_id (st_alerts s), al_resolved_at := None\<rparr>]\<rparr>)"
  by (simp add: CreateAlert_def stmt_tick Let_def)

lemma System_run: "st_faults s = [] \<Longrightarrow> snd (System i s) = s"
  by (simp add: System_def query_row_tick)

lemma alert_step_spec:
  assumes "run_state (alert_step r systemID holds value since now clear) h = (e, h')"
    and "st_faults (hb_store h) = []" and "since \<noteq> zero_time" and "now \<noteq> zero_time"
  shows "spec_step (ru_duration r * second) clear (phase_of (eg_states (hb_alerts h) (ru_id r, systemID))) holds since now
      = (phase_of (eg_states (hb_alerts h') (ru_id r, systemID)), map_option verdict_of e)"
    and "k \<noteq> (ru_id r, systemID) \<Longrightarrow> eg_states (hb_alerts h') k = eg_states (hb_alerts h) k"
    and "st_faults (hb_store h') = []"
  using assms
  by (cases holds; cases "eg_states (hb_alerts h) (ru_id r, systemID)";
      force simp: step_defs Let_def phase_of_def verdict_of_def is_zero_def new_alert_state_def ResolveAlert_def exec_tick
        CreateAlert_run System_run System_def query_row_tick split: option.splits if_splits prod.splits)+

text \<open>
  (C28) Refinement: without failures of the database, a step of the engine moves the state of
  the rule and the system as the machine says and reports what it reports, and leaves the
  state of every other rule and system alone.
\<close>

theorem alert_step_refines:
  assumes "run_state (alert_step r systemID holds value since now clear) h = (e, h')"
    and "st_faults (hb_store h) = []" and "since \<noteq> zero_time" and "now \<noteq> zero_time"
  shows "spec_step (ru_duration r * second) clear (phase_of (eg_states (hb_alerts h) (ru_id r, systemID))) holds since now
      = (phase_of (eg_states (hb_alerts h') (ru_id r, systemID)), map_option verdict_of e) \<and>
    (\<forall>k. k \<noteq> (ru_id r, systemID) \<longrightarrow> eg_states (hb_alerts h') k = eg_states (hb_alerts h) k)"
  using alert_step_spec [OF assms] by blast

text \<open>A rule that fires at once, on an empty hub.\<close>

definition quick_rule :: alert_rule where
  "quick_rule = \<lparr>ru_id = 1, ru_name = ''busy'', ru_system_id = None, ru_metric = ''cpu'', ru_threshold = 50, ru_duration = 0,
     ru_notifiers = [], ru_enabled = True, ru_created_at = 0\<rparr>"

theorem alert_step_refines_witness:
  "spec_step 0 0 Quiet True 5 6 = (Firing None, Some Fire) \<and>
   (let (e, h') = run_state (alert_step quick_rule 7 True 90 5 6 0) empty_hub in
    (phase_of (eg_states (hb_alerts h') (1, 7)), map_option verdict_of e) = (Firing None, Some Fire))"
proof -
  obtain e h' where r: "run_state (alert_step quick_rule 7 True 90 5 6 0) empty_hub = (e, h')" by fastforce
  have "st_faults (hb_store empty_hub) = []" "(5::int) \<noteq> zero_time" "(6::int) \<noteq> zero_time"
    by (simp_all add: empty_hub_def empty_store_def zero_time_def)
  from alert_step_refines [OF r this] r show ?thesis
    by (simp add: quick_rule_def empty_hub_def phase_of_def time_sub_def)
qed

section \<open>When alerts fire and resolve\<close>

text \<open>A sequence of evaluations of one rule on one system.\<close>

record sample =
  sp_holds :: bool
  sp_value :: rat
  sp_since :: go_time
  sp_now :: go_time

fun feed :: "alert_rule \<Rightarrow> int \<Rightarrow> duration \<Rightarrow> sample list \<Rightarrow> verdict option list hub_op" where
  "feed r i clear [] = return []"
| "feed r i clear (x # xs) = do {
     e \<leftarrow> alert_step r i (sp_holds x) (sp_value x) (sp_since x) (sp_now x) clear;
     es \<leftarrow> feed r i clear xs;
     return (map_option verdict_of e # es)
   }"

fun spec_feed :: "duration \<Rightarrow> duration \<Rightarrow> phase \<Rightarrow> sample list \<Rightarrow> phase \<times> verdict option list" where
  "spec_feed dur clear p [] = (p, [])"
| "spec_feed dur clear p (x # xs) =
     (case spec_step dur clear p (sp_holds x) (sp_since x) (sp_now x) of
        (p', v) \<Rightarrow> map_prod id (Cons v) (spec_feed dur clear p' xs))"

definition timed :: "sample list \<Rightarrow> bool" where
  "timed xs \<longleftrightarrow> list_all (\<lambda>x. sp_since x \<noteq> zero_time \<and> sp_now x \<noteq> zero_time) xs"

lemma feed_refines:
  assumes "run_state (feed r i clear xs) h = (vs, h')" and "st_faults (hb_store h) = []" and "timed xs"
  shows "spec_feed (ru_duration r * second) clear (phase_of (eg_states (hb_alerts h) (ru_id r, i))) xs
    = (phase_of (eg_states (hb_alerts h') (ru_id r, i)), vs)"
  using assms
proof (induction xs arbitrary: h vs h')
  case Nil
  then show ?case by simp
next
  case (Cons x xs)
  obtain e h1 where s: "run_state (alert_step r i (sp_holds x) (sp_value x) (sp_since x) (sp_now x) clear) h = (e, h1)"
    by fastforce
  obtain es h2 where f: "run_state (feed r i clear xs) h1 = (es, h2)" by fastforce
  have t: "sp_since x \<noteq> zero_time" "sp_now x \<noteq> zero_time" "timed xs" using Cons.prems(3) by (simp_all add: timed_def)
  note st = alert_step_spec [OF s Cons.prems(2) t(1,2)]
  from Cons.prems(1) s f have "vs = map_option verdict_of e # es" "h' = h2" by auto
  with st(1) Cons.IH [OF f st(3) t(3)] show ?case by simp
qed

lemma length_spec_feed: "length (snd (spec_feed dur clear p xs)) = length xs"
  by (induction xs arbitrary: p) (auto split: prod.splits)

lemma spec_feed_append:
  "spec_feed dur clear p (xs @ ys) =
     (case spec_feed dur clear p xs of (q, vs) \<Rightarrow> map_prod id (\<lambda>ws. vs @ ws) (spec_feed dur clear q ys))"
  by (induction xs arbitrary: p) (auto simp: prod.map_comp comp_def prod.map_ident prod.map_id0 prod_eq_iff split: prod.splits)

lemma spec_feed_nth:
  assumes "i < length xs"
  shows "snd (spec_feed dur clear p xs) ! i =
    snd (spec_step dur clear (fst (spec_feed dur clear p (take i xs))) (sp_holds (xs ! i)) (sp_since (xs ! i)) (sp_now (xs ! i)))"
proof -
  have xs: "xs = take i xs @ xs ! i # drop (Suc i) xs" using assms by (rule id_take_nth_drop)
  obtain q vs where q: "spec_feed dur clear p (take i xs) = (q, vs)" by fastforce
  have "length vs = i" using length_spec_feed [of dur clear p "take i xs"] q assms by simp
  with q show ?thesis by (subst xs) (simp add: spec_feed_append nth_append split: prod.splits)
qed

text \<open>
  The condition has held (or not held) from sample \<open>m\<close> up to the end of the list, and not
  (or held) just before.
\<close>

definition streak :: "bool \<Rightarrow> sample list \<Rightarrow> nat \<Rightarrow> bool" where
  "streak b xs m \<longleftrightarrow> m < length xs \<and> (\<forall>j. m \<le> j \<and> j < length xs \<longrightarrow> sp_holds (xs ! j) = b) \<and>
     (0 < m \<longrightarrow> sp_holds (xs ! (m - 1)) \<noteq> b)"

definition phase_inv :: "phase \<Rightarrow> sample list \<Rightarrow> bool" where
  "phase_inv p xs \<longleftrightarrow>
     (case p of
        Quiet \<Rightarrow> xs = [] \<or> \<not> sp_holds (last xs)
      | Pending t \<Rightarrow> \<exists>m. streak True xs m \<and> sp_since (xs ! m) = t
      | Firing None \<Rightarrow> xs \<noteq> [] \<and> sp_holds (last xs)
      | Firing (Some t) \<Rightarrow> \<exists>m. 0 < m \<and> streak False xs m \<and> sp_now (xs ! m) = t)"

lemma streak_snoc: "streak b xs m \<Longrightarrow> sp_holds x = b \<Longrightarrow> streak b (xs @ [x]) m"
  by (auto simp: streak_def nth_append less_Suc_eq)

lemma streak_start: "sp_holds x = b \<Longrightarrow> xs = [] \<or> sp_holds (last xs) \<noteq> b \<Longrightarrow> streak b (xs @ [x]) (length xs)"
  by (auto simp: streak_def nth_append last_conv_nth less_Suc_eq)

lemma phase_inv_step:
  assumes "phase_inv p xs"
  shows "phase_inv (fst (spec_step dur clear p (sp_holds x) (sp_since x) (sp_now x))) (xs @ [x])"
proof (cases p)
  case Quiet
  with assms show ?thesis
    using streak_start [of x True xs] by (auto simp: phase_inv_def intro!: exI [of _ "length xs"])
next
  case (Pending t)
  then obtain m where m: "streak True xs m" "sp_since (xs ! m) = t" using assms by (auto simp: phase_inv_def)
  then have "(xs @ [x]) ! m = xs ! m" by (simp add: streak_def nth_append)
  with Pending m streak_snoc [OF m(1), of x] show ?thesis by (auto simp: phase_inv_def)
next
  case (Firing c)
  show ?thesis
  proof (cases c)
    case None
    with assms Firing have "xs \<noteq> []" "sp_holds (last xs)" by (auto simp: phase_inv_def)
    with Firing None streak_start [of x False xs] show ?thesis
      by (auto simp: phase_inv_def Let_def intro!: exI [of _ "length xs"])
  next
    case (Some t)
    with assms Firing obtain m where m: "0 < m" "streak False xs m" "sp_now (xs ! m) = t" by (auto simp: phase_inv_def)
    then have "(xs @ [x]) ! m = xs ! m" by (simp add: streak_def nth_append)
    with Firing Some m streak_snoc [OF m(2), of x] show ?thesis by (auto simp: phase_inv_def Let_def)
  qed
qed

lemma phase_inv_feed: "phase_inv (fst (spec_feed dur clear Quiet xs)) xs"
proof (induction xs rule: rev_induct)
  case Nil
  then show ?case by (simp add: phase_inv_def)
next
  case (snoc x xs)
  then show ?case using phase_inv_step [OF snoc, of dur clear x] by (auto simp: spec_feed_append split: prod.splits)
qed

text \<open>A verdict at the end of a list comes from a streak that has lasted long enough.\<close>

lemma verdict_streak:
  assumes "phase_inv p xs" and "snd (spec_step dur clear p (sp_holds x) (sp_since x) (sp_now x)) = Some v"
  shows "case v of
      Fire \<Rightarrow> \<exists>m. streak True (xs @ [x]) m \<and> dur \<le> time_sub (sp_now x) (sp_since ((xs @ [x]) ! m))
    | Resolve \<Rightarrow> \<exists>m. 0 < m \<and> streak False (xs @ [x]) m \<and> clear \<le> time_sub (sp_now x) (sp_now ((xs @ [x]) ! m))"
proof (cases p)
  case Quiet
  with assms streak_start [of x True xs] show ?thesis
    by (auto simp: phase_inv_def not_less split: if_splits intro!: exI [of _ "length xs"])
next
  case (Pending t)
  then obtain m where m: "streak True xs m" "sp_since (xs ! m) = t" using assms by (auto simp: phase_inv_def)
  then have "(xs @ [x]) ! m = xs ! m" by (simp add: streak_def nth_append)
  with Pending m assms(2) streak_snoc [OF m(1), of x] show ?thesis by (auto simp: not_less split: if_splits)
next
  case (Firing c)
  show ?thesis
  proof (cases c)
    case None
    with assms Firing have "xs \<noteq> []" "sp_holds (last xs)" by (auto simp: phase_inv_def)
    with Firing None assms(2) streak_start [of x False xs] show ?thesis
      by (auto simp: Let_def not_less split: if_splits intro!: exI [of _ "length xs"])
  next
    case (Some t)
    with assms Firing obtain m where m: "0 < m" "streak False xs m" "sp_now (xs ! m) = t" by (auto simp: phase_inv_def)
    then have "(xs @ [x]) ! m = xs ! m" by (simp add: streak_def nth_append)
    with Firing Some m assms(2) streak_snoc [OF m(2), of x] show ?thesis
      by (auto simp: Let_def not_less split: if_splits)
  qed
qed

text \<open>
  (C29) Timing: over any sequence of evaluations of a rule on a system that was quiet, an
  alert fires only when the condition has held in every evaluation since a time at least
  the rule's duration ago, and resolves only when it has not held in any evaluation for at
  least the clear delay, after having held.
\<close>

theorem alert_timing:
  assumes "run_state (feed r i clear xs) h = (vs, h')" and "st_faults (hb_store h) = []" and "timed xs"
    and "eg_states (hb_alerts h) (ru_id r, i) = None" and "n < length xs" and "vs ! n = Some v"
  shows "case v of
      Fire \<Rightarrow> \<exists>m. streak True (take (Suc n) xs) m \<and> ru_duration r * second \<le> time_sub (sp_now (xs ! n)) (sp_since (xs ! m))
    | Resolve \<Rightarrow> \<exists>m. 0 < m \<and> streak False (take (Suc n) xs) m \<and> clear \<le> time_sub (sp_now (xs ! n)) (sp_now (xs ! m))"
proof -
  have vs: "vs = snd (spec_feed (ru_duration r * second) clear Quiet xs)"
    using feed_refines [OF assms(1-3)] assms(4) by (simp add: phase_of_def)
  have xs: "take n xs @ [xs ! n] = take (Suc n) xs" using assms(5) by (simp add: take_Suc_conv_app_nth)
  have m: "streak b (take (Suc n) xs) m \<Longrightarrow> take (Suc n) xs ! m = xs ! m" for b m
    by (auto simp: streak_def)
  from verdict_streak [OF phase_inv_feed [of "ru_duration r * second" clear "take n xs"], of "ru_duration r * second" clear "xs ! n" v]
    spec_feed_nth [OF assms(5), of "ru_duration r * second" clear Quiet] assms(6) vs xs
  show ?thesis by (auto split: verdict.splits dest: m) (metis m)+
qed

definition two_samples :: "bool \<Rightarrow> sample list" where
  "two_samples b = [\<lparr>sp_holds = b, sp_value = 90, sp_since = 5, sp_now = 6\<rparr>, \<lparr>sp_holds = b, sp_value = 90, sp_since = 7, sp_now = 8\<rparr>]"

theorem alert_timing_witness:
  "fst (run_state (feed quick_rule 7 0 (two_samples True)) empty_hub) ! 0 = Some Fire \<and>
   (\<exists>m. streak True (take 1 (two_samples True)) m \<and> 0 \<le> time_sub 6 (sp_since (two_samples True ! m)))"
proof -
  obtain vs h' where r: "run_state (feed quick_rule 7 0 (two_samples True)) empty_hub = (vs, h')" by fastforce
  have f: "st_faults (hb_store empty_hub) = []" "timed (two_samples True)" "eg_states (hb_alerts empty_hub) (ru_id quick_rule, 7) = None"
    "0 < length (two_samples True)"
    by (simp_all add: empty_hub_def empty_store_def timed_def two_samples_def zero_time_def)
  have v: "vs ! 0 = Some Fire" using feed_refines [OF r f(1,2)]
    by (auto simp: two_samples_def quick_rule_def empty_hub_def phase_of_def time_sub_def)
  from alert_timing [OF r f v] r v show ?thesis by (simp add: two_samples_def quick_rule_def)
qed

lemma pending_fires:
  assumes "list_all sp_holds xs" and "xs \<noteq> []" and "dur \<le> time_sub (sp_now (last xs)) t"
  shows "Some Fire \<in> set (snd (spec_feed dur clear (Pending t) xs))"
  using assms by (induction xs) (auto split: prod.splits if_splits)

lemma firing_resolves:
  assumes "list_all (\<lambda>x. \<not> sp_holds x) xs" and "xs \<noteq> []" and "clear \<le> time_sub (sp_now (last xs)) t"
  shows "Some Resolve \<in> set (snd (spec_feed dur clear (Firing (Some t)) xs))"
  using assms by (induction xs) (auto split: prod.splits if_splits)

lemma quiet_fires:
  assumes "list_all sp_holds xs" and "xs \<noteq> []" and "dur \<le> time_sub (sp_now (last xs)) (sp_since (hd xs))"
  shows "Some Fire \<in> set (snd (spec_feed dur clear Quiet xs))"
  using assms pending_fires [of "tl xs" dur "sp_since (hd xs)" clear]
  by (cases xs) (auto split: prod.splits if_splits)

lemma held_resolves:
  assumes "list_all (\<lambda>x. \<not> sp_holds x) xs" and "xs \<noteq> []" and "clear \<le> time_sub (sp_now (last xs)) (sp_now (hd xs))"
  shows "Some Resolve \<in> set (snd (spec_feed dur clear (Firing None) xs))"
  using assms firing_resolves [of "tl xs" clear "sp_now (hd xs)" dur]
  by (cases xs) (auto simp: Let_def split: prod.splits if_splits)

text \<open>
  (C30) Liveness: a condition that holds in every evaluation from a time on fires once the
  rule's duration has passed, and a firing alert whose condition holds in no evaluation
  resolves once the clear delay has passed.
\<close>

theorem alert_reported:
  assumes "run_state (feed r i clear xs) h = (vs, h')" and "st_faults (hb_store h) = []" and "timed xs" and "xs \<noteq> []"
  shows "(phase_of (eg_states (hb_alerts h) (ru_id r, i)) = Quiet \<and> list_all sp_holds xs \<and>
       ru_duration r * second \<le> time_sub (sp_now (last xs)) (sp_since (hd xs)) \<longrightarrow> Some Fire \<in> set vs) \<and>
     (phase_of (eg_states (hb_alerts h) (ru_id r, i)) = Firing None \<and> list_all (\<lambda>x. \<not> sp_holds x) xs \<and>
       clear \<le> time_sub (sp_now (last xs)) (sp_now (hd xs)) \<longrightarrow> Some Resolve \<in> set vs)"
proof -
  have vs: "vs = snd (spec_feed (ru_duration r * second) clear (phase_of (eg_states (hb_alerts h) (ru_id r, i))) xs)"
    using feed_refines [OF assms(1-3)] by simp
  show ?thesis using quiet_fires held_resolves assms(4) by (auto simp: vs)
qed

theorem alert_reported_witness:
  "Some Fire \<in> set (fst (run_state (feed quick_rule 7 0 (two_samples True)) empty_hub))"
proof -
  obtain vs h' where r: "run_state (feed quick_rule 7 0 (two_samples True)) empty_hub = (vs, h')" by fastforce
  have f: "st_faults (hb_store empty_hub) = []" "timed (two_samples True)" "two_samples True \<noteq> []"
    by (simp_all add: empty_hub_def empty_store_def timed_def two_samples_def zero_time_def)
  from alert_reported [OF r f] r show ?thesis
    by (simp add: two_samples_def quick_rule_def empty_hub_def phase_of_def time_sub_def)
qed

end
