(* ===== verification/AlertSync.thy ===== *)
theory AlertSync
  imports AlertProps
begin

text \<open>
  The alerts the engine considers firing are exactly the open alerts of the database, so
  that a restart neither forgets one nor reports it twice.
\<close>

section \<open>The engine and the database agree\<close>

definition firing :: "hub \<Rightarrow> int \<times> int \<Rightarrow> alert option" where
  "firing h k = Option.bind (eg_states (hb_alerts h) k) as_alert"

definition is_open :: "alert list \<Rightarrow> alert \<Rightarrow> bool" where
  "is_open as a \<longleftrightarrow> a \<in> set as \<and> al_resolved_at a = None"

text \<open>
  The firing alerts of the engine are the open alerts of the database, one at most for a
  rule and a system. The identifier 0, which \<open>resetAlerts\<close> takes for none, is not used.
\<close>

definition in_step :: "alert list \<Rightarrow> (int \<times> int \<Rightarrow> alert option) \<Rightarrow> bool" where
  "in_step as f \<longleftrightarrow> distinct (map al_id as) \<and>
     (\<forall>k a. f k = Some a \<longleftrightarrow> is_open as a \<and> alert_key a = k) \<and>
     (\<forall>a. is_open as a \<longrightarrow> al_rule_id a \<noteq> 0 \<and> al_system_id a \<noteq> 0)"

definition agree :: "hub \<Rightarrow> bool" where
  "agree h \<longleftrightarrow> st_faults (hb_store h) = [] \<and> in_step (st_alerts (hb_store h)) (firing h) \<and>
     0 \<notin> ru_id ` set (st_rules (hb_store h)) \<and> 0 \<notin> ru_id ` set (eg_rules (hb_alerts h))"

definition resolve_where :: "(alert \<Rightarrow> bool) \<Rightarrow> int \<Rightarrow> alert \<Rightarrow> alert" where
  "resolve_where P ts a = (if al_resolved_at a = None \<and> P a then a\<lparr>al_resolved_at := Some ts\<rparr> else a)"

lemma resolve_where_id [simp]: "al_id (resolve_where P ts a) = al_id a"
  by (simp add: resolve_where_def)

lemma is_open_simps [simp]:
  "is_open (as @ [a]) b \<longleftrightarrow> is_open as b \<or> (b = a \<and> al_resolved_at a = None)"
  "is_open (map (resolve_where P ts) as) b \<longleftrightarrow> is_open as b \<and> \<not> P b"
  "is_open (filter Q as) b \<longleftrightarrow> is_open as b \<and> Q b"
  by (auto simp: is_open_def resolve_where_def image_iff split: if_splits)

lemma in_step_firing: "in_step as f \<Longrightarrow> f k = Some a \<longleftrightarrow> is_open as a \<and> alert_key a = k"
  unfolding in_step_def by blast

lemma in_step_create:
  assumes "in_step as f" and "f (alert_key a) = None" and "al_id a = next_rowid al_id as" and "al_resolved_at a = None"
    and "al_rule_id a \<noteq> 0" and "al_system_id a \<noteq> 0"
  shows "in_step (as @ [a]) (f(alert_key a \<mapsto> a))"
proof -
  have "distinct (map al_id (as @ [a]))" using assms by (intro alert_rows.insert_distinct) (auto simp: in_step_def)
  moreover have "(f(alert_key a \<mapsto> a)) k = Some b \<longleftrightarrow> is_open (as @ [a]) b \<and> alert_key b = k" for k b
    using in_step_firing [OF assms(1), of k b] assms(2,4) by auto
  ultimately show ?thesis using assms unfolding in_step_def by auto
qed

lemma in_step_resolve:
  assumes "in_step as f" and "\<And>k a. f k = Some a \<Longrightarrow> g k = (if P a then None else Some a)" and "\<And>k. f k = None \<Longrightarrow> g k = None"
  shows "in_step (map (resolve_where P ts) as) g"
proof -
  have "distinct (map al_id (map (resolve_where P ts) as))" using assms(1) by (simp add: in_step_def comp_def)
  moreover have "g k = Some a \<longleftrightarrow> is_open (map (resolve_where P ts) as) a \<and> alert_key a = k" for k a
    using in_step_firing [OF assms(1), of k a] assms(2,3) [of k] by (cases "f k") (auto split: if_splits)
  ultimately show ?thesis using assms(1) unfolding in_step_def by (metis is_open_simps(2))
qed

lemma in_step_filter:
  assumes "in_step as f" and "\<And>a. al_resolved_at a = None \<Longrightarrow> P a"
  shows "in_step (filter P as) f"
proof -
  have "is_open (filter P as) a = is_open as a" for a using assms(2) [of a] by (auto simp: is_open_def)
  then show ?thesis using assms(1) unfolding in_step_def by (metis alert_rows.delete_distinct)
qed

lemma ResolveAlert_run:
  "st_faults s = [] \<Longrightarrow> snd (ResolveAlert i ts s) = s\<lparr>st_alerts := map (resolve_where (\<lambda>a. al_id a = i) ts) (st_alerts s)\<rparr>"
  by (simp add: ResolveAlert_def exec_tick resolve_where_def conj_commute)

lemma ResolveAlertsWhere_run:
  "st_faults s = [] \<Longrightarrow> snd (ResolveAlertsWhere r i ts s) = s\<lparr>st_alerts := map (resolve_where
     (\<lambda>a. (r \<noteq> 0 \<and> al_rule_id a = r) \<or> (i \<noteq> 0 \<and> al_system_id a = i)) ts) (st_alerts s)\<rparr>"
  by (simp add: ResolveAlertsWhere_def exec_tick resolve_where_def)

text \<open>The states a step starts from and goes to, when the condition holds and when it does not.\<close>

definition start_state :: "hub \<Rightarrow> int \<times> int \<Rightarrow> alertState" where
  "start_state h k = (case eg_states (hb_alerts h) k of None \<Rightarrow> new_alert_state | Some st \<Rightarrow> st)"

definition up_state :: "go_time \<Rightarrow> alertState \<Rightarrow> alertState" where
  "up_state since st = st\<lparr>as_clear := zero_time, as_since := (if is_zero (as_since st) then since else as_since st)\<rparr>"

definition down_state :: "go_time \<Rightarrow> alertState \<Rightarrow> alertState" where
  "down_state now st = st\<lparr>as_since := zero_time, as_clear := (if is_zero (as_clear st) then now else as_clear st)\<rparr>"

definition with_state :: "int \<times> int \<Rightarrow> alertState option \<Rightarrow> hub \<Rightarrow> hub" where
  "with_state k x h = h\<lparr>hb_alerts := (hb_alerts h)\<lparr>eg_states := (eg_states (hb_alerts h))(k := x)\<rparr>\<rparr>"

lemma with_state_simps [simp]:
  "hb_store (with_state k x h) = hb_store h" "eg_rules (hb_alerts (with_state k x h)) = eg_rules (hb_alerts h)"
  "with_state k x (with_state k y h) = with_state k x h"
  "(with_state k x h)\<lparr>hb_store := s\<rparr> = with_state k x (h\<lparr>hb_store := s\<rparr>)"
  by (simp_all add: with_state_def)

lemma firing_with_state [simp]: "firing (with_state k x h) = (firing h)(k := Option.bind x as_alert)"
  by (auto simp: firing_def with_state_def)

lemma firing_set_store [simp]: "firing (h\<lparr>hb_store := s\<rparr>) = firing h"
  by (simp add: firing_def fun_eq_iff)

lemma state_alerts [simp]:
  "as_alert (start_state h k) = firing h k" "as_alert (up_state t st) = as_alert st" "as_alert (down_state t st) = as_alert st"
  by (simp_all add: firing_def start_state_def up_state_def down_state_def new_alert_state_def split: option.splits)

lemma run_put_state [simp]: "run_state (put_state k st) h = ((), with_state k (Some st) h)"
  by (simp add: put_state_def update_engine_def with_state_def)

lemma run_del_state [simp]: "run_state (del_state k) h = ((), with_state k None h)"
  by (simp add: del_state_def update_engine_def with_state_def)

definition fired_alert :: "alert_rule \<Rightarrow> int \<Rightarrow> rat \<Rightarrow> alertState \<Rightarrow> store \<Rightarrow> alert" where
  "fired_alert r i v st s = \<lparr>al_id = next_rowid al_id (st_alerts s), al_rule_id = ru_id r, al_rule_name = ru_name r,
     al_system_id = i, al_system_name = (case row_get sy_id i (st_systems s) of None \<Rightarrow> [] | Some x \<Rightarrow> sy_name x),
     al_metric = ru_metric r, al_threshold = ru_threshold r, al_value = v, al_started_at = unix_of (as_since st),
     al_resolved_at = None\<rparr>"

lemma fired_alert_simps [simp]:
  "al_id (fired_alert r i v st s) = next_rowid al_id (st_alerts s)" "al_rule_id (fired_alert r i v st s) = ru_id r"
  "al_system_id (fired_alert r i v st s) = i" "al_resolved_at (fired_alert r i v st s) = None"
  by (simp_all add: fired_alert_def)

lemma run_fire_alert:
  assumes "st_faults (hb_store h) = []"
  shows "snd (run_state (fire_alert r i v st) h) = with_state (ru_id r, i) (Some (st\<lparr>as_alert := Some (fired_alert r i v st (hb_store h))\<rparr>))
       (h\<lparr>hb_store := (hb_store h)\<lparr>st_alerts := st_alerts (hb_store h) @ [fired_alert r i v st (hb_store h)]\<rparr>\<rparr>)"
  using assms
  by (cases "row_get sy_id i (st_systems (hb_store h))")
    (simp_all add: fire_alert_def System_run CreateAlert_run System_def query_row_tick fired_alert_def)

lemma run_alert_step:
  assumes "st_faults (hb_store h) = []"
  shows "snd (run_state (alert_step r i holds v since now clear) h) =
    (let k = (ru_id r, i); st = start_state h k; up = up_state since st; down = down_state now st in
     if holds then
       (if firing h k \<noteq> None \<or> time_sub now (as_since up) < ru_duration r * second then with_state k (Some up) h
        else snd (run_state (fire_alert r i v up) (with_state k (Some up) h)))
     else (case firing h k of
             None \<Rightarrow> with_state k None h
           | Some a \<Rightarrow>
               if time_sub now (as_clear down) < clear then with_state k (Some down) h
               else with_state k None (h\<lparr>hb_store := (hb_store h)\<lparr>st_alerts :=
                 map (resolve_where (\<lambda>b. al_id b = al_id a) (unix_of now)) (st_alerts (hb_store h))\<rparr>\<rparr>)))"
  unfolding alert_step_def Let_def start_state_def [symmetric] up_state_def [symmetric] down_state_def [symmetric]
  using assms by (auto simp: start_state_def [symmetric] up_state_def [symmetric] down_state_def [symmetric] ResolveAlert_run
      split: option.splits)

text \<open>What a step does to the alerts: nothing, a new one, or one resolved.\<close>

lemma alert_step_effect:
  assumes "run_state (alert_step r i holds v since now clear) h = (e, h')" and "st_faults (hb_store h) = []"
  shows "(st_faults (hb_store h') = [] \<and> st_rules (hb_store h') = st_rules (hb_store h) \<and>
    eg_rules (hb_alerts h') = eg_rules (hb_alerts h)) \<and>
    ((st_alerts (hb_store h') = st_alerts (hb_store h) \<and> firing h' = firing h) \<or>
     (\<exists>a. firing h (ru_id r, i) = None \<and> alert_key a = (ru_id r, i) \<and> al_id a = next_rowid al_id (st_alerts (hb_store h)) \<and>
        al_resolved_at a = None \<and> st_alerts (hb_store h') = st_alerts (hb_store h) @ [a] \<and>
        firing h' = (firing h)(alert_key a \<mapsto> a)) \<or>
     (\<exists>a ts. firing h (ru_id r, i) = Some a \<and>
        st_alerts (hb_store h') = map (resolve_where (\<lambda>b. al_id b = al_id a) ts) (st_alerts (hb_store h)) \<and>
        firing h' = (firing h)((ru_id r, i) := None)))"
proof (cases "holds \<and> \<not> (firing h (ru_id r, i) \<noteq> None \<or>
    time_sub now (as_since (up_state since (start_state h (ru_id r, i)))) < ru_duration r * second)")
  case True
  then show ?thesis
    using run_alert_step [OF assms(2), of r i holds v since now clear] assms by (auto simp: Let_def run_fire_alert)
next
  case False
  with run_alert_step [OF assms(2), of r i holds v since now clear] assms
  show ?thesis by (cases holds; cases "firing h (ru_id r, i)") (auto simp: Let_def fun_upd_idem split: if_splits)
qed

lemma agree_alert_step:
  assumes "agree h" and "ru_id r \<noteq> 0" and "i \<noteq> 0"
    and "run_state (alert_step r i holds v since now clear) h = (e, h')"
  shows "agree h' \<and> eg_rules (hb_alerts h') = eg_rules (hb_alerts h)"
proof -
  have f: "st_faults (hb_store h) = []" and s: "in_step (st_alerts (hb_store h)) (firing h)"
    using assms(1) by (simp_all add: agree_def)
  note eff = alert_step_effect [OF assms(4) f]
  from eff [THEN conjunct2] have "in_step (st_alerts (hb_store h')) (firing h')"
  proof (elim disjE exE conjE)
    fix a assume a: "firing h (ru_id r, i) = None" "alert_key a = (ru_id r, i)" "al_id a = next_rowid al_id (st_alerts (hb_store h))"
      "al_resolved_at a = None" and e: "st_alerts (hb_store h') = st_alerts (hb_store h) @ [a]"
      "firing h' = (firing h)(alert_key a \<mapsto> a)"
    show ?thesis unfolding e using a assms(2,3) by (intro in_step_create s) auto
  next
    fix a ts assume a: "firing h (ru_id r, i) = Some a"
      and e: "st_alerts (hb_store h') = map (resolve_where (\<lambda>b. al_id b = al_id a) ts) (st_alerts (hb_store h))"
        "firing h' = (firing h)((ru_id r, i) := None)"
    note k = in_step_firing [OF s]
    have d: "b = a" if "firing h k = Some b" "al_id b = al_id a" for k b
    proof -
      have "inj_on al_id (set (st_alerts (hb_store h)))" using s by (simp add: in_step_def distinct_map)
      moreover have "is_open (st_alerts (hb_store h)) a" "is_open (st_alerts (hb_store h)) b" using that(1) a k by blast+
      ultimately show ?thesis using that(2) by (simp add: is_open_def inj_on_def)
    qed
    have u: "alert_key a = (ru_id r, i)" using a k by blast
    show ?thesis unfolding e
    proof (rule in_step_resolve [OF s])
      fix k b assume b: "firing h k = Some b"
      then have "alert_key b = k" using k by blast
      show "((firing h)((ru_id r, i) := None)) k = (if al_id b = al_id a then None else Some b)"
      proof (cases "al_id b = al_id a")
        case True
        with d [OF b] u \<open>alert_key b = k\<close> show ?thesis by simp
      next
        case False
        then have "b \<noteq> a" by auto
        with a b have "k \<noteq> (ru_id r, i)" by auto
        with False b show ?thesis by simp
      qed
    qed simp
  qed (use s in simp)
  with eff [THEN conjunct1] assms(1) show ?thesis by (simp add: agree_def)
qed

text \<open>The parts of the state the engine's evaluations leave alone do not matter.\<close>

lemma agree_other [simp]:
  "agree (h\<lparr>hb_broker := b\<rparr>) = agree h" "agree (h\<lparr>hb_tasks := ts\<rparr>) = agree h"
  by (simp_all add: agree_def firing_def [abs_def])

lemma agree_metric_rules:
  assumes "agree h" and "i \<noteq> 0" and "0 \<notin> ru_id ` set rs" and "run_state (metric_rules i m now rs) h = (es, h')"
  shows "agree h'"
  using assms
proof (induction rs arbitrary: h es)
  case (Cons r rs)
  show ?case
  proof (cases "ru_metric r = ''offline'' \<or> \<not> appliesTo r i \<or> metricValue (ru_metric r) m = None")
    case True
    with Cons.prems(4) have "run_state (metric_rules i m now rs) h = (es, h')" by (auto split: if_splits)
    with Cons.IH Cons.prems(1-3) show ?thesis by simp
  next
    case False
    then obtain v where v: "metricValue (ru_metric r) m = Some v" by auto
    obtain e h1 where s: "run_state (alert_step r i (ru_threshold r < v) v now now alertClearDelay) h = (e, h1)" by fastforce
    have "agree h1" using agree_alert_step [OF Cons.prems(1) _ Cons.prems(2) s] Cons.prems(3) by auto
    with Cons False v s show ?thesis by (auto split: prod.splits)
  qed
qed simp

lemma agree_offline_systems:
  assumes "agree h" and "ru_id r \<noteq> 0" and "0 \<notin> sy_id ` set ss" and "run_state (offline_systems r now ss) h = (es, h')"
  shows "agree h'"
  using assms
proof (induction ss arbitrary: h es)
  case (Cons s ss)
  show ?case
  proof (cases "appliesTo r (sy_id s)")
    case False
    with Cons show ?thesis by auto
  next
    case True
    obtain e h1 where s: "run_state (alert_step r (sy_id s) (\<not> hb_agents h (sy_id s) \<noteq> None) 0
        (case eg_offline (hb_alerts h) (sy_id s) of None \<Rightarrow> eg_started (hb_alerts h) | Some t \<Rightarrow> t) now 0) h = (e, h1)"
      by fastforce
    have "agree h1" using agree_alert_step [OF Cons.prems(1,2) _ s] Cons.prems(3) by auto
    with Cons True s show ?thesis by (auto simp: Let_def split: prod.splits)
  qed
qed simp

lemma agree_offline_rules:
  assumes "agree h" and "0 \<notin> ru_id ` set rs" and "0 \<notin> sy_id ` set ss" and "run_state (offline_rules now ss rs) h = (es, h')"
  shows "agree h'"
  using assms
proof (induction rs arbitrary: h es h')
  case (Cons r rs)
  obtain e h1 where s: "run_state (offline_systems r now ss) h = (e, h1)" by fastforce
  have "agree h1" using agree_offline_systems [OF Cons.prems(1) _ Cons.prems(3) s] Cons.prems(2) by auto
  then show ?case using Cons.IH [of h es h'] Cons.IH [of h1 _ h'] Cons.prems s
    by (cases "ru_metric r = ''offline''") (auto split: prod.splits)
qed simp

lemma agree_dispatch: "agree h \<Longrightarrow> agree (snd (run_state (dispatch es now) h))"
  by (auto simp: dispatch_def publish_def)

lemma agree_evaluateMetrics:
  assumes "agree h" and "i \<noteq> 0"
  shows "agree (snd (run_state (evaluateMetrics i m now) h))"
proof -
  obtain es h1 where s: "run_state (metric_rules i m now (eg_rules (hb_alerts h))) h = (es, h1)" by fastforce
  have "agree h1" using agree_metric_rules [OF assms _ s] assms(1) by (simp add: agree_def)
  with s show ?thesis by (simp add: evaluateMetrics_def agree_dispatch)
qed

lemma agree_offline_scan:
  assumes "agree h" and "0 \<notin> sy_id ` set ss"
  shows "agree (snd (run_state (offline_scan now ss) h))"
proof -
  obtain es h1 where s: "run_state (offline_rules now ss (eg_rules (hb_alerts h))) h = (es, h1)" by fastforce
  have "agree h1" using agree_offline_rules [OF assms(1) _ assms(2) s] assms(1) by (simp add: agree_def)
  with s show ?thesis by (simp add: offline_scan_def agree_dispatch)
qed

lemma reset_states:
  assumes "agree h"
  shows "in_step (map (resolve_where (\<lambda>a. (r \<noteq> 0 \<and> al_rule_id a = r) \<or> (i \<noteq> 0 \<and> al_system_id a = i)) ts) (st_alerts (hb_store h)))
    (\<lambda>k. if fst k = r \<or> snd k = i then None else firing h k)"
proof (rule in_step_resolve)
  show s: "in_step (st_alerts (hb_store h)) (firing h)" using assms by (simp add: agree_def)
  fix k a assume "firing h k = Some a"
  with s have "is_open (st_alerts (hb_store h)) a" "alert_key a = k" by (simp_all add: in_step_firing)
  moreover from this(1) s have "al_rule_id a \<noteq> 0" "al_system_id a \<noteq> 0" unfolding in_step_def by blast+
  ultimately show "(if fst k = r \<or> snd k = i then None else firing h k) =
      (if (r \<noteq> 0 \<and> al_rule_id a = r) \<or> (i \<noteq> 0 \<and> al_system_id a = i) then None else Some a)"
    using \<open>firing h k = Some a\<close> by auto
qed simp

lemma agree_resetAlerts:
  assumes "agree h"
  shows "agree (snd (run_state (resetAlerts now r i) h))"
  using assms reset_states [OF assms, of r i "unix_of now"]
  by (auto simp: agree_def resetAlerts_def update_engine_def publish_def reloadRulesLocked_def ResolveAlertsWhere_run
      AlertRules_def query_tick firing_def [abs_def] if_distrib [of "\<lambda>x. Option.bind x as_alert"] cong: if_cong)

lemma agree_PruneAlerts:
  assumes "agree h"
  shows "agree (snd (run_state (db (PruneAlerts now)) h))"
  using assms in_step_filter [of "st_alerts (hb_store h)" "firing h"]
  by (auto simp: agree_def PruneAlerts_def exec_tick firing_def [abs_def])

text \<open>Restarting: a new engine reads the rules and the open alerts.\<close>

definition restart_engine :: "go_time \<Rightarrow> hub \<Rightarrow> hub" where
  "restart_engine now h =
     snd (run_state loadAlerts (h\<lparr>hb_alerts := \<lparr>eg_rules = [], eg_states = (\<lambda>_. None), eg_offline = (\<lambda>_. None), eg_started = now\<rparr>\<rparr>))"

lemma restore_states_firing:
  assumes "distinct (map alert_key as)"
  shows "Option.bind (restore_states as m k) as_alert = Some a \<longleftrightarrow>
    (a \<in> set as \<and> alert_key a = k) \<or> (k \<notin> alert_key ` set as \<and> Option.bind (m k) as_alert = Some a)"
  using assms
proof (induction as arbitrary: m)
  case Nil
  then show ?case by (simp add: restore_states_def)
next
  case (Cons b as)
  then show ?case by (auto simp: restore_states_def)
qed

lemma open_keys_distinct:
  assumes "in_step as f"
  shows "distinct (map alert_key (filter (\<lambda>a. al_resolved_at a = None) as))"
proof -
  have "distinct as" using assms by (simp add: in_step_def distinct_map)
  moreover have "inj_on alert_key {a. is_open as a}"
    by (rule inj_onI) (use in_step_firing [OF assms] in \<open>metis mem_Collect_eq option.inject\<close>)
  moreover have "set (filter (\<lambda>a. al_resolved_at a = None) as) = {a. is_open as a}" by (auto simp: is_open_def)
  ultimately show ?thesis by (simp add: distinct_map)
qed

lemma restart_firing:
  assumes "agree h"
  shows "firing (restart_engine now h) = firing h"
    and "agree (restart_engine now h)"
proof -
  have f: "st_faults (hb_store h) = []" and s: "in_step (st_alerts (hb_store h)) (firing h)" using assms by (simp_all add: agree_def)
  define act where "act = rev (sort_key al_started_at (filter (\<lambda>a. al_resolved_at a = None) (st_alerts (hb_store h))))"
  have "distinct (map alert_key act)" using open_keys_distinct [OF s] by (simp add: act_def distinct_map)
  then have r: "Option.bind (restore_states act (\<lambda>_. None) k) as_alert = Some a \<longleftrightarrow> firing h k = Some a" for k a
    by (subst restore_states_firing) (auto simp: act_def is_open_def in_step_firing [OF s])
  have e: "restart_engine now h = h\<lparr>hb_alerts := \<lparr>eg_rules = filter ru_enabled (sort_key ru_id (st_rules (hb_store h))),
      eg_states = restore_states act (\<lambda>_. None), eg_offline = (\<lambda>_. None), eg_started = now\<rparr>\<rparr>"
    using f by (simp add: restart_engine_def loadAlerts_def AlertRules_def ActiveAlerts_def query_tick update_engine_def act_def)
  show k: "firing (restart_engine now h) = firing h"
  proof
    fix k show "firing (restart_engine now h) k = firing h k"
      using r [of k] by (cases "firing h k") (auto simp: e firing_def [of "h\<lparr>hb_alerts := _\<rparr>"])
  qed
  show "agree (restart_engine now h)" using assms unfolding agree_def k by (auto simp: e)
qed

section \<open>Runs of the engine\<close>

text \<open>
  Samples that arrive, checks for offline systems (on a list of systems that may be out of
  date), agents that come and go, alerts closed after a change of a rule or a system,
  pruning, restarts, and writes to the other tables.
\<close>

inductive engine_step :: "hub \<Rightarrow> hub \<Rightarrow> bool" where
  step_metrics: "i \<noteq> 0 \<Longrightarrow> engine_step h (snd (run_state (evaluateMetrics i m now) h))"
| step_scan: "0 \<notin> sy_id ` set systems \<Longrightarrow> engine_step h (snd (run_state (offline_scan now systems) h))"
| step_online: "engine_step h (snd (run_state (agentOnline now i) h))"
| step_offline: "engine_step h (snd (run_state (agentOffline now i) h))"
| step_reset: "engine_step h (snd (run_state (resetAlerts now r i) h))"
| step_prune: "engine_step h (snd (run_state (db (PruneAlerts now)) h))"
| step_restart: "engine_step h (restart_engine now h)"
| step_other: "st_alerts s = st_alerts (hb_store h) \<Longrightarrow> st_faults s = [] \<Longrightarrow> 0 \<notin> ru_id ` set (st_rules s) \<Longrightarrow>
    engine_step h (h\<lparr>hb_store := s\<rparr>)"

text \<open>A hub that starts with no alert.\<close>

definition engine_init :: "hub \<Rightarrow> bool" where
  "engine_init h \<longleftrightarrow> st_faults (hb_store h) = [] \<and> st_alerts (hb_store h) = [] \<and> eg_states (hb_alerts h) = (\<lambda>_. None) \<and>
     0 \<notin> ru_id ` set (st_rules (hb_store h)) \<and> eg_rules (hb_alerts h) = []"

lemma agree_init: "engine_init h \<Longrightarrow> agree h"
  by (simp add: engine_init_def agree_def in_step_def is_open_def firing_def)

lemma agree_agents:
  assumes "agree h"
  shows "agree (snd (run_state (agentOnline now i) h))" "agree (snd (run_state (agentOffline now i) h))"
  using assms by (simp_all add: agentOnline_def agentOffline_def update_engine_def spawn_def agree_def firing_def [abs_def])

lemma agree_engine_step:
  assumes "engine_step h h'" and "agree h"
  shows "agree h'"
  using assms
proof cases
  case (step_other s)
  with assms(2) show ?thesis by (simp add: agree_def)
qed (use assms(2) in \<open>simp_all add: agree_evaluateMetrics agree_offline_scan agree_resetAlerts agree_PruneAlerts restart_firing
       agree_agents del: run_db\<close>)

interpretation alert_sync: invariant_system engine_init engine_step agree
  by unfold_locales (auto intro: agree_init agree_engine_step)

text \<open>A hub with a rule on the processor, and a system above its threshold.\<close>

definition offline_rule :: alert_rule where
  "offline_rule = quick_rule\<lparr>ru_metric := ''offline''\<rparr>"

definition sync_hub :: hub where
  "sync_hub = empty_hub\<lparr>hb_store := empty_store\<lparr>st_rules := [quick_rule]\<rparr>\<rparr>"

definition sync_fired :: hub where
  "sync_fired = snd (run_state (evaluateMetrics 7 (demo_metrics 90) 6) (restart_engine 5 sync_hub))"

lemmas sync_evals = sync_hub_def quick_rule_def demo_metrics_def empty_hub_def empty_store_def restart_engine_def loadAlerts_def
  AlertRules_def ActiveAlerts_def query_tick update_engine_def restore_states_def evaluateMetrics_def metricValue_def
  appliesTo_def alert_step_def fire_alert_def put_state_def dispatch_def publish_def new_alert_state_def time_sub_def
  System_def query_row_tick row_get_def CreateAlert_run firing_def Let_def is_zero_def

text \<open>
  (C31) Restart: after any run of the engine, the alerts it considers firing are exactly the
  open alerts of the database, and an engine started anew on that database considers the
  same alerts firing: a restart neither forgets an alert nor opens it a second time.
\<close>

theorem alerts_survive_restart:
  assumes "engine_init h0" and "reaches engine_step h0 h"
  shows "(\<forall>a. is_open (st_alerts (hb_store h)) a \<longleftrightarrow> firing h (alert_key a) = Some a) \<and>
    firing (restart_engine now h) = firing h"
proof -
  have "agree h" using assms by (rule alert_sync.inv_reachable)
  then show ?thesis using restart_firing(1) in_step_firing by (auto simp: agree_def)
qed

theorem alerts_survive_restart_witness:
  "firing (restart_engine 9 sync_fired) (1, 7) \<noteq> None \<and>
   firing (restart_engine 9 sync_fired) = firing sync_fired"
proof -
  have "engine_init sync_hub" by (simp add: engine_init_def sync_hub_def quick_rule_def empty_hub_def empty_store_def)
  moreover have "engine_step sync_hub (restart_engine 5 sync_hub)" by (rule step_restart)
  moreover have "engine_step (restart_engine 5 sync_hub) sync_fired"
    unfolding sync_fired_def by (rule step_metrics) simp
  ultimately have "firing (restart_engine 9 sync_fired) = firing sync_fired"
    using alerts_survive_restart [of sync_hub sync_fired 9] by (blast intro: reaches.intros)
  moreover have "firing sync_fired (1, 7) \<noteq> None" by (simp add: sync_fired_def sync_evals)
  ultimately show ?thesis by simp
qed

section \<open>A check that overtakes a deletion\<close>

text \<open>
  \<open>evaluateOffline\<close> reads the systems before it takes the engine's mutex. When a system is
  deleted in between, the check opens an alert for it although it is gone; as no later check
  looks at that system, the alert stays open.
\<close>

definition phantom_hub :: hub where
  "phantom_hub = empty_hub\<lparr>hb_store := empty_store\<lparr>st_systems := [demo_system 7 ''nas''], st_rules := [offline_rule]\<rparr>,
     hb_alerts := (hb_alerts empty_hub)\<lparr>eg_rules := [offline_rule]\<rparr>\<rparr>"

text \<open>The deletion, and then the rest of a check that began before it.\<close>

definition phantom_after :: hub where
  "phantom_after = snd (run_state (do {
     _ \<leftarrow> db (DeleteSystem 7);
     resetAlerts 5 0 7;
     offline_scan 6 [demo_system 7 ''nas'']
   }) phantom_hub)"

lemmas phantom_evals = phantom_after_def phantom_hub_def offline_rule_def demo_system_def DeleteSystem_def exec_affected_tick
  cascade_systems_def resetAlerts_def ResolveAlertsWhere_def exec_tick offline_scan_def dispatch_def publish_def
  quick_rule_def empty_hub_def empty_store_def update_engine_def appliesTo_def alert_step_def fire_alert_def put_state_def
  new_alert_state_def time_sub_def System_def query_row_tick row_get_def CreateAlert_run Let_def is_zero_def

lemma offline_check_overtakes_deletion:
  "st_systems (hb_store phantom_after) = [] \<and>
   list_ex (\<lambda>a. al_system_id a = 7 \<and> al_resolved_at a = None) (st_alerts (hb_store phantom_after)) \<and>
   st_alerts (hb_store (snd (run_state (evaluateOffline now) phantom_after))) = st_alerts (hb_store phantom_after)"
proof -
  have s: "st_systems (hb_store phantom_after) = []" "st_faults (hb_store phantom_after) = []"
    "eg_rules (hb_alerts phantom_after) = [offline_rule]"
    by (simp_all add: phantom_evals)
  moreover have "list_ex (\<lambda>a. al_system_id a = 7 \<and> al_resolved_at a = None) (st_alerts (hb_store phantom_after))"
    by (simp add: phantom_evals)
  moreover have "st_alerts (hb_store (snd (run_state (evaluateOffline now) phantom_after))) = st_alerts (hb_store phantom_after)"
    using s by (simp add: evaluateOffline_def Systems_def query_tick offline_scan_def offline_rule_def quick_rule_def dispatch_def)
  ultimately show ?thesis by blast
qed

end
