(* ===== verification/Notify.thy ===== *)
theory Notify
  imports AlertEngine WebAuthn
begin

text \<open>
  Notification channels (\<open>hub/notify.go\<close>): the settings of a channel, what the browser may
  see of them, and the messages the hub sends. The network is a parameter: whether a request
  can be built for a URL, what the server answers, and what each step of a mail delivery
  returns. \<open>text\<close> renders a title or a message.
\<close>

section \<open>Settings\<close>

definition notifierTypes :: "string list" where
  "notifierTypes = [''ntfy'', ''discord'', ''slack'', ''telegram'', ''webhook'', ''email'']"

definition telegramAPI :: string where
  "telegramAPI = ''https://api.telegram.org''"

text \<open>
  \<open>validate\<close> sets the default of \<open>TLS\<close> in place: it returns the settings too. \<open>parse\<close> is
  \<open>url.Parse\<close>, with the scheme and the host of the URL.
\<close>

definition validate_config ::
    "(string \<Rightarrow> (string \<times> string) option) \<Rightarrow> string \<Rightarrow> notify_config \<Rightarrow> detail list \<times> notify_config" where
  "validate_config parse typ c =
     (if typ \<in> {''ntfy'', ''discord'', ''slack'', ''webhook''} then
        (case parse (nc_url c) of
           Some (scheme, host) \<Rightarrow>
             if (scheme \<noteq> ''http'' \<and> scheme \<noteq> ''https'') \<or> host = [] then ([Txt ''enter a valid http(s) URL''], c) else ([], c)
         | None \<Rightarrow> ([Txt ''enter a valid http(s) URL''], c))
      else if typ = ''telegram'' then
        (if nc_token c = [] \<or> nc_chat_id c = [] then ([Txt ''Telegram needs a bot token and a chat ID''], c) else ([], c))
      else if typ = ''email'' then
        (if nc_host c = [] \<or> nc_from c = [] \<or> nc_to c = []
         then ([Txt ''email needs a server, a sender and at least one recipient''], c)
         else let c = (if nc_tls c = [] then c\<lparr>nc_tls := ''starttls''\<rparr> else c) in
              if nc_tls c \<notin> {''starttls'', ''tls'', ''none''} then ([Txt ''TLS must be starttls, tls or none''], c)
              else ([], c))
      else ([Txt ''unknown channel type '', Quoted typ], c))"

text \<open>Values of a JSON object.\<close>

datatype jval = JStr string | JNum rat | JBool bool | JTime go_time | JObj "(string \<times> jval) list" | JArr "jval list"

definition omitempty :: "string \<Rightarrow> string \<Rightarrow> (string \<times> jval) list" where
  "omitempty k v = (if v = [] then [] else [(k, JStr v)])"

definition marshal_config :: "notify_config \<Rightarrow> (string \<times> jval) list" where
  "marshal_config c =
     omitempty ''url'' (nc_url c) @ omitempty ''token'' (nc_token c) @ omitempty ''chat_id'' (nc_chat_id c) @
     omitempty ''host'' (nc_host c) @ (if nc_port c = 0 then [] else [(''port'', JNum (of_int (nc_port c)))]) @
     omitempty ''username'' (nc_username c) @ omitempty ''password'' (nc_password c) @ omitempty ''from'' (nc_from c) @
     omitempty ''to'' (nc_to c) @ omitempty ''tls'' (nc_tls c)"

text \<open>The loop of \<open>masked\<close>: a secret goes, and a flag says whether it was there.\<close>

definition mask_key :: "string \<Rightarrow> (string \<times> jval) list \<Rightarrow> (string \<times> jval) list" where
  "mask_key k m = filter (\<lambda>(k', _). k' \<noteq> k) m @ [(k @ ''_set'', JBool (k \<in> fst ` set m))]"

definition masked :: "notify_config \<Rightarrow> (string \<times> jval) list" where
  "masked c = fold mask_key [''token'', ''password''] (marshal_config c)"

definition keepSecrets :: "notify_config \<Rightarrow> notify_config \<Rightarrow> notify_config" where
  "keepSecrets stored c =
     c\<lparr>nc_token := (if nc_token c = [] then nc_token stored else nc_token c),
       nc_password := (if nc_password c = [] then nc_password stored else nc_password c)\<rparr>"

section \<open>Requests\<close>

record http_request =
  ht_url :: string
  ht_headers :: "(string \<times> string) list"
  ht_body :: "string + (string \<times> jval) list"     \<comment> \<open>text, or an object sent as JSON\<close>

text \<open>The steps of a mail delivery.\<close>

datatype mail_step =
    DialTLS string int | Dial string int | NewClient string | StartTLS string
  | PlainAuth string string string | MailFrom string | Rcpt string | DataCmd | WriteMail string | CloseMail | Quit

text \<open>
  \<open>nw_new\<close> is the error of \<open>http.NewRequest\<close> for a URL, \<open>nw_do\<close> what the client returns: the
  error inside its \<open>url.Error\<close>, or status code, status line and body.
\<close>

record network =
  nw_new :: "string \<Rightarrow> string option"
  nw_do :: "http_request \<Rightarrow> string + (int \<times> string \<times> string)"
  nw_mail :: "mail_step \<Rightarrow> string option"
  nw_starttls :: bool

definition do_request :: "network \<Rightarrow> http_request \<Rightarrow> string option" where
  "do_request nw req =
     (case nw_do nw req of
        Inl e \<Rightarrow> Some e
      | Inr (code, status, body) \<Rightarrow>
          if code div 100 \<noteq> 2 then Some (''server answered '' @ status @ '': '' @ TrimSpace (take 300 body)) else None)"

definition postJSON :: "network \<Rightarrow> string \<Rightarrow> (string \<times> jval) list \<Rightarrow> string option" where
  "postJSON nw endpoint body =
     (case nw_new nw endpoint of
        Some e \<Rightarrow> Some e
      | None \<Rightarrow> do_request nw \<lparr>ht_url = endpoint, ht_headers = [(''Content-Type'', ''application/json'')], ht_body = Inr body\<rparr>)"

definition plainText :: "(detail list \<Rightarrow> string) \<Rightarrow> notification \<Rightarrow> string" where
  "plainText text n =
     text (nt_title n) @ [CHR 0x0A] @ text (nt_message n) @ (if nt_url n = [] then [] else [CHR 0x0A] @ nt_url n)"

definition ntfy_headers :: "(detail list \<Rightarrow> string) \<Rightarrow> notify_config \<Rightarrow> notification \<Rightarrow> (string \<times> string) list" where
  "ntfy_headers text c n =
     [(''Title'', text (nt_title n))] @
     (if nt_firing n then [(''Priority'', ''high''), (''Tags'', ''warning'')] else [(''Tags'', ''white_check_mark'')]) @
     (if nt_url n = [] then [] else [(''Click'', nt_url n)]) @
     (if nc_token c = [] then [] else [(''Authorization'', ''Bearer '' @ nc_token c)])"

definition sendNtfy :: "network \<Rightarrow> (detail list \<Rightarrow> string) \<Rightarrow> notify_config \<Rightarrow> notification \<Rightarrow> string option" where
  "sendNtfy nw text c n =
     (case nw_new nw (nc_url c) of
        Some e \<Rightarrow> Some e
      | None \<Rightarrow> do_request nw \<lparr>ht_url = nc_url c, ht_headers = ntfy_headers text c n, ht_body = Inl (text (nt_message n))\<rparr>)"

section \<open>Mail\<close>

text \<open>
  Steps run in order up to the first error, except that an error of writing the text, which
  the code does not look at; the steps taken are kept.
\<close>

definition step_error :: "(mail_step \<Rightarrow> string option) \<Rightarrow> mail_step \<Rightarrow> string option" where
  "step_error f x = (case x of WriteMail _ \<Rightarrow> None | _ \<Rightarrow> f x)"

fun run_steps :: "(mail_step \<Rightarrow> string option) \<Rightarrow> mail_step list \<Rightarrow> mail_step list \<times> string option" where
  "run_steps f [] = ([], None)"
| "run_steps f (x # xs) =
     (case step_error f x of
        Some e \<Rightarrow> ([x], Some e)
      | None \<Rightarrow> map_prod (Cons x) id (run_steps f xs))"

definition crlf :: string where "crlf = [CHR 0x0D, CHR 0x0A]"

definition mail_port :: "notify_config \<Rightarrow> int" where
  "mail_port c = (if nc_port c = 0 then (if nc_tls c = ''tls'' then 465 else 587) else nc_port c)"

definition recipients :: "notify_config \<Rightarrow> string list" where
  "recipients c = filter (\<lambda>r. r \<noteq> []) (map TrimSpace (Split CHR '','' (nc_to c)))"

definition mail_body :: "(detail list \<Rightarrow> string) \<Rightarrow> notification \<Rightarrow> string" where
  "mail_body text n =
     ReplaceAll (text (nt_message n) @ (if nt_url n = [] then [] else crlf @ crlf @ nt_url n)) CHR 0x0A crlf"

text \<open>\<open>subject\<close> encodes the title for the header, \<open>date\<close> formats the time.\<close>

definition mail_text ::
    "(detail list \<Rightarrow> string) \<Rightarrow> (string \<Rightarrow> string) \<Rightarrow> (go_time \<Rightarrow> string) \<Rightarrow> notify_config \<Rightarrow> notification \<Rightarrow> string" where
  "mail_text text subject date c n =
     ''From: '' @ nc_from c @ crlf @ ''To: '' @ Join (recipients c) '', '' @ crlf @
     ''Subject: '' @ subject (text (nt_title n)) @ crlf @ ''Date: '' @ date (nt_time n) @ crlf @
     ''MIME-Version: 1.0'' @ crlf @ ''Content-Type: text/plain; charset=utf-8'' @ crlf @ crlf @ mail_body text n @ crlf"

definition send_mail_steps ::
    "(detail list \<Rightarrow> string) \<Rightarrow> (string \<Rightarrow> string) \<Rightarrow> (go_time \<Rightarrow> string) \<Rightarrow> notify_config \<Rightarrow> notification \<Rightarrow> mail_step list" where
  "send_mail_steps text subject date c n =
     (if nc_username c = [] then [] else [PlainAuth (nc_username c) (nc_password c) (nc_host c)]) @
     [MailFrom (nc_from c)] @ map Rcpt (recipients c) @
     [DataCmd, WriteMail (mail_text text subject date c n), CloseMail, Quit]"

text \<open>The result is the steps taken and the error.\<close>

definition sendEmail ::
    "network \<Rightarrow> (detail list \<Rightarrow> string) \<Rightarrow> (string \<Rightarrow> string) \<Rightarrow> (go_time \<Rightarrow> string) \<Rightarrow> notify_config \<Rightarrow> notification \<Rightarrow>
     mail_step list \<times> string option" where
  "sendEmail nw text subject date c n =
     (let connect = [if nc_tls c = ''tls'' then DialTLS (nc_host c) (mail_port c) else Dial (nc_host c) (mail_port c),
                     NewClient (nc_host c)]
      in if nc_tls c = ''starttls'' \<and> \<not> nw_starttls nw then
           (case run_steps (nw_mail nw) connect of
              (done, Some e) \<Rightarrow> (done, Some e)
            | (done, None) \<Rightarrow> (done, Some ''the mail server does not offer STARTTLS; choose TLS or none''))
         else run_steps (nw_mail nw)
           (connect @ (if nc_tls c = ''starttls'' then [StartTLS (nc_host c)] else []) @ send_mail_steps text subject date c n))"

section \<open>Sending\<close>

definition discord_embed :: "(detail list \<Rightarrow> string) \<Rightarrow> notification \<Rightarrow> (string \<times> jval) list" where
  "discord_embed text n =
     [(''title'', JStr (text (nt_title n))), (''description'', JStr (text (nt_message n))),
      (''color'', JNum (if nt_firing n then 0xd03b3b else 0x0ca30c)), (''timestamp'', JTime (nt_time n))] @
     (if nt_url n = [] then [] else [(''url'', JStr (nt_url n))])"

definition send ::
    "network \<Rightarrow> (detail list \<Rightarrow> string) \<Rightarrow> (string \<Rightarrow> string) \<Rightarrow> (go_time \<Rightarrow> string) \<Rightarrow> string \<Rightarrow> notify_config \<Rightarrow> notification \<Rightarrow>
     string option" where
  "send nw text subject date typ c n =
     (if typ = ''ntfy'' then sendNtfy nw text c n
      else if typ = ''discord'' then
        postJSON nw (nc_url c) [(''username'', JStr ''Lotse''), (''embeds'', JArr [JObj (discord_embed text n)])]
      else if typ = ''slack'' then postJSON nw (nc_url c) [(''text'', JStr (plainText text n))]
      else if typ = ''telegram'' then
        postJSON nw (telegramAPI @ ''/bot'' @ nc_token c @ ''/sendMessage'')
          [(''chat_id'', JStr (nc_chat_id c)), (''text'', JStr (plainText text n)), (''disable_web_page_preview'', JBool True)]
      else if typ = ''webhook'' then
        postJSON nw (nc_url c)
          [(''status'', JStr (if nt_firing n then ''firing'' else ''resolved'')), (''title'', JStr (text (nt_title n))),
           (''message'', JStr (text (nt_message n))), (''url'', JStr (nt_url n)), (''time'', JTime (nt_time n)),
           (''system'', JStr (nt_system n)), (''metric'', JStr (nt_metric n)), (''value'', JNum (nt_value n)),
           (''threshold'', JNum (nt_threshold n))]
      else if typ = ''email'' then snd (sendEmail nw text subject date c n)
      else Some (text [Txt ''unknown channel type '', Quoted typ]))"

section \<open>The password of a mail account\<close>

lemma run_steps_prefix: "\<exists>ys. xs = fst (run_steps f xs) @ ys"
proof (induction xs)
  case (Cons x xs)
  then show ?case by (cases "step_error f x") auto
qed simp

lemma run_steps_before:
  assumes "fst (run_steps f xs) = as @ x # bs" and "y \<in> set as"
  shows "step_error f y = None"
  using assms
proof (induction xs arbitrary: as)
  case (Cons z xs)
  then show ?case by (cases "step_error f z"; cases as) auto
qed simp

text \<open>What comes before the password in a delivery.\<close>

lemma steps_before_auth:
  assumes "d # NewClient h # up @ send_mail_steps text subject date c n = (before @ PlainAuth u p g # after) @ ys"
    and "up = [] \<or> up = [StartTLS h]" and "\<And>u p g. d \<noteq> PlainAuth u p g"
  shows "set (d # up) \<subseteq> set before"
proof -
  obtain b1 where b1: "before = d # b1" using assms(1,3) by (cases before) auto
  then obtain b2 where "before = d # NewClient h # b2" using assms(1) by (cases b1) auto
  with assms(1,2) show ?thesis by (cases b2) auto
qed

text \<open>
  (C32) Safety: unless the channel is set to no encryption, the hub gives the password of a
  mail account to the server only on a connection it opened with TLS or upgraded with
  STARTTLS, after that step succeeded.
\<close>

theorem mail_password_needs_tls:
  assumes "fst (sendEmail nw text subject date c n) = before @ PlainAuth user pass host # after"
    and "nc_tls c = ''starttls'' \<or> nc_tls c = ''tls''"
  shows "\<exists>s\<in>set before. nw_mail nw s = None \<and> (s = StartTLS (nc_host c) \<or> s = DialTLS (nc_host c) (mail_port c))"
proof -
  define dial where "dial = (if nc_tls c = ''tls'' then DialTLS (nc_host c) (mail_port c) else Dial (nc_host c) (mail_port c))"
  define up where "up = (if nc_tls c = ''starttls'' then [StartTLS (nc_host c)] else [])"
  let ?steps = "dial # NewClient (nc_host c) # up @ send_mail_steps text subject date c n"
  have "PlainAuth user pass host \<notin> set (fst (run_steps (nw_mail nw) [dial, NewClient (nc_host c)]))"
    by (auto simp: dial_def split: option.splits)
  then have run: "fst (run_steps (nw_mail nw) ?steps) = before @ PlainAuth user pass host # after"
    using assms(1)
    by (auto simp: sendEmail_def Let_def dial_def [symmetric] up_def [symmetric] split: prod.splits option.splits if_splits)
  have ok: "s \<in> set before \<Longrightarrow> step_error (nw_mail nw) s = None" for s
    using run_steps_before [OF run] .
  obtain ys where ys: "?steps = (before @ PlainAuth user pass host # after) @ ys"
    using run_steps_prefix [of ?steps "nw_mail nw"] unfolding run by blast
  have "set (dial # up) \<subseteq> set before"
    by (rule steps_before_auth [OF ys]) (simp_all add: up_def dial_def)
  with assms(2) ok show ?thesis
    by (fastforce simp: step_error_def up_def dial_def split: if_splits)
qed

definition demo_mail :: notify_config where
  "demo_mail = \<lparr>nc_url = [], nc_token = [], nc_chat_id = [], nc_host = ''mx'', nc_port = 0, nc_username = ''u'',
     nc_password = ''p'', nc_from = ''a@mx'', nc_to = ''b@mx'', nc_tls = ''starttls''\<rparr>"

definition demo_network :: network where
  "demo_network = \<lparr>nw_new = (\<lambda>_. None), nw_do = (\<lambda>_. Inr (200, ''200 OK'', [])), nw_mail = (\<lambda>_. None), nw_starttls = True\<rparr>"

definition demo_notification :: notification where
  "demo_notification = \<lparr>nt_title = [], nt_message = [], nt_firing = True, nt_url = ''https://h/systems/1'', nt_time = 0,
     nt_system = [], nt_metric = [], nt_value = 0, nt_threshold = 0\<rparr>"

theorem mail_password_needs_tls_witness:
  "\<exists>s\<in>set [Dial ''mx'' 587, NewClient ''mx'', StartTLS ''mx'']. nw_mail demo_network s = None \<and>
     (s = StartTLS ''mx'' \<or> s = DialTLS ''mx'' 587)"
proof -
  have "fst (sendEmail demo_network (\<lambda>_. []) id (\<lambda>_. []) demo_mail demo_notification) =
      [Dial ''mx'' 587, NewClient ''mx'', StartTLS ''mx''] @ PlainAuth ''u'' ''p'' ''mx'' #
      fst (run_steps (nw_mail demo_network) (tl (send_mail_steps (\<lambda>_. []) id (\<lambda>_. []) demo_mail demo_notification)))"
    by (simp add: sendEmail_def demo_network_def demo_mail_def mail_port_def step_error_def send_mail_steps_def split: prod.splits)
  from mail_password_needs_tls [OF this] show ?thesis by (simp add: demo_mail_def mail_port_def)
qed

section \<open>Divergences\<close>

text \<open>
  The separator before the link already ends its lines with CR LF when \<open>sendEmail\<close> turns
  every LF into CR LF, so that a mail with a link carries lines ending in CR CR LF.
\<close>

lemma mail_separator_doubles_cr:
  assumes "nt_url n \<noteq> []"
  shows "\<exists>pre post. mail_body text n = pre @ [CHR 0x0D, CHR 0x0D, CHR 0x0A] @ post"
  using assms by (auto simp: mail_body_def ReplaceAll_def crlf_def)

text \<open>
  \<open>do\<close> keeps URLs, which may contain tokens, out of the errors it returns; the error of
  building a request, which quotes the URL, is returned as it is. For a Telegram channel it
  has the bot token.
\<close>

lemma request_error_shows_token:
  assumes "\<And>url e. nw_new nw url = Some e \<Longrightarrow> \<exists>a b. e = a @ url @ b"
    and "nw_new nw (telegramAPI @ ''/bot'' @ nc_token c @ ''/sendMessage'') \<noteq> None"
  shows "\<exists>a b. send nw text subject date ''telegram'' c n = Some (a @ nc_token c @ b)"
proof -
  obtain e where e: "nw_new nw (telegramAPI @ ''/bot'' @ nc_token c @ ''/sendMessage'') = Some e" using assms(2) by auto
  with assms(1) obtain a b where "e = a @ (telegramAPI @ ''/bot'' @ nc_token c @ ''/sendMessage'') @ b" by blast
  then have "Some e = Some ((a @ telegramAPI @ ''/bot'') @ nc_token c @ ''/sendMessage'' @ b)" by simp
  moreover have "send nw text subject date ''telegram'' c n = Some e" using e by (simp add: send_def postJSON_def)
  ultimately show ?thesis by metis
qed

end
