(* ===== verification/AlertApi.thy ===== *)
theory AlertApi
  imports AlertSync Notify Sessions
begin

text \<open>
  The requests about alerts, rules and channels (\<open>hub/alerts.go\<close>). A request body is \<open>None\<close>
  when it is not valid JSON; the path value is empty for a request that creates.
\<close>

section \<open>Alerts and rules\<close>

record alertsDTO =
  dt_active :: "alert list"
  dt_history :: "alert list"

definition getAlerts :: "alertsDTO reply hub_op" where
  "getAlerts = do {
     active \<leftarrow> db ActiveAlerts;
     (case active of
        Inl _ \<Rightarrow> return internalError
      | Inr active \<Rightarrow> do {
          history \<leftarrow> db (ResolvedAlerts alertHistory);
          (case history of
             Inl _ \<Rightarrow> return internalError
           | Inr history \<Rightarrow> return (WriteJSON 200 \<lparr>dt_active = active, dt_history = history\<rparr>))
        })
   }"

definition getAlertRules :: "alert_rule list reply hub_op" where
  "getAlertRules = do {
     rules \<leftarrow> db AlertRules;
     return (case rules of Inl _ \<Rightarrow> internalError | Inr rules \<Rightarrow> WriteJSON 200 rules)
   }"

definition validate_limits :: "bool \<Rightarrow> alert_rule \<Rightarrow> string" where
  "validate_limits percent r =
     (if ru_metric r = ''offline'' \<and> ru_duration r < 30
      then ''wait at least 30 seconds before reporting a system as offline''
      else if ru_metric r \<noteq> ''offline'' \<and> percent \<and> (ru_threshold r \<le> 0 \<or> 100 \<le> ru_threshold r)
      then ''the threshold must be between 0 and 100 %''
      else if ru_metric r \<noteq> ''offline'' \<and> \<not> percent \<and> ru_threshold r \<le> 0 then ''the threshold must be above 0''
      else if ru_duration r < 0 \<or> 86400 < ru_duration r then ''the duration must be between 0 seconds and 24 hours''
      else [])"

fun validate_notifiers :: "int list \<Rightarrow> string hub_op" where
  "validate_notifiers [] = return []"
| "validate_notifiers (i # is) = do {
     n \<leftarrow> db (Notifier i);
     (case n of
        Inl _ \<Rightarrow> return ''a selected notification channel does not exist''
      | Inr _ \<Rightarrow> validate_notifiers is)
   }"

text \<open>\<open>validateRule\<close> fills in the rule in place: it returns the rule too.\<close>

definition validateRule :: "alert_rule \<Rightarrow> (string \<times> alert_rule) hub_op" where
  "validateRule r =
     (case alertMetrics (ru_metric r) of
        None \<Rightarrow> return (''choose what the rule watches'', r)
      | Some (label, percent) \<Rightarrow>
          let name = TrimSpace (ru_name r);
              r = r\<lparr>ru_name := (if name = [] then label else name)\<rparr>
          in if maxNameLen < RuneCountInString (ru_name r) then return (''name must be at most 64 characters'', r)
             else let r = (if ru_metric r = ''offline'' then r\<lparr>ru_threshold := 0\<rparr> else r);
                      msg = validate_limits percent r
             in if msg \<noteq> [] then return (msg, r)
                else do {
                  known \<leftarrow> (case ru_system_id r of
                             None \<Rightarrow> return True
                           | Some i \<Rightarrow> do { x \<leftarrow> db (System i); return (case x of Inl _ \<Rightarrow> False | Inr _ \<Rightarrow> True) });
                  if \<not> known then return (''that system does not exist'', r)
                  else do {
                    msg \<leftarrow> validate_notifiers (ru_notifiers r);
                    return (msg, r)
                  }
                })"

definition describeRule :: "alert_rule \<Rightarrow> detail list" where
  "describeRule r =
     (if ru_metric r = ''offline'' then [Txt ''offline for '', Dur (ru_duration r * second)]
      else [Txt (ru_metric r), Txt '' above '', Flt (ru_threshold r), Txt '' for '', Dur (ru_duration r * second)])"

definition save_checked_rule :: "env \<Rightarrow> request \<Rightarrow> alert_rule \<Rightarrow> session \<Rightarrow> alert_rule reply hub_op" where
  "save_checked_rule ev r rule s = do {
     x \<leftarrow> validateRule rule;
     (case x of
        (msg, rule) \<Rightarrow>
          if msg \<noteq> [] then return (WriteError 400 msg)
          else do {
            y \<leftarrow> db (SaveAlertRule (unix_of (ev_now ev)) rule);
            (case y of
               Inl _ \<Rightarrow> return internalError
             | Inr rule \<Rightarrow> do {
                 resetAlerts (ev_now ev) (ru_id rule) 0;
                 audit ev (Some r) (u_username (ss_user s)) ''alert_rule_saved'' None
                   ([Quoted (ru_name rule), Txt '': ''] @ describeRule rule);
                 spawn (EvaluateOffline (ev_now ev));
                 return (WriteJSON 200 rule)
               })
          })
   }"

definition saveAlertRule :: "env \<Rightarrow> request \<Rightarrow> string \<Rightarrow> alert_rule option \<Rightarrow> session \<Rightarrow> alert_rule reply hub_op" where
  "saveAlertRule ev r idStr body s =
     (case body of
        None \<Rightarrow> return badJSON
      | Some rule \<Rightarrow>
          if idStr = [] then save_checked_rule ev r (rule\<lparr>ru_id := 0\<rparr>) s
          else do {
            let i = fst (ParseInt idStr);
            x \<leftarrow> db (AlertRule i);
            (case x of
               Inl _ \<Rightarrow> return (WriteError 404 ''rule not found'')
             | Inr _ \<Rightarrow> save_checked_rule ev r (rule\<lparr>ru_id := i\<rparr>) s)
          })"

definition deleteAlertRule :: "env \<Rightarrow> request \<Rightarrow> string \<Rightarrow> session \<Rightarrow> unit reply hub_op" where
  "deleteAlertRule ev r idStr s = do {
     let i = fst (ParseInt idStr);
     x \<leftarrow> db (AlertRule i);
     (case x of
        Inl _ \<Rightarrow> return (WriteError 404 ''rule not found'')
      | Inr rule \<Rightarrow> do {
          y \<leftarrow> db (DeleteAlertRule i);
          (case y of
             Inl _ \<Rightarrow> return internalError
           | Inr _ \<Rightarrow> do {
               resetAlerts (ev_now ev) i 0;
               audit ev (Some r) (u_username (ss_user s)) ''alert_rule_deleted'' None [Quoted (ru_name rule)];
               return NoContent
             })
        })
   }"

section \<open>Channels\<close>

text \<open>A channel as the browser sees it: the columns without the settings, and the masked settings.\<close>

record notifierDTO =
  nd_id :: int
  nd_name :: string
  nd_type :: string
  nd_enabled :: bool
  nd_last_sent :: int
  nd_last_error :: string
  nd_created_at :: int
  nd_config :: "(string \<times> jval) list"

definition notifier_dto :: "session \<Rightarrow> notifier \<Rightarrow> notifierDTO" where
  "notifier_dto s n =
     \<lparr>nd_id = no_id n, nd_name = no_name n, nd_type = no_type n, nd_enabled = no_enabled n, nd_last_sent = no_last_sent n,
      nd_last_error = no_last_error n, nd_created_at = no_created_at n,
      nd_config = (if Can (ss_user s) RoleAdmin then masked (no_config n) else [])\<rparr>"

definition getNotifiers :: "session \<Rightarrow> notifierDTO list reply hub_op" where
  "getNotifiers s = do {
     ns \<leftarrow> db Notifiers;
     return (case ns of Inl _ \<Rightarrow> internalError | Inr ns \<Rightarrow> WriteJSON 200 (map (notifier_dto s) ns))
   }"

record notifierInput =
  nin_id :: int
  nin_name :: string
  nin_type :: string
  nin_enabled :: bool
  nin_config :: notify_config

text \<open>\<open>parseNotifier\<close>: the message, or the row to save.\<close>

definition parseNotifier ::
    "(string \<Rightarrow> (string \<times> string) option) \<Rightarrow> notifierInput \<Rightarrow> (detail list + notifier) hub_op" where
  "parseNotifier parse i =
     (if nin_type i \<notin> set notifierTypes then return (Inl [Txt ''choose a channel type''])
      else let name = TrimSpace (nin_name i) in
      if name = [] \<or> maxNameLen < RuneCountInString name then return (Inl [Txt ''name must be 1-64 characters''])
      else do {
        old \<leftarrow> (if nin_id i = 0 then return (Inr (nin_config i))
               else do {
                 x \<leftarrow> db (Notifier (nin_id i));
                 return (case x of Inl _ \<Rightarrow> Inl () | Inr stored \<Rightarrow> Inr (keepSecrets (no_config stored) (nin_config i)))
               });
        return (case old of
          Inl _ \<Rightarrow> Inl [Txt ''channel not found'']
        | Inr c \<Rightarrow>
            (case validate_config parse (nin_type i) c of
               (msg, c) \<Rightarrow>
                 if msg \<noteq> [] then Inl msg
                 else Inr \<lparr>no_id = nin_id i, no_name = name, no_type = nin_type i, no_config = c, no_enabled = nin_enabled i,
                           no_last_sent = 0, no_last_error = [], no_created_at = 0\<rparr>))
      })"

definition saveNotifier ::
    "(detail list \<Rightarrow> string) \<Rightarrow> (string \<Rightarrow> (string \<times> string) option) \<Rightarrow> env \<Rightarrow> request \<Rightarrow> string \<Rightarrow> notifierInput option \<Rightarrow>
     session \<Rightarrow> int reply hub_op" where
  "saveNotifier text parse ev r idStr body s =
     (case body of
        None \<Rightarrow> return badJSON
      | Some i \<Rightarrow> do {
          x \<leftarrow> parseNotifier parse (i\<lparr>nin_id := fst (ParseInt idStr)\<rparr>);
          (case x of
             Inl msg \<Rightarrow> return (WriteError 400 (text msg))
           | Inr n \<Rightarrow> do {
               y \<leftarrow> db (SaveNotifier (unix_of (ev_now ev)) n);
               (case y of
                  Inl _ \<Rightarrow> return internalError
                | Inr n \<Rightarrow> do {
                    audit ev (Some r) (u_username (ss_user s)) ''notifier_saved'' None
                      [Txt (no_type n), Txt '' channel '', Quoted (no_name n)];
                    publish AlertsEvent;
                    return (WriteJSON 200 (no_id n))
                  })
             })
        })"

text \<open>The loop of \<open>deleteNotifier\<close>: \<open>slices.Delete\<close> takes the first occurrence out.\<close>

fun detach_notifier :: "int \<Rightarrow> int \<Rightarrow> alert_rule list \<Rightarrow> (db_error + unit) hub_op" where
  "detach_notifier now i [] = return (Inr ())"
| "detach_notifier now i (r # rs) =
     (if i \<notin> set (ru_notifiers r) then detach_notifier now i rs
      else do {
        x \<leftarrow> db (SaveAlertRule now (r\<lparr>ru_notifiers := remove1 i (ru_notifiers r)\<rparr>));
        (case x of
           Inl e \<Rightarrow> return (Inl e)
         | Inr _ \<Rightarrow> detach_notifier now i rs)
      })"

definition deleteNotifier :: "env \<Rightarrow> request \<Rightarrow> string \<Rightarrow> session \<Rightarrow> unit reply hub_op" where
  "deleteNotifier ev r idStr s = do {
     let i = fst (ParseInt idStr);
     n \<leftarrow> db (Notifier i);
     (case n of
        Inl _ \<Rightarrow> return (WriteError 404 ''channel not found'')
      | Inr n \<Rightarrow> do {
          rules \<leftarrow> db AlertRules;
          (case rules of
             Inl _ \<Rightarrow> return internalError
           | Inr rules \<Rightarrow> do {
               x \<leftarrow> detach_notifier (unix_of (ev_now ev)) i rules;
               (case x of
                  Inl _ \<Rightarrow> return internalError
                | Inr _ \<Rightarrow> do {
                    y \<leftarrow> db (DeleteNotifier i);
                    (case y of
                       Inl _ \<Rightarrow> return internalError
                     | Inr _ \<Rightarrow> do {
                         reloadRulesLocked;
                         audit ev (Some r) (u_username (ss_user s)) ''notifier_deleted'' None
                           [Txt (no_type n), Txt '' channel '', Quoted (no_name n)];
                         return NoContent
                       })
                  })
             })
        })
   }"

definition testNotifier ::
    "network \<Rightarrow> (detail list \<Rightarrow> string) \<Rightarrow> (string \<Rightarrow> string) \<Rightarrow> (go_time \<Rightarrow> string) \<Rightarrow>
     (string \<Rightarrow> (string \<times> string) option) \<Rightarrow> env \<Rightarrow> notifierInput option \<Rightarrow> session \<Rightarrow> unit reply hub_op" where
  "testNotifier nw text subject date parse ev body s =
     (case body of
        None \<Rightarrow> return badJSON
      | Some i \<Rightarrow> do {
          x \<leftarrow> parseNotifier parse (if nin_name i = [] then i\<lparr>nin_name := ''test''\<rparr> else i);
          (case x of
             Inl msg \<Rightarrow> return (WriteError 400 (text msg))
           | Inr n \<Rightarrow> do {
               url \<leftarrow> gets hb_public_url;
               return (case send nw text subject date (no_type n) (no_config n)
                   \<lparr>nt_title = [Txt ''Lotse test notification''],
                    nt_message = [Txt (u_username (ss_user s)), Txt '' set up this channel. Alerts will arrive like this.''],
                    nt_firing = False, nt_url = url, nt_time = ev_now ev, nt_system = [], nt_metric = [], nt_value = 0,
                    nt_threshold = 0\<rparr> of
                 Some e \<Rightarrow> WriteError 422 e
               | None \<Rightarrow> NoContent)
             })
        })"

section \<open>Secrets\<close>

text \<open>What the answer may depend on: for administrators, whether a secret is set; for others, nothing.\<close>

definition redact :: "bool \<Rightarrow> notify_config \<Rightarrow> notify_config" where
  "redact admin c =
     (if admin
      then c\<lparr>nc_token := (if nc_token c = [] then [] else ''*''), nc_password := (if nc_password c = [] then [] else ''*'')\<rparr>
      else \<lparr>nc_url = [], nc_token = [], nc_chat_id = [], nc_host = [], nc_port = 0, nc_username = [], nc_password = [],
            nc_from = [], nc_to = [], nc_tls = []\<rparr>)"

definition redact_notifiers :: "bool \<Rightarrow> hub \<Rightarrow> hub" where
  "redact_notifiers admin h =
     h\<lparr>hb_store := (hb_store h)\<lparr>st_notifiers := map (\<lambda>n. n\<lparr>no_config := redact admin (no_config n)\<rparr>) (st_notifiers (hb_store h))\<rparr>\<rparr>"

lemma masked_redact: "masked (redact True c) = masked c"
  by (simp add: masked_def marshal_config_def redact_def mask_key_def omitempty_def)

lemma notifier_dto_redact:
  "notifier_dto s (n\<lparr>no_config := redact (Can (ss_user s) RoleAdmin) (no_config n)\<rparr>) = notifier_dto s n"
  by (simp add: notifier_dto_def masked_redact)

text \<open>
  (C33) Confidentiality: what the list of channels answers is the same whatever the tokens and
  passwords are, and for users who are not administrators the same whatever the settings are.
\<close>

theorem notifier_secrets_hidden:
  "fst (run_state (getNotifiers s) h) =
   fst (run_state (getNotifiers s) (redact_notifiers (Can (ss_user s) RoleAdmin) h))"
proof -
  let ?f = "\<lambda>n. n\<lparr>no_config := redact (Can (ss_user s) RoleAdmin) (no_config n)\<rparr>"
  have "fault (hb_store (redact_notifiers b h)) = fault (hb_store h)" for b
    by (simp add: fault_def redact_notifiers_def)
  moreover have "map (notifier_dto s) (sort_key (\<lambda>n. (ascii_lower (no_name n), no_id n)) (map ?f ns)) =
      map (notifier_dto s) (sort_key (\<lambda>n. (ascii_lower (no_name n), no_id n)) ns)" for ns
    by (subst sort_key_map) (simp_all add: notifier_dto_redact comp_def)
  ultimately show ?thesis
    by (simp add: getNotifiers_def Notifiers_def query_tick) (simp add: redact_notifiers_def)
qed

section \<open>Saving what was shown\<close>

text \<open>What the browser sends back for a channel it was shown: the secrets empty.\<close>

definition shown_input :: "notifier \<Rightarrow> notifierInput" where
  "shown_input n = \<lparr>nin_id = no_id n, nin_name = no_name n, nin_type = no_type n, nin_enabled = no_enabled n,
     nin_config = (no_config n)\<lparr>nc_token := [], nc_password := []\<rparr>\<rparr>"

lemma update_same:
  assumes "distinct (map no_id ns)" and "n \<in> set ns"
  shows "map (\<lambda>x. if no_id x = no_id n then x\<lparr>no_name := no_name n, no_type := no_type n, no_config := no_config n,
      no_enabled := no_enabled n\<rparr> else x) ns = ns"
proof -
  have "x = n" if "x \<in> set ns" "no_id x = no_id n" for x
    using assms that by (auto simp: distinct_map inj_on_def)
  moreover have "n\<lparr>no_name := no_name n, no_type := no_type n, no_config := no_config n, no_enabled := no_enabled n\<rparr> = n"
    by (cases n) simp
  ultimately show ?thesis by (intro map_idI) (metis (no_types, lifting))
qed

text \<open>
  Round trip: saving a channel as the browser was shown it, with the secrets it never
  received left empty, succeeds and leaves the stored channels as they are.
\<close>

theorem saving_shown_channel_keeps_it:
  assumes "st_faults (hb_store h) = []" and "distinct (map no_id (st_notifiers (hb_store h)))"
    and "n \<in> set (st_notifiers (hb_store h))" and "no_id n \<noteq> 0" and "fst (ParseInt idStr) = no_id n"
    and "no_type n \<in> set notifierTypes" and "validate_config parse (no_type n) (no_config n) = ([], no_config n)"
    and "TrimSpace (no_name n) = no_name n" and "no_name n \<noteq> []" and "RuneCountInString (no_name n) \<le> maxNameLen"
    and "run_state (saveNotifier text parse ev r idStr (Some (shown_input n)) s) h = (rep, h')"
  shows "rep = WriteJSON 200 (no_id n) \<and> st_notifiers (hb_store h') = st_notifiers (hb_store h)"
proof -
  have get: "row_get no_id (no_id n) (st_notifiers (hb_store h)) = Some n"
    using assms(2,3) by (rule notifier_rows.get_in)
  have "run_state (parseNotifier parse ((shown_input n)\<lparr>nin_id := fst (ParseInt idStr)\<rparr>)) h =
      (Inr (n\<lparr>no_last_sent := 0, no_last_error := [], no_created_at := 0\<rparr>), h)"
    using assms(1,4-10) get
    by (cases n) (simp add: parseNotifier_def shown_input_def Notifier_def query_row_tick keepSecrets_def Let_def)
  then show ?thesis
    using assms(1,3,4,11) update_same [OF assms(2,3)]
    by (auto simp: saveNotifier_def SaveNotifier_def bind_op_def exec_affected_tick update_notifier_def audit_def publish_def)
qed

definition demo_channel :: notifier where
  "demo_channel = \<lparr>no_id = 3, no_name = ''push'', no_type = ''telegram'', no_config = demo_mail\<lparr>nc_token := ''t'', nc_chat_id := ''c''\<rparr>,
     no_enabled = True, no_last_sent = 0, no_last_error = [], no_created_at = 0\<rparr>"

definition demo_channels :: hub where
  "demo_channels = empty_hub\<lparr>hb_store := empty_store\<lparr>st_notifiers := [demo_channel]\<rparr>\<rparr>"

definition demo_admin :: session where
  "demo_admin = \<lparr>ss_user = demo_user, ss_token = [], ss_elevated = 0\<rparr>"

theorem saving_shown_channel_keeps_it_witness:
  "fst (run_state (saveNotifier (\<lambda>_. []) (\<lambda>_. None) (demo_env 0 []) demo_request ''3'' (Some (shown_input demo_channel)) demo_admin)
      demo_channels) = WriteJSON 200 3"
proof -
  obtain rep h' where run: "run_state (saveNotifier (\<lambda>_. []) (\<lambda>_. None) (demo_env 0 []) demo_request ''3''
      (Some (shown_input demo_channel)) demo_admin) demo_channels = (rep, h')" by fastforce
  have "fst (ParseInt ''3'') = 3" by code_simp
  then have "rep = WriteJSON 200 (no_id demo_channel) \<and> st_notifiers (hb_store h') = st_notifiers (hb_store demo_channels)"
    by (intro saving_shown_channel_keeps_it [OF _ _ _ _ _ _ _ _ _ _ run])
      (simp_all add: demo_channels_def demo_channel_def empty_hub_def empty_store_def notifierTypes_def validate_config_def
        TrimSpace_eval RuneCount_eval maxNameLen_def)
  with run show ?thesis by (simp add: demo_channel_def)
qed

section \<open>Deleting a channel\<close>

text \<open>
  Only the first of several entries of a channel in a rule goes with it: a rule that lists a
  channel twice, which \<open>validateRule\<close> accepts, still lists it after it was deleted, and as
  SQLite gives the number out again, a channel created later gets the alerts of that rule.
\<close>

definition twice_rule :: alert_rule where
  "twice_rule = quick_rule\<lparr>ru_notifiers := [3, 3]\<rparr>"

definition twice_hub :: hub where
  "twice_hub = demo_channels\<lparr>hb_store := (hb_store demo_channels)\<lparr>st_rules := [twice_rule]\<rparr>\<rparr>"

lemma deleted_channel_stays_in_rule:
  "fst (run_state (validateRule twice_rule) twice_hub) = ([], twice_rule)"
  "run_state (deleteNotifier (demo_env 0 []) demo_request ''3'' demo_admin) twice_hub = (rep, h') \<Longrightarrow>
   rep = NoContent \<and> st_notifiers (hb_store h') = [] \<and> map ru_notifiers (st_rules (hb_store h')) = [[3]]"
proof -
  show "fst (run_state (validateRule twice_rule) twice_hub) = ([], twice_rule)"
    by (simp add: validateRule_def twice_rule_def quick_rule_def alertMetrics_def validate_limits_def Notifier_def query_row_tick
        twice_hub_def demo_channels_def demo_channel_def empty_hub_def empty_store_def row_get_def TrimSpace_eval RuneCount_eval
        maxNameLen_def Let_def)
  have "fst (ParseInt ''3'') = 3" by code_simp
  then show "run_state (deleteNotifier (demo_env 0 []) demo_request ''3'' demo_admin) twice_hub = (rep, h') \<Longrightarrow>
   rep = NoContent \<and> st_notifiers (hb_store h') = [] \<and> map ru_notifiers (st_rules (hb_store h')) = [[3]]"
    by (auto simp: deleteNotifier_def Notifier_def query_row_tick AlertRules_def query_tick SaveAlertRule_def stmt_tick
        DeleteNotifier_def exec_affected_tick reloadRulesLocked_def update_engine_def audit_def rule_system_ok_def
        twice_hub_def twice_rule_def quick_rule_def demo_channels_def demo_channel_def empty_hub_def empty_store_def row_get_def)
qed

end
