(* ===== verification/Accounts.thy ===== *)
theory Accounts
  imports Login
begin

text \<open>
  Managing accounts (\<open>hub/users.go\<close>). Every change needs a recent confirmation of the
  password and is written to the activity log; the last administrator stays.
\<close>

record userDTO =
  ud_id :: int
  ud_username :: string
  ud_role :: string
  ud_totp :: bool
  ud_passkeys :: nat
  ud_created_at :: int
  ud_last_login :: int

definition getUsers :: "userDTO list reply hub_op" where
  "getUsers = do {
     users \<leftarrow> db Store.Users;
     (case users of
        Inl _ \<Rightarrow> return internalError
      | Inr users \<Rightarrow> do {
          counts \<leftarrow> db PasskeyCounts;
          (case counts of
             Inl _ \<Rightarrow> return internalError
           | Inr counts \<Rightarrow> return (WriteJSON 200 (map (\<lambda>u.
               \<lparr>ud_id = u_id u, ud_username = u_username u, ud_role = u_role u, ud_totp = u_totp_secret u \<noteq> [],
                ud_passkeys = counts (u_id u), ud_created_at = u_created_at u, ud_last_login = u_last_login u\<rparr>) users)))
        })
   }"

definition postUser :: "env \<Rightarrow> request \<Rightarrow> (credentials \<times> string) option \<Rightarrow> session \<Rightarrow> userDTO reply hub_op" where
  "postUser ev r body s =
     (case body of
        None \<Rightarrow> return badJSON
      | Some (c0, role) \<Rightarrow>
          if \<not> requireElevated ev s then return ReauthRequired
          else (case validate c0 of
            (msg, c) \<Rightarrow>
              if msg \<noteq> [] then return (WriteError 400 msg)
              else if \<not> ValidRole role then return (WriteError 400 ''role must be viewer, operator or admin'')
              else (case bcrypt_generate (ev_crypto ev) (cr_password c) of
                None \<Rightarrow> return internalError
              | Some hash \<Rightarrow> do {
                  u \<leftarrow> db (CreateUser (unix_of (ev_now ev)) (cr_username c) hash role);
                  (case u of
                     Inl ErrUsernameTaken \<Rightarrow> return (WriteError 409 ''that username is taken'')
                   | Inl _ \<Rightarrow> return internalError
                   | Inr u \<Rightarrow> do {
                       audit ev (Some r) (u_username (ss_user s)) ''user_created'' None
                         [Txt (u_username u), Txt '' ('', Txt (u_role u), Txt '')''];
                       return (WriteJSON 200 \<lparr>ud_id = u_id u, ud_username = u_username u, ud_role = u_role u, ud_totp = False,
                         ud_passkeys = 0, ud_created_at = u_created_at u, ud_last_login = 0\<rparr>)
                     })
                })))"

definition lookupUser :: "string \<Rightarrow> ('a reply + user) hub_op" where
  "lookupUser idStr = do {
     u \<leftarrow> db (User (fst (ParseInt idStr)));
     return (case u of
       Inl ErrNotFound \<Rightarrow> Inl (WriteError 404 ''user not found'')
     | Inl _ \<Rightarrow> Inl internalError
     | Inr u \<Rightarrow> Inr u)
   }"

definition userError :: "db_error \<Rightarrow> 'a reply" where
  "userError e =
     (case e of
        ErrLastAdmin \<Rightarrow> WriteError 409 ''the hub needs at least one administrator; make someone else an administrator first''
      | ErrNotFound \<Rightarrow> WriteError 404 ''user not found''
      | _ \<Rightarrow> internalError)"

section \<open>Changing an account\<close>

record patchUserBody =
  pb_role :: string
  pb_password :: string
  pb_reset_totp :: bool
  pb_reset_passkeys :: bool

text \<open>
  The steps of \<open>patchUser\<close>: an error to write, or what was changed and whether the user is
  to be signed out.
\<close>

type_synonym patch_step = "(unit reply + detail list list \<times> bool) hub_op"

definition arrow :: string where "arrow = [CHR 0xE2, CHR 0x86, CHR 0x92]"

definition patch_role :: "user \<Rightarrow> patchUserBody \<Rightarrow> patch_step" where
  "patch_role u b =
     (if pb_role b = [] \<or> pb_role b = u_role u then return (Inr ([], False))
      else do {
        x \<leftarrow> db (SetRole (u_id u) (pb_role b));
        (case x of
           Inl e \<Rightarrow> return (Inl (userError e))
         | Inr _ \<Rightarrow> do {
             closeConnsBeyondRole (u_id u) (pb_role b);
             return (Inr ([[Txt ''role '', Txt (u_role u), Txt '' '', Txt arrow, Txt '' '', Txt (pb_role b)]], False))
           })
      })"

definition patch_password :: "env \<Rightarrow> user \<Rightarrow> patchUserBody \<Rightarrow> patch_step" where
  "patch_password ev u b =
     (if pb_password b = [] then return (Inr ([], False))
      else (case bcrypt_generate (ev_crypto ev) (pb_password b) of
        None \<Rightarrow> return (Inl internalError)
      | Some hash \<Rightarrow> do {
          x \<leftarrow> db (SetPassword (u_id u) hash);
          return (case x of Inl _ \<Rightarrow> Inl internalError | Inr _ \<Rightarrow> Inr ([[Txt ''new password'']], True))
        }))"

definition patch_totp :: "user \<Rightarrow> patchUserBody \<Rightarrow> patch_step" where
  "patch_totp u b =
     (if \<not> pb_reset_totp b \<or> u_totp_secret u = [] then return (Inr ([], False))
      else do {
        x \<leftarrow> db (SetTOTPSecret (u_id u) []);
        return (case x of Inl _ \<Rightarrow> Inl internalError | Inr _ \<Rightarrow> Inr ([[Txt ''two-factor login turned off'']], False))
      })"

definition patch_passkeys :: "user \<Rightarrow> patchUserBody \<Rightarrow> patch_step" where
  "patch_passkeys u b =
     (if \<not> pb_reset_passkeys b then return (Inr ([], False))
      else do {
        x \<leftarrow> db (DeletePasskeysOf (u_id u));
        return (case x of
          Inl _ \<Rightarrow> Inl internalError
        | Inr n \<Rightarrow> if 0 < n then Inr ([[Num (int n), Txt '' passkey(s) removed'']], True) else Inr ([], False))
      })"

definition and_then :: "patch_step \<Rightarrow> patch_step \<Rightarrow> patch_step" where
  "and_then m k = do {
     x \<leftarrow> m;
     (case x of
        Inl rep \<Rightarrow> return (Inl rep)
      | Inr (cs, o1) \<Rightarrow> do {
          y \<leftarrow> k;
          return (case y of Inl rep \<Rightarrow> Inl rep | Inr (ds, o2) \<Rightarrow> Inr (cs @ ds, o1 \<or> o2))
        })
   }"

fun join_details :: "detail list list \<Rightarrow> detail list" where
  "join_details [] = []"
| "join_details [d] = d"
| "join_details (d # e # ds) = d @ [Txt '', ''] @ join_details (e # ds)"

definition patch_finish :: "env \<Rightarrow> request \<Rightarrow> session \<Rightarrow> user \<Rightarrow> detail list list \<Rightarrow> bool \<Rightarrow> unit reply hub_op" where
  "patch_finish ev r s u changes signOut = do {
     (if signOut then do {
        _ \<leftarrow> signOutUser (u_id u) (if u_id u = u_id (ss_user s) then Some (ss_token s) else None);
        return ()
      } else return ());
     (if changes \<noteq> []
      then audit ev (Some r) (u_username (ss_user s)) ''user_changed'' None ([Txt (u_username u), Txt '': ''] @ join_details changes)
      else return ());
     return NoContent
   }"

definition patch_steps :: "env \<Rightarrow> user \<Rightarrow> patchUserBody \<Rightarrow> patch_step" where
  "patch_steps ev u b =
     and_then (patch_role u b) (and_then (patch_password ev u b) (and_then (patch_totp u b) (patch_passkeys u b)))"

definition patch_apply :: "env \<Rightarrow> request \<Rightarrow> session \<Rightarrow> user \<Rightarrow> patchUserBody \<Rightarrow> unit reply hub_op" where
  "patch_apply ev r s u b = do {
     y \<leftarrow> patch_steps ev u b;
     (case y of
        Inl rep \<Rightarrow> return rep
      | Inr (changes, signOut) \<Rightarrow> patch_finish ev r s u changes signOut)
   }"

definition patchUser :: "env \<Rightarrow> request \<Rightarrow> string \<Rightarrow> patchUserBody option \<Rightarrow> session \<Rightarrow> unit reply hub_op" where
  "patchUser ev r idStr body s = do {
     x \<leftarrow> lookupUser idStr;
     (case x of
        Inl rep \<Rightarrow> return rep
      | Inr u \<Rightarrow>
          (case body of
             None \<Rightarrow> return badJSON
           | Some b \<Rightarrow>
               if \<not> requireElevated ev s then return ReauthRequired
               else if pb_role b \<noteq> [] \<and> \<not> ValidRole (pb_role b)
               then return (WriteError 400 ''role must be viewer, operator or admin'')
               else if pb_password b \<noteq> [] \<and> validatePassword (pb_password b) \<noteq> []
               then return (WriteError 400 (validatePassword (pb_password b)))
               else patch_apply ev r s u b))
   }"

definition deleteUser :: "env \<Rightarrow> request \<Rightarrow> string \<Rightarrow> session \<Rightarrow> unit reply hub_op" where
  "deleteUser ev r idStr s = do {
     x \<leftarrow> lookupUser idStr;
     (case x of
        Inl rep \<Rightarrow> return rep
      | Inr u \<Rightarrow>
          if \<not> requireElevated ev s then return ReauthRequired
          else if u_id u = u_id (ss_user s) then return (WriteError 400 ''you cannot delete your own account'')
          else do {
            y \<leftarrow> db (DeleteUser (u_id u));
            (case y of
               Inl e \<Rightarrow> return (userError e)
             | Inr _ \<Rightarrow> do {
                 closeConns (\<lambda>c. cn_user c = u_id u);
                 audit ev (Some r) (u_username (ss_user s)) ''user_deleted'' None [Txt (u_username u)];
                 return NoContent
               })
          })
   }"

section \<open>Signing out whoever knew the old password\<close>

definition hashes :: "hub \<Rightarrow> (int \<times> string) list" where
  "hashes h = map (\<lambda>u. (u_id u, u_password_hash u)) (st_users (hb_store h))"

text \<open>What every step of a change leaves alone.\<close>

definition step_frame :: "hub \<Rightarrow> hub \<Rightarrow> bool" where
  "step_frame h h' \<longleftrightarrow> st_faults (hb_store h') = [] \<and> hb_conns h' = hb_conns h \<and>
     st_sessions (hb_store h') = st_sessions (hb_store h)"

lemma lastAdminCheck_run:
  assumes "m s = (x, s')" and "st_faults s' = []"
  shows "snd (lastAdminCheck m i s) = s'"
  using assms by (auto simp: lastAdminCheck_def User_def query_row_tick split: sum.splits db_error.splits prod.splits)

lemma SetRole_run:
  assumes "st_faults s = []" and "SetRole i role s = (x, s')"
  shows "st_faults s' = [] \<and> st_sessions s' = st_sessions s \<and>
    map (\<lambda>u. (u_id u, u_password_hash u)) (st_users s') = map (\<lambda>u. (u_id u, u_password_hash u)) (st_users s)"
proof -
  let ?hit = "\<lambda>s. list_ex (\<lambda>u. u_id u = i \<and> (role = RoleAdmin \<or> u_role u \<noteq> RoleAdmin \<or> 1 < length (admins s))) (st_users s)"
  let ?set = "\<lambda>s. s\<lparr>st_users := map (\<lambda>u. if u_id u = i \<and> (role = RoleAdmin \<or> u_role u \<noteq> RoleAdmin \<or> 1 < length (admins s))
                               then u\<lparr>u_role := role\<rparr> else u) (st_users s)\<rparr>"
  have "exec_affected ?hit ?set s = (if ?hit s then Inr () else Inl ErrNotFound, if ?hit s then ?set s else s)"
    using assms(1) by (simp add: exec_affected_tick)
  from lastAdminCheck_run [where m = "exec_affected ?hit ?set" and s = s, OF this, of i] have "s' = s \<or> s' = ?set s"
    using assms by (auto simp: SetRole_def split: if_splits)
  then show ?thesis using assms(1) by (auto simp: comp_def)
qed

lemma patch_role_frame:
  assumes "st_faults (hb_store h) = []" and "run_state (patch_role u b) h = (x, h')"
  shows "step_frame h h' \<and> hashes h' = hashes h"
proof -
  obtain y s where r: "SetRole (u_id u) (pb_role b) (hb_store h) = (y, s)" by fastforce
  from SetRole_run [OF assms(1) r] assms r show ?thesis
    by (auto simp: patch_role_def step_frame_def hashes_def closeConnsBeyondRole_def closeConns_def
        split: if_splits sum.splits)
qed

lemma patch_password_cases:
  assumes "st_faults (hb_store h) = []" and "run_state (patch_password ev u b) h = (x, h')" and "pb_password b \<noteq> []"
  shows "step_frame h h' \<and> (x = Inl internalError \<or> (\<exists>hash. bcrypt_generate (ev_crypto ev) (pb_password b) = Some hash \<and>
    x = Inr ([[Txt ''new password'']], True) \<and> hashes h' = map (\<lambda>(i, p). (i, if i = u_id u then hash else p)) (hashes h)))"
  using assms
  by (auto simp: patch_password_def SetPassword_def exec_tick update_user_def step_frame_def hashes_def split: option.splits if_splits)

lemma patch_totp_frame:
  assumes "st_faults (hb_store h) = []" and "run_state (patch_totp u b) h = (x, h')"
  shows "step_frame h h' \<and> hashes h' = hashes h"
  using assms
  by (auto simp: patch_totp_def SetTOTPSecret_def exec_tick update_user_def step_frame_def hashes_def split: if_splits)

lemma patch_passkeys_frame:
  assumes "st_faults (hb_store h) = []" and "run_state (patch_passkeys u b) h = (x, h')"
  shows "step_frame h h' \<and> hashes h' = hashes h"
  using assms
  by (auto simp: patch_passkeys_def DeletePasskeysOf_def stmt_tick step_frame_def hashes_def split: if_splits)

lemma and_then_cases:
  assumes "run_state (and_then m k) h = (Inr (cs, signOut), h')"
  obtains as o1 bs o2 h1 where "run_state m h = (Inr (as, o1), h1)" "run_state k h1 = (Inr (bs, o2), h')"
    "cs = as @ bs" "signOut = (o1 \<or> o2)"
  using assms by (fastforce simp: and_then_def split: sum.splits prod.splits)

lemma and_then_error:
  assumes "\<And>h rep h'. run_state m h = (Inl rep, h') \<Longrightarrow> \<not> is_success rep"
    and "\<And>h rep h'. run_state k h = (Inl rep, h') \<Longrightarrow> \<not> is_success rep"
    and "run_state (and_then m k) h = (Inl rep, h')"
  shows "\<not> is_success rep"
proof -
  obtain x h1 where m: "run_state m h = (x, h1)" by fastforce
  show ?thesis
  proof (cases x)
    case (Inl a)
    with m assms(1,3) show ?thesis by (auto simp: and_then_def)
  next
    case (Inr a)
    obtain y h2 where "run_state k h1 = (y, h2)" by fastforce
    with Inr m assms(2,3) show ?thesis by (auto simp: and_then_def split: prod.splits sum.splits)
  qed
qed

lemma patch_errors:
  "run_state (patch_role u b) h = (Inl rep, h') \<Longrightarrow> \<not> is_success rep"
  "run_state (patch_password ev u b) h = (Inl rep, h') \<Longrightarrow> \<not> is_success rep"
  "run_state (patch_totp u b) h = (Inl rep, h') \<Longrightarrow> \<not> is_success rep"
  "run_state (patch_passkeys u b) h = (Inl rep, h') \<Longrightarrow> \<not> is_success rep"
  by (auto simp: patch_role_def patch_password_def patch_totp_def patch_passkeys_def userError_def
      split: if_splits option.splits sum.splits prod.splits db_error.splits)

lemma patch_steps_error: "run_state (patch_steps ev u b) h = (Inl rep, h') \<Longrightarrow> \<not> is_success rep"
  unfolding patch_steps_def
  by (erule and_then_error [rotated 2], erule patch_errors, erule and_then_error [rotated 2], erule patch_errors,
      erule and_then_error [rotated 2]) (erule patch_errors)+

lemma lookupUser_cases:
  assumes "run_state (lookupUser idStr) h = (x, h')"
  shows "h' = h\<lparr>hb_store := tick (hb_store h)\<rparr>"
    and "x = Inl rep \<Longrightarrow> \<not> is_success rep"
    and "x = Inr u \<Longrightarrow> u \<in> set (st_users (hb_store h)) \<and> u_id u = fst (ParseInt idStr)"
  using assms user_rows.get_SomeD [of "fst (ParseInt idStr)" "st_users (hb_store h)" u]
  by (auto simp: lookupUser_def User_def query_row_tick split: option.splits if_splits)

lemma patch_steps_run:
  assumes "st_faults (hb_store h) = []" and "pb_password b \<noteq> []"
    and "run_state (patch_steps ev u b) h = (Inr (cs, signOut), h')"
  shows "signOut \<and> cs \<noteq> [] \<and> step_frame h h' \<and> (\<exists>hash. bcrypt_generate (ev_crypto ev) (pb_password b) = Some hash \<and>
    hashes h' = map (\<lambda>(i, p). (i, if i = u_id u then hash else p)) (hashes h))"
proof -
  from assms(3) [unfolded patch_steps_def] obtain a o1 b1 o2 h1 where 1: "run_state (patch_role u b) h = (Inr (a, o1), h1)"
    "run_state (and_then (patch_password ev u b) (and_then (patch_totp u b) (patch_passkeys u b))) h1 = (Inr (b1, o2), h')"
    "cs = a @ b1" "signOut = (o1 \<or> o2)" by (rule and_then_cases)
  from 1(2) obtain c o3 d o4 h2 where 2: "run_state (patch_password ev u b) h1 = (Inr (c, o3), h2)"
    "run_state (and_then (patch_totp u b) (patch_passkeys u b)) h2 = (Inr (d, o4), h')" "b1 = c @ d" "o2 = (o3 \<or> o4)"
    by (rule and_then_cases)
  from 2(2) obtain e o5 f o6 h3 where 3: "run_state (patch_totp u b) h2 = (Inr (e, o5), h3)"
    "run_state (patch_passkeys u b) h3 = (Inr (f, o6), h')" by (rule and_then_cases)
  have f1: "step_frame h h1" "hashes h1 = hashes h" using patch_role_frame [OF assms(1) 1(1)] by auto
  then have "st_faults (hb_store h1) = []" by (simp add: step_frame_def)
  from patch_password_cases [OF this 2(1) assms(2)] obtain hash where f2: "step_frame h1 h2" "o3" "c \<noteq> []"
    "bcrypt_generate (ev_crypto ev) (pb_password b) = Some hash"
    "hashes h2 = map (\<lambda>(i, p). (i, if i = u_id u then hash else p)) (hashes h1)" by auto
  then have "st_faults (hb_store h2) = []" by (simp add: step_frame_def)
  from patch_totp_frame [OF this 3(1)] have f3: "step_frame h2 h3" "hashes h3 = hashes h2" by auto
  then have "st_faults (hb_store h3) = []" by (simp add: step_frame_def)
  from patch_passkeys_frame [OF this 3(2)] have f4: "step_frame h3 h'" "hashes h' = hashes h3" by auto
  from f1 f2 f3 f4 1 2 show ?thesis by (auto simp: step_frame_def)
qed

lemma signOutUser_run:
  assumes "st_faults (hb_store h) = []" and "run_state (signOutUser uid keep) h = (x, h')"
  shows "st_users (hb_store h') = st_users (hb_store h)"
    and "y \<in> set (st_sessions (hb_store h')) \<Longrightarrow> se_user y = uid \<Longrightarrow> keep = Some (se_token y)"
    and "c \<in> set (hb_conns h) \<Longrightarrow> cn_user c = uid \<Longrightarrow> cn_session c \<noteq> [] \<Longrightarrow> keep \<noteq> Some (cn_session c) \<Longrightarrow>
      cn_ref c \<in> set (hb_stopped h')"
  using assms
  by (auto simp: signOutUser_def DeleteOtherSessions_def DeleteSessions_def exec_tick closeConns_def split: option.splits)

lemma patch_finish_run:
  assumes "st_faults (hb_store h) = []" and "run_state (patch_finish ev r s u cs True) h = (rep, h')"
  shows "hashes h' = hashes h"
    and "x \<in> set (st_sessions (hb_store h')) \<Longrightarrow> se_user x = u_id u \<Longrightarrow> u_id u = u_id (ss_user s) \<and> se_token x = ss_token s"
    and "c \<in> set (hb_conns h) \<Longrightarrow> cn_user c = u_id u \<Longrightarrow> cn_session c \<noteq> [] \<Longrightarrow>
      (u_id u = u_id (ss_user s) \<longrightarrow> cn_session c \<noteq> ss_token s) \<Longrightarrow> cn_ref c \<in> set (hb_stopped h')"
proof -
  let ?keep = "if u_id u = u_id (ss_user s) then Some (ss_token s) else None"
  obtain y h1 where s: "run_state (signOutUser (u_id u) ?keep) h = (y, h1)" by fastforce
  have "hb_stopped h' = hb_stopped h1 \<and> st_users (hb_store h') = st_users (hb_store h1) \<and>
      st_sessions (hb_store h') = st_sessions (hb_store h1)"
    using assms(2) s by (auto simp: patch_finish_def audit_def split: if_splits)
  with signOutUser_run(1) [OF assms(1) s] signOutUser_run(2) [OF assms(1) s, of x] signOutUser_run(3) [OF assms(1) s, of c]
  show "hashes h' = hashes h"
    "x \<in> set (st_sessions (hb_store h')) \<Longrightarrow> se_user x = u_id u \<Longrightarrow> u_id u = u_id (ss_user s) \<and> se_token x = ss_token s"
    "c \<in> set (hb_conns h) \<Longrightarrow> cn_user c = u_id u \<Longrightarrow> cn_session c \<noteq> [] \<Longrightarrow>
      (u_id u = u_id (ss_user s) \<longrightarrow> cn_session c \<noteq> ss_token s) \<Longrightarrow> cn_ref c \<in> set (hb_stopped h')"
    by (auto simp: hashes_def split: if_splits)
qed

text \<open>
  Functional: when an administrator sets a new password for an account and the request
  succeeds, the account has the hash of that password, no session of the account is left
  but the one making the change, and every tracked connection of the others was stopped.
\<close>

theorem password_reset_signs_out:
  assumes "run_state (patchUser ev r idStr (Some b) s) h = (NoContent, h')" and "pb_password b \<noteq> []"
    and "st_faults (hb_store h) = []"
  shows "\<exists>u hash. u \<in> set (st_users (hb_store h)) \<and> u_id u = fst (ParseInt idStr) \<and>
    bcrypt_generate (ev_crypto ev) (pb_password b) = Some hash \<and> (u_id u, hash) \<in> set (hashes h') \<and>
    (\<forall>x\<in>set (st_sessions (hb_store h')). se_user x = u_id u \<longrightarrow> u_id u = u_id (ss_user s) \<and> se_token x = ss_token s) \<and>
    (\<forall>c\<in>set (hb_conns h). cn_user c = u_id u \<and> cn_session c \<noteq> [] \<and> (u_id u = u_id (ss_user s) \<longrightarrow> cn_session c \<noteq> ss_token s) \<longrightarrow>
       cn_ref c \<in> set (hb_stopped h'))"
proof -
  obtain x h1 where l: "run_state (lookupUser idStr :: (unit reply + user) hub_op) h = (x, h1)" by fastforce
  have h1: "h1 = h" using lookupUser_cases(1) [OF l] assms(3) by simp
  obtain u where x: "x = Inr u"
    using assms(1) lookupUser_cases(2) [OF l] l by (cases x) (auto simp: patchUser_def)
  have u: "u \<in> set (st_users (hb_store h))" "u_id u = fst (ParseInt idStr)" using lookupUser_cases(3) [OF l x] by auto
  have p: "run_state (patch_apply ev r s u b) h = (NoContent, h')"
    using assms(1) l x h1 by (auto simp: patchUser_def split: if_splits)
  obtain y h2 where y: "run_state (patch_steps ev u b) h = (y, h2)" by fastforce
  obtain cs so where cs: "y = Inr (cs, so)" "run_state (patch_finish ev r s u cs so) h2 = (NoContent, h')"
    using p y patch_steps_error [of ev u b h _ h2] by (cases y) (auto simp: patch_apply_def)
  from patch_steps_run [OF assms(3,2)] y cs(1) obtain hash where st: "so" "step_frame h h2"
    "bcrypt_generate (ev_crypto ev) (pb_password b) = Some hash"
    "hashes h2 = map (\<lambda>(i, p). (i, if i = u_id u then hash else p)) (hashes h)" by blast
  have "(u_id u, u_password_hash u) \<in> set (hashes h)" using u(1) by (auto simp: hashes_def)
  then have "(u_id u, hash) \<in> set (hashes h2)" unfolding st(4) by force
  moreover have f: "st_faults (hb_store h2) = []" "hb_conns h2 = hb_conns h" using st(2) by (auto simp: step_frame_def)
  moreover note fin = patch_finish_run [OF f(1) cs(2) [unfolded eqTrueI [OF st(1)]]]
  ultimately show ?thesis using u st(3) by (intro exI [of _ u] exI [of _ hash]) auto
qed

text \<open>An administrator with a fresh confirmation, and a user with a session and a terminal.\<close>

definition demo_target :: user where
  "demo_target = demo_user\<lparr>u_id := 2, u_username := ''bob'', u_role := RoleViewer\<rparr>"

definition demo_elevated :: session where
  "demo_elevated = \<lparr>ss_user = demo_user, ss_token = ''a'', ss_elevated = 1000\<rparr>"

definition demo_accounts :: hub where
  "demo_accounts = empty_hub\<lparr>hb_store := empty_store\<lparr>st_users := [demo_user, demo_target],
       st_sessions := [\<lparr>se_token = ''b'', se_user = 2, se_expires = 1000, se_elevated = 0\<rparr>]\<rparr>,
     hb_conns := [\<lparr>cn_ref = 7, cn_session = ''b'', cn_user = 2, cn_role = RoleViewer\<rparr>]\<rparr>"

definition demo_patch :: patchUserBody where
  "demo_patch = \<lparr>pb_role = [], pb_password = ''newpassword'', pb_reset_totp = True, pb_reset_passkeys = False\<rparr>"

lemmas demo_accounts_defs = demo_accounts_def demo_target_def demo_elevated_def demo_patch_def demo_user_def empty_hub_def
  empty_store_def demo_env_def demo_crypto_def

lemmas patch_defs = patchUser_def lookupUser_def User_def query_row_tick row_get_def requireElevated_def unix_of_def
  validatePassword_def patch_apply_def patch_steps_def and_then_def patch_role_def patch_password_def patch_totp_def
  patch_passkeys_def SetPassword_def SetTOTPSecret_def exec_tick update_user_def patch_finish_def

lemma demo_id: "fst (ParseInt ''2'') = 2"
  by code_simp

lemma demo_patch_runs:
  "fst (run_state (patchUser (demo_env 0 []) demo_request ''2'' (Some demo_patch) demo_elevated) demo_accounts) = NoContent"
  by (simp add: patch_defs demo_id demo_accounts_defs audit_def signOutUser_def DeleteSessions_def closeConns_def)

theorem password_reset_signs_out_witness:
  "list_all (\<lambda>x. se_user x \<noteq> 2) (st_sessions (hb_store (snd (run_state
      (patchUser (demo_env 0 []) demo_request ''2'' (Some demo_patch) demo_elevated) demo_accounts))))"
proof -
  let ?run = "run_state (patchUser (demo_env 0 []) demo_request ''2'' (Some demo_patch) demo_elevated) demo_accounts"
  have "?run = (NoContent, snd ?run)" using demo_patch_runs by (metis prod.collapse)
  from password_reset_signs_out [OF this] show ?thesis
    by (fastforce simp: demo_id demo_accounts_defs list_all_iff)
qed

section \<open>Changes need a confirmation\<close>

text \<open>
  (C34) Errors: without a recent confirmation of the password, no request creates, changes or
  deletes an account: none succeeds, and the hub is as before, up to the query that looks
  the account up.
\<close>

theorem account_changes_need_confirmation:
  assumes "\<not> requireElevated ev s"
  shows "\<not> is_success (fst (run_state (postUser ev r creds s) h)) \<and> snd (run_state (postUser ev r creds s) h) = h \<and>
    \<not> is_success (fst (run_state (patchUser ev r idStr body s) h)) \<and>
    snd (run_state (patchUser ev r idStr body s) h) = h\<lparr>hb_store := tick (hb_store h)\<rparr> \<and>
    \<not> is_success (fst (run_state (deleteUser ev r idStr s) h)) \<and>
    snd (run_state (deleteUser ev r idStr s) h) = h\<lparr>hb_store := tick (hb_store h)\<rparr>"
proof -
  obtain x h1 where l: "run_state (lookupUser idStr :: (unit reply + user) hub_op) h = (x, h1)" by fastforce
  note c = lookupUser_cases(1,2) [OF l]
  have "\<not> is_success (fst (run_state (postUser ev r creds s) h)) \<and> snd (run_state (postUser ev r creds s) h) = h"
    using assms by (auto simp: postUser_def split: option.splits prod.splits)
  moreover have "\<not> is_success (fst (run_state (patchUser ev r idStr body s) h)) \<and>
      snd (run_state (patchUser ev r idStr body s) h) = h\<lparr>hb_store := tick (hb_store h)\<rparr>"
    using assms l c by (cases x) (auto simp: patchUser_def split: option.splits)
  moreover have "\<not> is_success (fst (run_state (deleteUser ev r idStr s) h)) \<and>
      snd (run_state (deleteUser ev r idStr s) h) = h\<lparr>hb_store := tick (hb_store h)\<rparr>"
    using assms l c by (cases x) (auto simp: deleteUser_def)
  ultimately show ?thesis by blast
qed

theorem account_changes_need_confirmation_witness:
  "\<not> is_success (fst (run_state (deleteUser (demo_env 0 []) demo_request ''2'' (demo_elevated\<lparr>ss_elevated := - 1\<rparr>)) demo_accounts))"
  using account_changes_need_confirmation [of "demo_env 0 []" "demo_elevated\<lparr>ss_elevated := - 1\<rparr>" demo_request None demo_accounts "''2''" None]
  by (simp add: requireElevated_def unix_of_def demo_env_def)

section \<open>A failure half way\<close>

text \<open>
  The changes are separate statements, and the sessions end only after all of them. When the
  statement after the new password fails, the password is new, the sessions opened with the
  old one stay, and nothing is written to the activity log.
\<close>

definition failing_accounts :: hub where
  "failing_accounts = demo_accounts\<lparr>hb_store := (hb_store demo_accounts)\<lparr>st_faults := [False, False, True]\<rparr>\<rparr>"

lemma reset_failure_keeps_sessions:
  assumes "run_state (patchUser (demo_env 0 []) demo_request ''2'' (Some demo_patch) demo_elevated) failing_accounts = (rep, h')"
  shows "rep = internalError \<and> (2, ''$newpassword'') \<in> set (hashes h') \<and>
    st_sessions (hb_store h') = st_sessions (hb_store demo_accounts) \<and> hb_stopped h' = [] \<and> st_audit (hb_store h') = []"
  using assms
  by (auto simp: patch_defs demo_id failing_accounts_def demo_accounts_defs hashes_def fault_def tick_def)

end
