(* ===== verification/LiveState.thy ===== *)
theory LiveState
  imports AlertSync MetricStore
begin

text \<open>
  The samples the agents report (\<open>hub/state.go\<close>): the latest sample of a system, the ring
  for the live chart, and the average of the current minute, written to the database when
  the minute is over. The sums are kept as rational numbers.
\<close>

definition liveRingSize :: nat where "liveRingSize = 180"

definition metricValues :: "metrics \<Rightarrow> rat list" where
  "metricValues m =
     [mt_cpu m, of_int (mt_mem_used m), of_int (mt_mem_total m), of_int (mt_swap_used m), of_int (mt_swap_total m),
      of_int (mt_disk_used m), of_int (mt_disk_total m), mt_disk_read m, mt_disk_write m, mt_net_rx m, mt_net_tx m,
      mt_load1 m, mt_load5 m, mt_load15 m]"

definition new_sys_state :: sysState where
  "new_sys_state = \<lparr>sx_latest = None, sx_latest_at = 0, sx_ring = [], sx_bucket_ts = 0, sx_sum = replicate NumMetricCols 0, sx_n = 0\<rparr>"

definition put_sys :: "int \<Rightarrow> sysState \<Rightarrow> unit hub_op" where
  "put_sys i st = modify (\<lambda>h. h\<lparr>hb_states := (hb_states h)(i \<mapsto> st)\<rparr>)"

definition liveState :: "int \<Rightarrow> sysState option hub_op" where
  "liveState i = do {
     h \<leftarrow> State_Monad.get;
     if hb_agents h i = None then return None
     else (case hb_states h i of
             Some st \<Rightarrow> return (Some st)
           | None \<Rightarrow> do { put_sys i new_sys_state; return (Some new_sys_state) })
   }"

definition averages :: "sysState \<Rightarrow> rat list" where
  "averages st = map (\<lambda>v. v / of_int (sx_n st)) (sx_sum st)"

text \<open>\<open>takeBucket\<close>: time and values of the finished row, and the state with an empty bucket.\<close>

definition takeBucket :: "sysState \<Rightarrow> (int \<times> rat list) \<times> sysState" where
  "takeBucket st = ((sx_bucket_ts st, averages st), st\<lparr>sx_sum := replicate NumMetricCols 0, sx_n := 0\<rparr>)"

definition writeBucket :: "int \<Rightarrow> int \<times> rat list \<Rightarrow> metrics option \<Rightarrow> int \<Rightarrow> unit hub_op" where
  "writeBucket i row latest seen = do {
     db_log (InsertMetrics i Res1 (fst row) (snd row));
     (case latest of
        None \<Rightarrow> return ()
      | Some m \<Rightarrow> db_log (UpdateLastSeen i seen m))
   }"

definition minute_of :: "int \<Rightarrow> int" where
  "minute_of now = go_div now 60 * 60"

text \<open>The part of \<open>record\<close> under the mutex of the state: the row to write, and the state after it.\<close>

definition add_sample :: "int \<Rightarrow> metrics \<Rightarrow> sysState \<Rightarrow> (int \<times> rat list) option \<times> sysState" where
  "add_sample now m st0 =
     (let (done, st) = (if 0 < sx_n st0 \<and> sx_bucket_ts st0 \<noteq> minute_of now
                        then map_prod Some id (takeBucket st0) else (None, st0));
          ring = sx_ring st @ [\<lparr>lp_t = now, lp_m = m\<lparr>mt_filesystems := [], mt_containers := []\<rparr>\<rparr>]
      in (done, \<lparr>sx_latest = Some m, sx_latest_at = now, sx_ring = drop (length ring - liveRingSize) ring,
                 sx_bucket_ts = minute_of now, sx_sum = map2 (+) (sx_sum st) (metricValues m), sx_n = sx_n st + 1\<rparr>))"

definition record_sample :: "go_time \<Rightarrow> int \<Rightarrow> metrics \<Rightarrow> unit hub_op" where
  "record_sample t i m = do {
     let now = unix_of t;
     st \<leftarrow> liveState i;
     (case st of
        None \<Rightarrow> return ()
      | Some st \<Rightarrow>
          (case add_sample now m st of
             (done, st') \<Rightarrow> do {
               put_sys i st';
               (case done of
                  None \<Rightarrow> return ()
                | Some row \<Rightarrow> writeBucket i row (sx_latest st) (sx_latest_at st));
               publish (MetricsEvent i now m);
               evaluateMetrics i m (unix_time now)
             }))
   }"

definition flushState :: "go_time \<Rightarrow> bool \<Rightarrow> int \<Rightarrow> unit hub_op" where
  "flushState t force i = do {
     h \<leftarrow> State_Monad.get;
     (case hb_states h i of
        None \<Rightarrow> return ()
      | Some st \<Rightarrow>
          if sx_n st = 0 \<or> (\<not> force \<and> minute_of (unix_of t) \<le> sx_bucket_ts st) then return ()
          else (case takeBucket st of
                  (row, st') \<Rightarrow> do {
                    put_sys i st';
                    writeBucket i row (sx_latest st) (sx_latest_at st)
                  }))
   }"

text \<open>\<open>flush\<close> over the systems that have a state, in the order of \<open>ids\<close>.\<close>

fun flush :: "go_time \<Rightarrow> bool \<Rightarrow> int list \<Rightarrow> unit hub_op" where
  "flush t force [] = return ()"
| "flush t force (i # ids) = do { flushState t force i; flush t force ids }"

definition currentBucket :: "int \<Rightarrow> (int \<times> rat list) option hub_op" where
  "currentBucket i = gets (\<lambda>h.
     case hb_states h i of
       None \<Rightarrow> None
     | Some st \<Rightarrow> if sx_n st = 0 then None else Some (sx_latest_at st, averages st))"

definition liveSeries :: "int \<Rightarrow> (int \<times> rat list) list hub_op" where
  "liveSeries i = gets (\<lambda>h.
     case hb_states h i of
       None \<Rightarrow> []
     | Some st \<Rightarrow> map (\<lambda>p. (lp_t p, metricValues (lp_m p))) (sx_ring st))"

section \<open>What evaluating the rules leaves alone\<close>

definition metrics_frame :: "hub \<Rightarrow> hub \<Rightarrow> bool" where
  "metrics_frame h h' \<longleftrightarrow> st_faults (hb_store h') = [] \<and> st_metrics (hb_store h') = st_metrics (hb_store h) \<and>
     st_systems (hb_store h') = st_systems (hb_store h) \<and> hb_states h' = hb_states h \<and> hb_agents h' = hb_agents h"



lemma metrics_frame_with_state [simp]: "metrics_frame h (with_state k x g) = metrics_frame h g"
  by (simp add: metrics_frame_def with_state_def)




section \<open>Averages of the minutes\<close>

definition sum_cols :: "rat list list \<Rightarrow> rat list" where
  "sum_cols vs = fold (\<lambda>v s. map2 (+) s v) vs (replicate NumMetricCols 0)"

definition mean :: "rat list list \<Rightarrow> rat list" where
  "mean vs = map (\<lambda>x. x / of_int (int (length vs))) (sum_cols vs)"


definition rows_at :: "int \<Rightarrow> int \<Rightarrow> hub \<Rightarrow> rat list list" where
  "rows_at i mu h = map mr_values (filter (\<lambda>r. metric_key r = (i, Res1, mu)) (st_metrics (hb_store h)))"
















section \<open>Runs\<close>

















definition demo_agent :: "int \<Rightarrow> agentConn" where
  "demo_agent i = \<lparr>ac_ref = 1, ac_id = i, ac_name = ''nas'', ac_remote = RawHost [], ac_info = demo_info, ac_features = []\<rparr>"

definition live_hub :: hub where
  "live_hub = empty_hub\<lparr>hb_store := empty_store\<lparr>st_systems := [demo_system 7 ''nas'']\<rparr>, hb_agents := [7 \<mapsto> demo_agent 7]\<rparr>"


section \<open>A minute in two parts\<close>

text \<open>
  When an agent goes away its open bucket is written at once. When it comes back within the
  minute, the samples after that make a second bucket of the same minute, which replaces
  the row of the first: the row of the minute is not the average of its samples.
\<close>

definition split_minute :: "unit hub_op" where
  "split_minute = do {
     record_sample (60 * second) 7 (demo_metrics 90);
     flushState (61 * second) True 7;
     record_sample (62 * second) 7 (demo_metrics 10);
     flushState (120 * second) False 7
   }"

lemma forced_flush_loses_samples:
  "map hd (rows_at 7 60 (snd (run_state split_minute live_hub))) = [10] \<and>
   hd (mean [metricValues (demo_metrics 90), metricValues (demo_metrics 10)]) = 50"
  by (simp add: split_minute_def record_sample_def flushState_def liveState_def put_sys_def publish_def Let_def add_sample_def
      takeBucket_def averages_def writeBucket_def InsertMetrics_def UpdateLastSeen_def stmt_tick exec_tick update_system_def
      evaluateMetrics_def dispatch_def live_hub_def empty_hub_def empty_store_def demo_system_def new_sys_state_def
      minute_of_def unix_of_def metricValues_def demo_metrics_def NumMetricCols_def MetricCols_def rows_at_def replace_rows_def
      metric_key_def mean_def sum_cols_def)

end
