(* ===== verification/Viewers.thy ===== *)
theory Viewers
  imports HubState Interfaces
begin

text \<open>
  Open browsers (\<open>hub/broker.go\<close>, \<open>hub/hub.go\<close>): subscribing to the events, and the switch
  between live and idle reporting. \<open>agents\<close> is the order in which Go ranges over the
  connected agents.
\<close>

definition liveInterval :: int where "liveInterval = 2"
definition idleInterval :: int where "idleInterval = 60"

definition broker_count :: "broker \<Rightarrow> nat" where
  "broker_count b = length (br_subs b)"

definition broker_subscribe :: "nat \<Rightarrow> broker \<Rightarrow> broker" where
  "broker_subscribe ch b = b\<lparr>br_subs := (ch, []) # filter (\<lambda>(c, _). c \<noteq> ch) (br_subs b)\<rparr>"

definition broker_unsubscribe :: "nat \<Rightarrow> broker \<Rightarrow> broker" where
  "broker_unsubscribe ch b = b\<lparr>br_subs := filter (\<lambda>(c, _). c \<noteq> ch) (br_subs b)\<rparr>"

definition setInterval :: "agentConn \<Rightarrow> int \<Rightarrow> unit hub_op" where
  "setInterval ac seconds = spawn (SetInterval (ac_ref ac) seconds)"

definition intervalLocked :: "hub \<Rightarrow> int" where
  "intervalLocked h = (if hb_live h then liveInterval else idleInterval)"

fun tell_agents :: "int \<Rightarrow> int list \<Rightarrow> unit hub_op" where
  "tell_agents sec [] = return ()"
| "tell_agents sec (i # is) = do {
     h \<leftarrow> State_Monad.get;
     (case hb_agents h i of None \<Rightarrow> return () | Some ac \<Rightarrow> setInterval ac sec);
     tell_agents sec is
   }"

definition broadcastIntervalLocked :: "int list \<Rightarrow> unit hub_op" where
  "broadcastIntervalLocked agents = do {
     sec \<leftarrow> gets intervalLocked;
     tell_agents sec agents
   }"

definition viewersChanged :: "int list \<Rightarrow> unit hub_op" where
  "viewersChanged agents = do {
     h \<leftarrow> State_Monad.get;
     if 0 < broker_count (hb_broker h) then do {
       modify (\<lambda>h. h\<lparr>hb_idle_timer := False\<rparr>);
       if \<not> hb_live h then do {
         modify (\<lambda>h. h\<lparr>hb_live := True\<rparr>);
         broadcastIntervalLocked agents
       }
       else return ()
     }
     else if hb_live h \<and> \<not> hb_idle_timer h then modify (\<lambda>h. h\<lparr>hb_idle_timer := True\<rparr>)
     else return ()
   }"

text \<open>The function the idle timer runs.\<close>

definition idle_expired :: "int list \<Rightarrow> unit hub_op" where
  "idle_expired agents = do {
     modify (\<lambda>h. h\<lparr>hb_idle_timer := False\<rparr>);
     h \<leftarrow> State_Monad.get;
     if hb_live h \<and> broker_count (hb_broker h) = 0 then do {
       modify (\<lambda>h. h\<lparr>hb_live := False\<rparr>);
       broadcastIntervalLocked agents
     }
     else return ()
   }"

text \<open>A browser that opens the event stream, and the end of its request.\<close>

definition events_open :: "session \<Rightarrow> nat \<Rightarrow> nat hub_op" where
  "events_open s ch = do {
     ref \<leftarrow> track s RoleViewer;
     modify (\<lambda>h. h\<lparr>hb_broker := broker_subscribe ch (hb_broker h)\<rparr>);
     return ref
   }"

definition events_close :: "nat \<Rightarrow> nat \<Rightarrow> unit hub_op" where
  "events_close ref ch = do {
     modify (\<lambda>h. h\<lparr>hb_broker := broker_unsubscribe ch (hb_broker h)\<rparr>);
     untrack ref
   }"

section \<open>Live exactly while someone watches\<close>

text \<open>
  Subscribing and the call of \<open>viewersChanged\<close> after it are two steps, and so is a timer
  that was already running when it was stopped: the state has the calls that are due and
  the timer functions that may still run.
\<close>

record viewing =
  vw_hub :: hub
  vw_due :: nat
  vw_timers :: nat

inductive view_step :: "viewing \<Rightarrow> viewing \<Rightarrow> bool" where
  view_open: "view_step v (v\<lparr>vw_hub := snd (run_state (events_open s ch) (vw_hub v)), vw_due := Suc (vw_due v)\<rparr>)"
| view_close: "view_step v (v\<lparr>vw_hub := snd (run_state (events_close ref ch) (vw_hub v)), vw_due := Suc (vw_due v)\<rparr>)"
| view_changed: "vw_due v = Suc n \<Longrightarrow> h' = snd (run_state (viewersChanged agents) (vw_hub v)) \<Longrightarrow>
    k \<in> (if hb_idle_timer h' \<and> \<not> hb_idle_timer (vw_hub v) then {Suc (vw_timers v)}
         else if hb_idle_timer (vw_hub v) \<and> \<not> hb_idle_timer h' then {vw_timers v, vw_timers v - 1} else {vw_timers v}) \<Longrightarrow>
    view_step v (v\<lparr>vw_hub := h', vw_due := n, vw_timers := k\<rparr>)"
| view_timer: "vw_timers v = Suc n \<Longrightarrow>
    view_step v (v\<lparr>vw_hub := snd (run_state (idle_expired agents) (vw_hub v)), vw_timers := n\<rparr>)"
| view_other: "hb_broker h' = (hb_broker (vw_hub v))\<lparr>br_subs := map (\<lambda>(c, q). (c, f c q)) (br_subs (hb_broker (vw_hub v)))\<rparr> \<Longrightarrow>
    hb_live h' = hb_live (vw_hub v) \<Longrightarrow> hb_idle_timer h' = hb_idle_timer (vw_hub v) \<Longrightarrow>
    view_step v (v\<lparr>vw_hub := h'\<rparr>)"

definition view_init :: "viewing \<Rightarrow> bool" where
  "view_init v \<longleftrightarrow> \<not> hb_live (vw_hub v) \<and> \<not> hb_idle_timer (vw_hub v) \<and> br_subs (hb_broker (vw_hub v)) = [] \<and>
     vw_due v = 0 \<and> vw_timers v = 0"

definition view_ok :: "viewing \<Rightarrow> bool" where
  "view_ok v \<longleftrightarrow> (hb_idle_timer (vw_hub v) \<longrightarrow> 0 < vw_timers v) \<and>
     (vw_due v = 0 \<longrightarrow>
        (0 < broker_count (hb_broker (vw_hub v)) \<longrightarrow> hb_live (vw_hub v)) \<and>
        (broker_count (hb_broker (vw_hub v)) = 0 \<and> hb_live (vw_hub v) \<longrightarrow> 0 < vw_timers v))"

lemma tell_agents_frame:
  "\<exists>ts. snd (run_state (tell_agents sec is) h) = h\<lparr>hb_tasks := ts\<rparr>"
proof (induction "is" arbitrary: h)
  case Nil
  show ?case by (rule exI [of _ "hb_tasks h"]) simp
next
  case (Cons i "is")
  show ?case
  proof (cases "hb_agents h i")
    case None
    with Cons show ?thesis by simp
  next
    case (Some ac)
    obtain ts where "snd (run_state (tell_agents sec is) (h\<lparr>hb_tasks := hb_tasks h @ [SetInterval (ac_ref ac) sec]\<rparr>)) =
        h\<lparr>hb_tasks := hb_tasks h @ [SetInterval (ac_ref ac) sec]\<rparr>\<lparr>hb_tasks := ts\<rparr>" using Cons by blast
    with Some show ?thesis by (auto simp: setInterval_def spawn_def)
  qed
qed

lemma broadcast_frame: "\<exists>ts. snd (run_state (broadcastIntervalLocked agents) h) = h\<lparr>hb_tasks := ts\<rparr>"
  using tell_agents_frame by (simp add: broadcastIntervalLocked_def)

lemma viewersChanged_run:
  assumes "h' = snd (run_state (viewersChanged agents) h)"
  shows "hb_broker h' = hb_broker h"
    and "hb_live h' = (hb_live h \<or> 0 < broker_count (hb_broker h))"
    and "hb_idle_timer h' = (broker_count (hb_broker h) = 0 \<and> (hb_idle_timer h \<or> hb_live h))"
proof -
  obtain ts where ts: "snd (run_state (broadcastIntervalLocked agents) (h\<lparr>hb_idle_timer := False, hb_live := True\<rparr>)) =
      h\<lparr>hb_idle_timer := False, hb_live := True\<rparr>\<lparr>hb_tasks := ts\<rparr>" using broadcast_frame by blast
  show "hb_broker h' = hb_broker h" "hb_live h' = (hb_live h \<or> 0 < broker_count (hb_broker h))"
    "hb_idle_timer h' = (broker_count (hb_broker h) = 0 \<and> (hb_idle_timer h \<or> hb_live h))"
    using ts by (auto simp: assms viewersChanged_def)
qed

lemma idle_expired_run:
  assumes "h' = snd (run_state (idle_expired agents) h)"
  shows "hb_broker h' = hb_broker h" and "hb_live h' = (hb_live h \<and> 0 < broker_count (hb_broker h))"
    and "\<not> hb_idle_timer h'"
proof -
  obtain ts where ts: "snd (run_state (broadcastIntervalLocked agents) (h\<lparr>hb_idle_timer := False, hb_live := False\<rparr>)) =
      h\<lparr>hb_idle_timer := False, hb_live := False\<rparr>\<lparr>hb_tasks := ts\<rparr>" using broadcast_frame by blast
  show "hb_broker h' = hb_broker h" "hb_live h' = (hb_live h \<and> 0 < broker_count (hb_broker h))" "\<not> hb_idle_timer h'"
    using ts by (auto simp: assms idle_expired_def)
qed

lemma view_ok_step:
  assumes "view_ok v" and "view_step v v'"
  shows "view_ok v'"
  using assms(2)
proof cases
  case (view_open s ch)
  with assms(1) show ?thesis by (simp add: view_ok_def events_open_def track_def)
next
  case (view_close ref ch)
  with assms(1) show ?thesis by (simp add: view_ok_def events_close_def untrack_def)
next
  case (view_changed n h' agents k)
  note r = viewersChanged_run [OF view_changed(3)]
  from view_changed(1,4) r assms(1) show ?thesis by (auto simp: view_ok_def split: if_splits)
next
  case (view_timer n agents)
  note r = idle_expired_run [OF refl, of agents "vw_hub v"]
  from view_timer r assms(1) show ?thesis by (auto simp: view_ok_def)
next
  case (view_other h' f)
  with assms(1) show ?thesis by (simp add: view_ok_def broker_count_def)
qed

lemma view_ok_init: "view_init v \<Longrightarrow> view_ok v"
  by (simp add: view_init_def view_ok_def broker_count_def)

interpretation viewers: invariant_system view_init view_step view_ok
  by unfold_locales (auto intro: view_ok_init view_ok_step)

text \<open>
  Live reporting: in every run of browsers coming and going, timers that fire late
  included, once the calls of \<open>viewersChanged\<close> that are due have run, the hub reports live
  while at least one browser is open, and while none is, it is idle or a timer will make it so.
\<close>

theorem live_while_watched:
  assumes "view_init v0" and "reaches view_step v0 v" and "vw_due v = 0"
  shows "(if 0 < broker_count (hb_broker (vw_hub v)) then intervalLocked (vw_hub v) = liveInterval
     else intervalLocked (vw_hub v) = idleInterval \<or> 0 < vw_timers v)"
proof -
  have "view_ok v" using assms(1,2) by (rule viewers.inv_reachable)
  with assms(3) show ?thesis by (auto simp: view_ok_def intervalLocked_def)
qed

definition demo_viewing :: viewing where
  "demo_viewing = \<lparr>vw_hub = empty_hub, vw_due = 0, vw_timers = 0\<rparr>"

definition demo_watcher :: session where
  "demo_watcher = \<lparr>ss_user = \<lparr>u_id = 1, u_username = ''ada'', u_password_hash = [], u_totp_secret = [], u_role = RoleViewer,
     u_created_at = 0, u_last_login = 0, u_handle = None\<rparr>, ss_token = [], ss_elevated = 0\<rparr>"

theorem live_while_watched_witness:
  "intervalLocked (snd (run_state (viewersChanged []) (snd (run_state (events_open demo_watcher 3) empty_hub)))) = liveInterval"
proof -
  let ?h1 = "snd (run_state (events_open demo_watcher 3) empty_hub)"
  let ?v1 = "demo_viewing\<lparr>vw_hub := ?h1, vw_due := 1\<rparr>"
  let ?v2 = "?v1\<lparr>vw_hub := snd (run_state (viewersChanged []) ?h1), vw_due := 0, vw_timers := 0\<rparr>"
  have i: "view_init demo_viewing" by (simp add: view_init_def demo_viewing_def empty_hub_def)
  have n: "0 < broker_count (hb_broker ?h1)" "\<not> hb_idle_timer ?h1"
    by (simp_all add: events_open_def track_def broker_subscribe_def broker_count_def empty_hub_def)
  have "view_step demo_viewing ?v1" using view_open [of demo_viewing demo_watcher 3] by (simp add: demo_viewing_def)
  moreover have "view_step ?v1 ?v2"
    by (rule view_changed [where agents = "[]" and n = 0])
      (use n viewersChanged_run(3) [OF refl, of "[]" ?h1] in \<open>simp_all add: demo_viewing_def\<close>)
  ultimately have "reaches view_step demo_viewing ?v2" by (blast intro: reaches.intros)
  from live_while_watched [OF i this] n(1) viewersChanged_run(1) [OF refl, of "[]" ?h1] show ?thesis by simp
qed

end
