(* ===== verification/Gateway.thy ===== *)
theory Gateway
  imports LiveState Viewers Sessions SelfUpdate
begin

text \<open>
  Agents that connect (\<open>hub/gateway.go\<close>) and the requests about systems (\<open>hub/api.go\<close>). The
  fingerprint is that of the key that the SSH handshake authenticated. Serving a link and
  deleting a system are several steps, between which other steps may run.
\<close>

section \<open>Admission\<close>

definition maxFilesystems :: nat where "maxFilesystems = 32"
definition agentTimeout :: duration where "agentTimeout = 150 * second"
definition handshakeTimeout :: duration where "handshakeTimeout = 15 * second"
definition enrollTTL :: duration where "enrollTTL = hour"

definition has_feature :: "agentConn \<Rightarrow> string \<Rightarrow> bool" where
  "has_feature ac f \<longleftrightarrow> f \<in> set (ac_features ac)"

definition enroll_name :: "string \<Rightarrow> string" where
  "enroll_name hostname =
     (let name = TrimSpace hostname;
          name = (if name = [] then ''unnamed'' else name)
      in if maxNameLen < length name then take maxNameLen name else name)"

definition enroll :: "env \<Rightarrow> string \<Rightarrow> hello \<Rightarrow> (detail list + system) hub_op" where
  "enroll ev fingerprint hello = do {
     x \<leftarrow> db (CreateSystem (unix_of (ev_now ev)) (enroll_name (si_hostname (he_info hello))) fingerprint (he_info hello)
            (he_agent_version hello));
     (case x of
        Inl _ \<Rightarrow> return (Inl [Txt ''internal error''])
      | Inr sys \<Rightarrow> do {
          audit ev None [] ''system_enrolled'' (Some sys) [Txt ''agent key '', Txt fingerprint];
          publish SystemsEvent;
          return (Inr sys)
        })
   }"

definition admit :: "env \<Rightarrow> string \<Rightarrow> hello \<Rightarrow> (detail list + system) hub_op" where
  "admit ev fingerprint hello =
     (if he_protocol hello \<noteq> Version
      then return (Inl [Txt ''agent speaks protocol '', Num (he_protocol hello), Txt '', hub speaks '', Num Version,
             Txt ''; update the agent''])
      else do {
        x \<leftarrow> db (SystemByFingerprint fingerprint);
        (case x of
           Inr sys \<Rightarrow>
             if sy_info sys \<noteq> he_info hello \<or> sy_agent_version sys \<noteq> he_agent_version hello then do {
               db_log (UpdateSystemInfo (sy_id sys) (he_info hello) (he_agent_version hello));
               publish SystemsEvent;
               return (Inr (sys\<lparr>sy_info := he_info hello, sy_agent_version := he_agent_version hello\<rparr>))
             }
             else return (Inr sys)
         | Inl ErrNotFound \<Rightarrow>
             if he_token hello = []
             then return (Inl [Txt ''unknown agent; add it with an enrollment token from the hub UI''])
             else do {
               ok \<leftarrow> db (ValidEnrollToken (ev_now ev) (hashToken ev (he_token hello)));
               (case ok of
                  Inl _ \<Rightarrow> return (Inl [Txt ''internal error''])
                | Inr ok \<Rightarrow>
                    if \<not> ok then return (Inl [Txt ''enrollment token is invalid or expired''])
                    else enroll ev fingerprint hello)
             }
         | Inl _ \<Rightarrow> return (Inl [Txt ''internal error'']))
      })"

section \<open>Links\<close>

definition set_agent :: "int \<Rightarrow> agentConn option \<Rightarrow> unit hub_op" where
  "set_agent i x = modify (\<lambda>h. h\<lparr>hb_agents := (hb_agents h)(i := x)\<rparr>)"

definition close_link :: "agentConn option \<Rightarrow> unit hub_op" where
  "close_link x = (case x of None \<Rightarrow> return () | Some ac \<Rightarrow> modify (\<lambda>h. h\<lparr>hb_closed := ac_ref ac # hb_closed h\<rparr>))"

definition register :: "go_time \<Rightarrow> agentConn \<Rightarrow> int hub_op" where
  "register now ac = do {
     h \<leftarrow> State_Monad.get;
     set_agent (ac_id ac) (Some ac);
     let interval = intervalLocked h;
     close_link (hb_agents h (ac_id ac));
     publish (StatusEvent (ac_id ac) True);
     agentOnline now (ac_id ac);
     return interval
   }"

definition is_current :: "agentConn \<Rightarrow> hub \<Rightarrow> bool" where
  "is_current ac h \<longleftrightarrow> map_option ac_ref (hb_agents h (ac_id ac)) = Some (ac_ref ac)"


text \<open>
  The steps of \<open>serveAgent\<close> after the handshake: register the link, look for the system
  again, and the loop over the messages. \<open>confirm_link\<close> returns whether the link stays.
\<close>

definition new_link :: "nat \<Rightarrow> client_ip \<Rightarrow> hello \<Rightarrow> system \<Rightarrow> agentConn" where
  "new_link ref remote hello sys =
     \<lparr>ac_ref = ref, ac_id = sy_id sys, ac_name = sy_name sys, ac_remote = remote, ac_info = he_info hello,
      ac_features = he_features hello\<rparr>"

definition confirm_link :: "agentConn \<Rightarrow> bool hub_op" where
  "confirm_link ac = do {
     x \<leftarrow> db (System (ac_id ac));
     (case x of
        Inl ErrNotFound \<Rightarrow> do {
          current \<leftarrow> gets (is_current ac);
          (if current then set_agent (ac_id ac) None else return ());
          return False
        }
      | _ \<Rightarrow> return True)
   }"

definition hello_result :: "bool \<Rightarrow> int \<Rightarrow> hello_reply" where
  "hello_result ok interval =
     (if ok then \<lparr>hr_ok = True, hr_error = [], hr_interval = interval\<rparr>
      else \<lparr>hr_ok = False, hr_error = ''this system was deleted on the hub; enroll it again'', hr_interval = 0\<rparr>)"

text \<open>A message of the agent: \<open>None\<close> when it is not a sample that can be read. The answer, and the sample kept.\<close>

definition agent_message :: "go_time \<Rightarrow> int \<Rightarrow> metrics option \<Rightarrow> bool hub_op" where
  "agent_message now i msg =
     (case msg of
        None \<Rightarrow> return False
      | Some m \<Rightarrow> do {
          record_sample now i (m\<lparr>mt_filesystems := take maxFilesystems (mt_filesystems m)\<rparr>);
          return True
        })"

definition link_dead :: "go_time \<Rightarrow> go_time \<Rightarrow> bool" where
  "link_dead lastMsg now \<longleftrightarrow> agentTimeout < time_sub now lastMsg"

section \<open>Systems\<close>

definition lookupSystem :: "string \<Rightarrow> ('a reply + system) hub_op" where
  "lookupSystem idStr =
     (case ParseInt idStr of
        (_, True) \<Rightarrow> return (Inl (WriteError 404 ''system not found''))
      | (i, False) \<Rightarrow> do {
          x \<leftarrow> db (System i);
          return (case x of
            Inl ErrNotFound \<Rightarrow> Inl (WriteError 404 ''system not found'')
          | Inl _ \<Rightarrow> Inl internalError
          | Inr sys \<Rightarrow> Inr sys)
        })"

record systemDTO =
  sd_id :: int
  sd_name :: string
  sd_online :: bool
  sd_fingerprint :: string
  sd_info :: system_info
  sd_features :: "string list"
  sd_agent_version :: string
  sd_update :: string
  sd_last_seen :: int
  sd_created_at :: int
  sd_metrics :: "metrics option"

definition toDTO :: "(string \<rightharpoonup> manifest) \<Rightarrow> system \<Rightarrow> hub \<Rightarrow> systemDTO" where
  "toDTO ups s h =
     (let ac = hb_agents h (sy_id s);
          features = (case ac of None \<Rightarrow> [] | Some ac \<Rightarrow> ac_features ac);
          live = (case hb_states h (sy_id s) of None \<Rightarrow> None | Some st \<Rightarrow> map_option (\<lambda>m. (m, sx_latest_at st)) (sx_latest st))
      in \<lparr>sd_id = sy_id s, sd_name = sy_name s, sd_online = ac \<noteq> None, sd_fingerprint = sy_fingerprint s, sd_info = sy_info s,
          sd_features = features, sd_agent_version = sy_agent_version s,
          sd_update = updateVersion ups (sy_agent_version s) (si_os (sy_info s)) (si_arch (sy_info s)) features,
          sd_last_seen = (case live of None \<Rightarrow> sy_last_seen s | Some (_, t) \<Rightarrow> t), sd_created_at = sy_created_at s,
          sd_metrics = (case live of None \<Rightarrow> sy_last_metrics s | Some (m, _) \<Rightarrow> Some m)\<rparr>)"

definition getSystems :: "(string \<rightharpoonup> manifest) \<Rightarrow> systemDTO list reply hub_op" where
  "getSystems ups = do {
     systems \<leftarrow> db Systems;
     (case systems of
        Inl _ \<Rightarrow> return internalError
      | Inr systems \<Rightarrow> gets (\<lambda>h. WriteJSON 200 (map (\<lambda>s. toDTO ups s h) systems)))
   }"

definition getSystem :: "(string \<rightharpoonup> manifest) \<Rightarrow> string \<Rightarrow> systemDTO reply hub_op" where
  "getSystem ups idStr = do {
     x \<leftarrow> lookupSystem idStr;
     (case x of
        Inl rep \<Rightarrow> return rep
      | Inr sys \<Rightarrow> gets (\<lambda>h. WriteJSON 200 (toDTO ups sys h)))
   }"

definition patchSystem ::
    "(string \<rightharpoonup> manifest) \<Rightarrow> env \<Rightarrow> request \<Rightarrow> string \<Rightarrow> string option \<Rightarrow> session \<Rightarrow> systemDTO reply hub_op" where
  "patchSystem ups ev r idStr body s = do {
     x \<leftarrow> lookupSystem idStr;
     (case x of
        Inl rep \<Rightarrow> return rep
      | Inr sys \<Rightarrow>
          (case body of
             None \<Rightarrow> return badJSON
           | Some name0 \<Rightarrow>
               let name = TrimSpace name0 in
               if name = [] \<or> maxNameLen < RuneCountInString name then return (WriteError 400 ''name must be 1-64 characters'')
               else do {
                 y \<leftarrow> db (RenameSystem (sy_id sys) name);
                 (case y of
                    Inl _ \<Rightarrow> return internalError
                  | Inr _ \<Rightarrow> do {
                      audit ev (Some r) (u_username (ss_user s)) ''system_renamed'' (Some sys)
                        [Txt ''renamed from '', Quoted (sy_name sys), Txt '' to '', Quoted name];
                      modify (\<lambda>h. h\<lparr>hb_agents := (hb_agents h)(sy_id sys :=
                        map_option (\<lambda>ac. ac\<lparr>ac_name := name\<rparr>) (hb_agents h (sy_id sys)))\<rparr>);
                      publish SystemsEvent;
                      gets (\<lambda>h. WriteJSON 200 (toDTO ups (sys\<lparr>sy_name := name\<rparr>) h))
                    })
               }))
   }"

text \<open>The second part of \<open>deleteSystem\<close>, under the mutex of the hub, and the whole handler.\<close>

definition drop_system :: "int \<Rightarrow> unit hub_op" where
  "drop_system i = do {
     ac \<leftarrow> gets (\<lambda>h. hb_agents h i);
     modify (\<lambda>h. h\<lparr>hb_agents := (hb_agents h)(i := None), hb_states := (hb_states h)(i := None)\<rparr>);
     close_link ac
   }"

definition deleteSystem :: "env \<Rightarrow> request \<Rightarrow> string \<Rightarrow> session \<Rightarrow> unit reply hub_op" where
  "deleteSystem ev r idStr s = do {
     x \<leftarrow> lookupSystem idStr;
     (case x of
        Inl rep \<Rightarrow> return rep
      | Inr sys \<Rightarrow> do {
          y \<leftarrow> db (DeleteSystem (sy_id sys));
          if y \<noteq> Inr () \<and> y \<noteq> Inl ErrNotFound then return internalError
          else do {
            drop_system (sy_id sys);
            resetAlerts (ev_now ev) 0 (sy_id sys);
            audit ev (Some r) (u_username (ss_user s)) ''system_deleted'' (Some sys) [];
            publish SystemsEvent;
            return NoContent
          }
        })
   }"

section \<open>Enrollment\<close>

record enrollDTO =
  ed_token :: string
  ed_expires_at :: int
  ed_hub_url :: string
  ed_hub_key :: string

text \<open>\<open>fh\<close> is the header \<open>X-Forwarded-Host\<close>.\<close>

definition publicURL :: "request \<Rightarrow> string \<Rightarrow> hub \<Rightarrow> string" where
  "publicURL r fh h =
     (if hb_public_url h \<noteq> [] then hb_public_url h
      else (if isHTTPS r then ''https'' else ''http'') @ ''://'' @ (if fh = [] then rq_host r else fh))"

definition postEnroll :: "env \<Rightarrow> request \<Rightarrow> string \<Rightarrow> string \<Rightarrow> session \<Rightarrow> enrollDTO reply hub_op" where
  "postEnroll ev r fh hubKey s = do {
     let token = randomToken ev;
     let expires = ev_now ev + enrollTTL;
     x \<leftarrow> db (CreateEnrollToken (ev_now ev) (hashToken ev token) expires);
     (case x of
        Inl _ \<Rightarrow> return internalError
      | Inr _ \<Rightarrow> do {
          audit ev (Some r) (u_username (ss_user s)) ''token_created'' None [Txt ''valid until '', Date expires];
          gets (\<lambda>h. WriteJSON 200 \<lparr>ed_token = token, ed_expires_at = unix_of expires, ed_hub_url = publicURL r fh h,
            ed_hub_key = hubKey\<rparr>)
        })
   }"

section \<open>Who is admitted\<close>



section \<open>Deleted systems\<close>



















section \<open>Examples\<close>

definition demo_hello :: hello where
  "demo_hello = \<lparr>he_protocol = Version, he_agent_version = [], he_token = [], he_info = demo_info, he_features = []\<rparr>"




text \<open>
  SQLite gives the number of the newest system out again once it is deleted. A link that was
  admitted before the deletion and registers after another system got the number finds a
  row when it looks for its system, and is connected as the other system.
\<close>

definition reuse_hub :: hub where
  "reuse_hub = empty_hub\<lparr>hb_store := empty_store\<lparr>st_systems := [demo_system 1 ''nas''],
     st_enroll := [\<lparr>en_token = hashToken (demo_env 0 []) ''t'', en_created = 0, en_expires = 1000\<rparr>]\<rparr>\<rparr>"

text \<open>The old agent is admitted, its system deleted, another one enrolled, and the old link registered.\<close>

definition reuse_run :: "(bool \<times> agentConn option \<times> system list) hub_op" where
  "reuse_run = do {
     x \<leftarrow> admit (demo_env 0 []) ''nas'' demo_hello;
     _ \<leftarrow> db (DeleteSystem 1);
     drop_system 1;
     _ \<leftarrow> admit (demo_env 0 []) ''new'' (demo_hello\<lparr>he_token := ''t''\<rparr>);
     (case x of
        Inl _ \<Rightarrow> return (False, None, [])
      | Inr sys \<Rightarrow> do {
          _ \<leftarrow> register 0 (new_link 5 (RawHost []) demo_hello sys);
          ok \<leftarrow> confirm_link (new_link 5 (RawHost []) demo_hello sys);
          gets (\<lambda>h. (ok, hb_agents h 1, st_systems (hb_store h)))
        })
   }"

lemma deleted_agent_joins_as_new_system:
  "case fst (run_state reuse_run reuse_hub) of
     (ok, agent, systems) \<Rightarrow> ok \<and> map_option ac_ref agent = Some 5 \<and> map (\<lambda>s. (sy_id s, sy_fingerprint s)) systems = [(1, ''new'')]"
proof -
  have n: "enroll_name ''box'' = ''box''" by (simp add: enroll_name_def TrimSpace_eval maxNameLen_def)
  have a: "run_state (audit ev r u act sys d) h = ((), h\<lparr>hb_store := snd (AddAudit (ev_now ev)
      \<lparr>ae_id = 0, ae_time = 0, ae_username = truncate_str u maxNameLen, ae_action = act, ae_system_id = map_option sy_id sys,
       ae_system_name = (case sys of None \<Rightarrow> [] | Some x \<Rightarrow> sy_name x), ae_remote = map_option clientIP r, ae_detail = d\<rparr>
      (hb_store h))\<rparr>)" for ev r u act sys d h
    by (simp add: audit_def)
  show ?thesis
    by (simp add: reuse_run_def reuse_hub_def admit_def enroll_def demo_hello_def demo_info_def demo_system_def n a
        SystemByFingerprint_def query_row_tick DeleteSystem_def exec_affected_tick cascade_systems_def drop_system_def close_link_def
        ValidEnrollToken_def query_tick CreateSystem_def bind_op_def stmt_tick System_def row_get_def next_rowid_def Let_def
        publish_def register_def set_agent_def new_link_def agentOnline_def update_engine_def spawn_def confirm_link_def
        is_current_def empty_hub_def empty_store_def demo_env_def hashToken_def unix_of_def AddAudit_def exec_tick)
qed

end
