(* ===== verification/Charts.thy ===== *)
theory Charts
  imports Gateway
begin

text \<open>
  The series behind the charts (\<open>hub/api.go\<close>): the rows of a range, in columns, with a null
  point where the agent was offline. A column holds options: \<open>None\<close> is the \<open>NaN\<close> that
  \<open>jsonFloat\<close> writes as null.
\<close>

definition ranges :: "string \<Rightarrow> (int \<times> duration) option" where
  "ranges name =
     (if name = ''1h'' then Some (Res1, hour)
      else if name = ''24h'' then Some (Res1, 24 * hour)
      else if name = ''7d'' then Some (Res10, 7 * 24 * hour)
      else if name = ''30d'' then Some (Res60, 30 * 24 * hour)
      else if name = ''1y'' then Some (Res60, 365 * 24 * hour)
      else None)"

text \<open>What \<open>MarshalJSON\<close> writes for a value: null, or two decimals, halves away from zero.\<close>

definition jsonFloat :: "rat option \<Rightarrow> rat option" where
  "jsonFloat f = map_option (\<lambda>v. of_int (if 0 \<le> v then \<lfloor>v * 100 + 1 / 2\<rfloor> else \<lceil>v * 100 - 1 / 2\<rceil>) / 100) f"

definition liveSpan :: int where "liveSpan = 5 * 60"

record seriesDTO =
  sr_step :: int
  sr_from :: int
  sr_to :: int
  sr_t :: "int list"
  sr_cols :: "rat option list list"     \<comment> \<open>by column, in the order of \<open>MetricCols\<close>\<close>

text \<open>The loop of \<open>buildSeries\<close> over the rows: the time of the row before, and what was built so far.\<close>

definition add_point :: "int \<Rightarrow> rat option list \<Rightarrow> int list \<times> rat option list list \<Rightarrow> int list \<times> rat option list list" where
  "add_point t vs acc = (fst acc @ [t], map2 (\<lambda>col v. col @ [v]) (snd acc) vs)"

fun series_loop :: "int \<Rightarrow> int option \<Rightarrow> (int \<times> rat list) list \<Rightarrow> int list \<times> rat option list list \<Rightarrow>
    int list \<times> rat option list list" where
  "series_loop step prev [] acc = acc"
| "series_loop step prev ((ts, vs) # rows) acc =
     (let acc = (case prev of
                   None \<Rightarrow> acc
                 | Some p \<Rightarrow> if 0 < step \<and> 2 * step < ts - p
                            then add_point (p + step) (replicate NumMetricCols None) acc else acc)
      in series_loop step (Some ts) rows (add_point ts (map Some vs) acc))"

definition buildSeries :: "(int \<times> rat list) list \<Rightarrow> int \<Rightarrow> int \<Rightarrow> int \<Rightarrow> seriesDTO" where
  "buildSeries rows step from to' =
     (let acc = series_loop step None rows ([], replicate NumMetricCols [])
      in \<lparr>sr_step = step, sr_from = from, sr_to = to', sr_t = fst acc, sr_cols = snd acc\<rparr>)"

definition getMetrics :: "go_time \<Rightarrow> string \<Rightarrow> string \<Rightarrow> seriesDTO reply hub_op" where
  "getMetrics t idStr name = do {
     x \<leftarrow> lookupSystem idStr;
     (case x of
        Inl rep \<Rightarrow> return rep
      | Inr sys \<Rightarrow>
          let now = unix_of t in
          if name = ''live'' then do {
            rows \<leftarrow> liveSeries (sy_id sys);
            return (WriteJSON 200 (buildSeries (filter (\<lambda>r. now - liveSpan \<le> fst r) rows) 0 (now - liveSpan) now))
          }
          else (case ranges name of
                  None \<Rightarrow> return (WriteError 400 ''range must be one of live, 1h, 24h, 7d, 30d, 1y'')
                | Some (res, width) \<Rightarrow> do {
                    let from = now - go_div width second;
                    rows \<leftarrow> db (QueryMetrics (sy_id sys) res from now);
                    (case rows of
                       Inl _ \<Rightarrow> return internalError
                     | Inr rows \<Rightarrow> do {
                         cur \<leftarrow> currentBucket (sy_id sys);
                         let rows = map (\<lambda>r. (mr_ts r, mr_values r)) rows;
                         let rows = (case cur of
                           None \<Rightarrow> rows
                         | Some row \<Rightarrow> if res = Res1 \<and> (rows = [] \<or> fst (last rows) < fst row) then rows @ [row] else rows);
                         return (WriteJSON 200 (buildSeries rows (res * 60) from now))
                       })
                  }))
   }"

section \<open>Columns and points\<close>

lemma jsonFloat_None: "jsonFloat f = None \<longleftrightarrow> f = None"
  by (simp add: jsonFloat_def)

lemma jsonFloat_close: "jsonFloat (Some v) = Some w \<Longrightarrow> \<bar>w - v\<bar> \<le> 1 / 200"
proof -
  assume w: "jsonFloat (Some v) = Some w"
  have "\<bar>w * 100 - v * 100\<bar> \<le> 1 / 2"
  proof (cases "0 \<le> v")
    case True
    with w have "w * 100 = of_int \<lfloor>v * 100 + 1 / 2\<rfloor>" by (auto simp: jsonFloat_def)
    with floor_correct [of "v * 100 + 1 / 2"] show ?thesis by linarith
  next
    case False
    with w have "w * 100 = of_int \<lceil>v * 100 - 1 / 2\<rceil>" by (auto simp: jsonFloat_def)
    with ceiling_correct [of "v * 100 - 1 / 2"] show ?thesis by linarith
  qed
  then show ?thesis by linarith
qed

text \<open>The points that \<open>buildSeries\<close> means to make, as rows: a null point in a gap, then the row.\<close>

fun points :: "int \<Rightarrow> int option \<Rightarrow> (int \<times> rat list) list \<Rightarrow> (int \<times> rat option list) list" where
  "points step prev [] = []"
| "points step prev ((ts, vs) # rows) =
     (case prev of
        None \<Rightarrow> []
      | Some p \<Rightarrow> if 0 < step \<and> 2 * step < ts - p then [(p + step, replicate NumMetricCols None)] else []) @
     (ts, map Some vs) # points step (Some ts) rows"

definition columns :: "nat \<Rightarrow> (int \<times> rat option list) list \<Rightarrow> rat option list list" where
  "columns n ps = map (\<lambda>c. map (\<lambda>p. snd p ! c) ps) [0 ..< n]"

lemma add_point_columns:
  assumes "length vs = n"
  shows "add_point t vs (map fst ps, columns n ps) = (map fst (ps @ [(t, vs)]), columns n (ps @ [(t, vs)]))"
  using assms by (auto simp: add_point_def columns_def intro!: nth_equalityI)

lemma series_loop_points:
  assumes "list_all (\<lambda>r. length (snd r) = NumMetricCols) rows"
  shows "series_loop step prev rows (map fst ps, columns NumMetricCols ps) =
    (map fst (ps @ points step prev rows), columns NumMetricCols (ps @ points step prev rows))"
  using assms
proof (induction rows arbitrary: prev ps)
  case (Cons r rows)
  obtain ts vs where r: "r = (ts, vs)" by fastforce
  let ?gap = "case prev of None \<Rightarrow> [] | Some p \<Rightarrow> if 0 < step \<and> 2 * step < ts - p then [(p + step, replicate NumMetricCols None)] else []"
  have gap: "(case prev of None \<Rightarrow> (map fst ps, columns NumMetricCols ps)
      | Some p \<Rightarrow> if 0 < step \<and> 2 * step < ts - p
          then add_point (p + step) (replicate NumMetricCols None) (map fst ps, columns NumMetricCols ps)
          else (map fst ps, columns NumMetricCols ps)) = (map fst (ps @ ?gap), columns NumMetricCols (ps @ ?gap))"
    by (simp add: add_point_columns split: option.splits)
  have "add_point ts (map Some vs) (map fst (ps @ ?gap), columns NumMetricCols (ps @ ?gap)) =
      (map fst ((ps @ ?gap) @ [(ts, map Some vs)]), columns NumMetricCols ((ps @ ?gap) @ [(ts, map Some vs)]))"
    using Cons.prems r by (intro add_point_columns) simp
  with gap Cons.IH [of "Some ts" "(ps @ ?gap) @ [(ts, map Some vs)]"] Cons.prems show ?case
    by (simp add: r Let_def)
qed simp

lemma buildSeries_points:
  assumes "list_all (\<lambda>r. length (snd r) = NumMetricCols) rows"
  shows "sr_t (buildSeries rows step from to') = map fst (points step None rows)"
    and "sr_cols (buildSeries rows step from to') = columns NumMetricCols (points step None rows)"
  using series_loop_points [OF assms, of step None "[]"]
  by (simp_all add: buildSeries_def columns_def map_replicate_const)

lemma points_sorted:
  assumes "sorted_wrt (<) (map fst rows)" and "\<And>p. prev = Some p \<Longrightarrow> \<forall>r\<in>set rows. p < fst r"
  shows "sorted_wrt (<) (map fst (points step prev rows)) \<and>
    (\<forall>p. prev = Some p \<longrightarrow> (\<forall>x\<in>set (points step prev rows). p < fst x))"
  using assms
proof (induction rows arbitrary: prev)
  case (Cons r rows)
  obtain ts vs where r: "r = (ts, vs)" by fastforce
  have ih: "sorted_wrt (<) (map fst (points step (Some ts) rows))" "\<forall>x\<in>set (points step (Some ts) rows). ts < fst x"
    using Cons.IH [of "Some ts"] Cons.prems(1) r by auto
  show ?case
  proof (cases prev)
    case None
    with ih r show ?thesis by (auto simp: r)
  next
    case (Some p)
    with Cons.prems(2) r have "p < ts" by auto
    with ih Some show ?thesis by (fastforce simp: r)
  qed
qed simp

definition is_row :: "int \<times> rat option list \<Rightarrow> bool" where
  "is_row p = list_all (\<lambda>v. v \<noteq> None) (snd p)"

text \<open>The steps between neighbouring rows that are wide enough for a null point.\<close>

definition gaps :: "int \<Rightarrow> int list \<Rightarrow> (int \<times> int) list" where
  "gaps step ts = filter (\<lambda>(p, t). 0 < step \<and> 2 * step < t - p) (zip ts (tl ts))"

lemma null_is_no_row [simp]: "\<not> is_row (t, replicate NumMetricCols None)"
  by (simp add: is_row_def NumMetricCols_def MetricCols_def)

lemma row_is_row [simp]: "is_row (t, map Some vs)"
  by (simp add: is_row_def list_all_iff)

lemma points_rows: "filter is_row (points step prev rows) = map (map_prod id (map Some)) rows"
proof (induction rows arbitrary: prev)
  case (Cons r rows)
  then show ?case by (cases r) (simp split: option.splits)
qed simp

lemma points_nulls:
  "map fst (filter (\<lambda>p. \<not> is_row p) (points step prev rows)) =
    map (\<lambda>(p, t). p + step) (gaps step ((case prev of None \<Rightarrow> [] | Some p \<Rightarrow> [p]) @ map fst rows))"
proof (induction rows arbitrary: prev)
  case (Cons r rows)
  then show ?case by (cases r) (simp add: gaps_def split: option.splits)
qed (simp add: gaps_def split: option.splits)

text \<open>The points of a series, read back across its columns.\<close>

definition series_points :: "seriesDTO \<Rightarrow> (int \<times> rat option list) list" where
  "series_points d = map (\<lambda>k. (sr_t d ! k, map (\<lambda>col. col ! k) (sr_cols d))) [0 ..< length (sr_t d)]"

lemma points_width:
  "p \<in> set (points step prev rs) \<Longrightarrow> list_all (\<lambda>r. length (snd r) = NumMetricCols) rs \<Longrightarrow> length (snd p) = NumMetricCols"
proof (induction rs arbitrary: prev)
  case (Cons r rs)
  then show ?case by (cases r) (auto split: option.splits if_splits)
qed simp

lemma series_points_points:
  assumes "list_all (\<lambda>r. length (snd r) = NumMetricCols) rows"
  shows "series_points (buildSeries rows step from to') = points step None rows"
proof (rule nth_equalityI)
  let ?d = "buildSeries rows step from to'" and ?ps = "points step None rows"
  fix k assume "k < length (series_points ?d)"
  then have k: "k < length ?ps" by (simp add: series_points_def buildSeries_points [OF assms])
  have "map (\<lambda>col. col ! k) (sr_cols ?d) = snd (?ps ! k)"
    using k points_width [of "?ps ! k" step None rows] assms
    by (auto simp: buildSeries_points [OF assms] columns_def intro!: nth_equalityI)
  with k show "series_points ?d ! k = ?ps ! k" by (simp add: series_points_def buildSeries_points [OF assms])
qed (simp add: series_points_def buildSeries_points [OF assms])

text \<open>
  Charts: the columns of a series all have one value per point in time. Of the points, those
  with values are exactly the rows, in order, and there is one null point, a step after the row
  before it, for each pair of neighbouring rows more than two steps apart. When the rows are in
  order of time so are the points, null points included.
\<close>

theorem series_faithful:
  assumes "list_all (\<lambda>r. length (snd r) = NumMetricCols) rows" and "d = buildSeries rows step from to'"
  shows "length (sr_cols d) = NumMetricCols \<and> list_all (\<lambda>col. length col = length (sr_t d)) (sr_cols d) \<and>
    filter is_row (series_points d) = map (map_prod id (map Some)) rows \<and>
    map fst (filter (\<lambda>p. \<not> is_row p) (series_points d)) = map (\<lambda>(p, t). p + step) (gaps step (map fst rows)) \<and>
    (sorted_wrt (<) (map fst rows) \<longrightarrow> sorted_wrt (<) (sr_t d))"
  using points_sorted [of rows None step]
  by (simp add: assms(2) series_points_points [OF assms(1)] buildSeries_points [OF assms(1)]
      points_rows points_nulls columns_def list_all_iff)

definition demo_rows :: "(int \<times> rat list) list" where
  "demo_rows = map (\<lambda>t. (t, replicate NumMetricCols 1)) [0, 60, 240, 300]"

theorem series_faithful_witness:
  "map fst (filter (\<lambda>p. \<not> is_row p) (series_points (buildSeries demo_rows 60 0 300))) = [120] \<and>
   filter is_row (series_points (buildSeries demo_rows 60 0 300)) = map (map_prod id (map Some)) demo_rows \<and>
   sorted_wrt (<) (sr_t (buildSeries demo_rows 60 0 300))"
  using series_faithful [of demo_rows "buildSeries demo_rows 60 0 300" 60 0 300]
  by (simp add: demo_rows_def gaps_def)

text \<open>The two buckets missing here already break the line; the comment says more than two do.\<close>

lemma two_missing_buckets_break:
  "sr_t (buildSeries [(0, replicate NumMetricCols 1), (180, replicate NumMetricCols 1)] 60 0 180) = [0, 60, 180]"
  by (simp add: buildSeries_points)

section \<open>What the handler answers\<close>

lemma sorted_metric_rows:
  assumes "distinct (map metric_key ms)"
  shows "sorted_wrt (<) (map mr_ts (sort_key mr_ts (filter (\<lambda>m. mr_system m = i \<and> mr_res m = res \<and> P m) ms)))"
proof -
  let ?rows = "filter (\<lambda>m. mr_system m = i \<and> mr_res m = res \<and> P m) ms"
  have "distinct (map mr_ts ?rows)"
    using assms by (auto simp: distinct_map inj_on_def metric_key_def)
  then have "distinct (map mr_ts (sort_key mr_ts ?rows))" by (simp add: distinct_map)
  then show ?thesis by (simp add: strict_sorted_iff)
qed

text \<open>A range of history that is found is answered in order of time, and asking changes nothing.\<close>

lemma buildSeries_in_order:
  assumes "list_all (\<lambda>r. length (snd r) = NumMetricCols) rows" and "sorted_wrt (<) (map fst rows)"
  shows "sorted_wrt (<) (sr_t (buildSeries rows step from to'))"
  using points_sorted [of rows None step] assms by (simp add: buildSeries_points)

lemma sorted_wrt_snoc:
  "sorted_wrt (<) (map fst rows) \<Longrightarrow> rows = [] \<or> fst (last rows) < t \<Longrightarrow> sorted_wrt (<) (map fst rows @ [t :: int])"
  by (cases rows rule: rev_cases) (auto simp: sorted_wrt_append)

lemma getMetrics_in_order:
  assumes "st_faults (hb_store h) = []" and "distinct (map metric_key (st_metrics (hb_store h)))"
    and width: "list_all (\<lambda>m. length (mr_values m) = NumMetricCols) (st_metrics (hb_store h))"
    and cur: "\<And>i st. hb_states h i = Some st \<Longrightarrow> length (averages st) = NumMetricCols"
    and "run_state (db (System i)) h = (Inr sys, h)" and "ParseInt idStr = (i, False)"
    and "ranges name = Some (res, width)"
  shows "\<exists>d. run_state (getMetrics t idStr name) h = (WriteJSON 200 d, h) \<and> sorted_wrt (<) (sr_t d)"
proof -
  define now where "now = unix_of t"
  define start where "start = now - go_div width second"
  define ms where "ms = sort_key mr_ts (filter (\<lambda>m. mr_system m = sy_id sys \<and> mr_res m = res \<and> start \<le> mr_ts m \<and> mr_ts m \<le> now) (st_metrics (hb_store h)))"
  define rows where "rows = map (\<lambda>r. (mr_ts r, mr_values r)) ms"
  define rows' where "rows' = (case fst (run_state (currentBucket (sy_id sys)) h) of None \<Rightarrow> rows
    | Some row \<Rightarrow> if res = Res1 \<and> (rows = [] \<or> fst (last rows) < fst row) then rows @ [row] else rows)"
  have "name \<noteq> ''live''" using assms(7) by (auto simp: ranges_def)
  moreover have "QueryMetrics (sy_id sys) res start now (hb_store h) = (Inr ms, hb_store h)"
    using assms(1) by (simp add: QueryMetrics_def ms_def query_tick)
  ultimately have run: "run_state (getMetrics t idStr name) h = (WriteJSON 200 (buildSeries rows' (res * 60) start now), h)"
    using assms(5-7) by (simp add: getMetrics_def lookupSystem_def Let_def now_def [symmetric] start_def [symmetric]
      rows_def currentBucket_def rows'_def case_prod_beta cong: option.case_cong if_cong)
  have "list_all (\<lambda>r. length (snd r) = NumMetricCols) rows" "sorted_wrt (<) (map fst rows)"
    using width sorted_metric_rows [OF assms(2)] by (auto simp: rows_def ms_def list_all_iff comp_def)
  then have "list_all (\<lambda>r. length (snd r) = NumMetricCols) rows' \<and> sorted_wrt (<) (map fst rows')"
    using cur by (auto simp: rows'_def currentBucket_def intro!: sorted_wrt_snoc split: option.splits)
  with run buildSeries_in_order show ?thesis by blast
qed

end
