(* ===== verification/Paths.thy ===== *)
theory Paths
  imports Prelude
begin

text \<open>
  Paths on the machine of an agent: what \<open>hub/files.go\<close> uses of Go's package \<open>path\<close>, and
  \<open>remotePath\<close>, which cleans a path from the browser. \<open>Clean\<close> is the loop of the library over
  the bytes of the path with its output buffer; it is proved equal to resolving the
  components of the path one by one.
\<close>

abbreviation slash :: char where "slash \<equiv> CHR ''/''"

section \<open>The package path\<close>

text \<open>\<open>out.w--\<close> down to the last slash of the buffer, not below \<open>dotdot\<close>.\<close>

fun backup :: "nat \<Rightarrow> string \<Rightarrow> nat \<Rightarrow> nat" where
  "backup dotdot out 0 = 0"
| "backup dotdot out (Suc w) = (if dotdot < Suc w \<and> out ! Suc w \<noteq> slash then backup dotdot out w else Suc w)"

text \<open>The loop of \<open>Clean\<close>: the rest of the path and the buffer written so far.\<close>

function clean_loop :: "bool \<Rightarrow> nat \<Rightarrow> string \<Rightarrow> string \<Rightarrow> string" where
  "clean_loop rooted dotdot [] out = out"
| "clean_loop rooted dotdot (c # r) out =
     (if c = slash then clean_loop rooted dotdot r out
      else if c = CHR ''.'' \<and> (r = [] \<or> hd r = slash) then clean_loop rooted dotdot r out
      else if c = CHR ''.'' \<and> r \<noteq> [] \<and> hd r = CHR ''.'' \<and> (tl r = [] \<or> hd (tl r) = slash) then
        (if dotdot < length out
         then clean_loop rooted dotdot (tl r) (take (backup dotdot out (length out - 1)) out)
         else if \<not> rooted then
           let out = (if 0 < length out then out @ [slash] else out) @ ''..''
           in clean_loop rooted (length out) (tl r) out
         else clean_loop rooted dotdot (tl r) out)
      else
        let out = (if rooted \<and> length out \<noteq> 1 \<or> \<not> rooted \<and> length out \<noteq> 0 then out @ [slash] else out)
        in clean_loop rooted dotdot (dropWhile (\<lambda>c. c \<noteq> slash) (c # r)) (out @ takeWhile (\<lambda>c. c \<noteq> slash) (c # r)))"
  by pat_completeness auto
termination
  by (relation "measure (\<lambda>(_, _, s, _). length s)")
    (auto simp: less_Suc_eq_le length_dropWhile_le intro: le_trans [OF diff_le_self])

definition Clean :: "string \<Rightarrow> string" where
  "Clean p =
     (if p = [] then ''.''
      else let out = (if hd p = slash then clean_loop True 1 (tl p) [slash] else clean_loop False 0 p [])
           in if out = [] then ''.'' else out)"

text \<open>\<open>path.Join\<close> of two elements, and the parts before and after the last slash.\<close>

definition path_join :: "string \<Rightarrow> string \<Rightarrow> string" where
  "path_join a b =
     (if a = [] \<and> b = [] then [] else if a = [] then Clean b else if b = [] then Clean a else Clean (a @ [slash] @ b))"

definition path_dir :: "string \<Rightarrow> string" where
  "path_dir p = Clean (rev (dropWhile (\<lambda>c. c \<noteq> slash) (rev p)))"

definition path_base :: "string \<Rightarrow> string" where
  "path_base p =
     (if p = [] then ''.''
      else let p = rev (dropWhile (\<lambda>c. c = slash) (rev p));
               b = rev (takeWhile (\<lambda>c. c \<noteq> slash) (rev p))
           in if b = [] then [slash] else b)"

section \<open>Paths from the browser\<close>

definition remotePath :: "string \<Rightarrow> string option" where
  "remotePath p =
     (if p = [] \<or> CHR 0x00 \<in> set p then None
      else Some (Clean (slash # ReplaceAll p (CHR 0x5C) [slash])))"

section \<open>Resolving components\<close>

text \<open>Walking down from the root: the components so far, the last one first.\<close>

fun resolve :: "string list \<Rightarrow> string list \<Rightarrow> string list" where
  "resolve [] st = st"
| "resolve (e # es) st =
     resolve es (if e = [] \<or> e = ''.'' then st else if e = ''..'' then tl st else e # st)"

definition render :: "string list \<Rightarrow> string" where
  "render st = slash # Join (rev st) [slash]"

definition component :: "string \<Rightarrow> bool" where
  "component e \<longleftrightarrow> e \<noteq> [] \<and> e \<noteq> ''.'' \<and> e \<noteq> ''..'' \<and> slash \<notin> set e"

lemma Split_span:
  "Split sep s = takeWhile (\<lambda>c. c \<noteq> sep) s # (case dropWhile (\<lambda>c. c \<noteq> sep) s of [] \<Rightarrow> [] | _ # r \<Rightarrow> Split sep r)"
  by (induction s) (auto split: list.splits)

text \<open>A slash before the rest of a path changes nothing.\<close>

lemma resolve_rest:
  assumes "e = takeWhile (\<lambda>c. c \<noteq> slash) s" and "r = dropWhile (\<lambda>c. c \<noteq> slash) s"
  shows "resolve (Split slash s) st =
    resolve (Split slash r) (if e = [] \<or> e = ''.'' then st else if e = ''..'' then tl st else e # st)"
proof (cases r)
  case Nil
  with assms show ?thesis by (simp add: Split_span [of _ s])
next
  case (Cons c r')
  moreover have "c = slash" using assms(2) Cons by (metis (full_types) hd_dropWhile list.distinct(1) list.sel(1))
  ultimately show ?thesis using assms by (simp add: Split_span [of _ s])
qed

lemma Join_snoc: "Join (es @ [e]) sep = (if es = [] then e else Join es sep @ sep @ e)"
  by (induction es sep rule: Join.induct) auto

lemma render_Cons: "render (e # st) = (if st = [] then slash # e else render st @ [slash] @ e)"
  by (simp add: render_def Join_snoc)

lemma render_length: "list_all component st \<Longrightarrow> length (render st) = 1 \<longleftrightarrow> st = []"
  by (cases st) (auto simp: render_Cons component_def, simp add: render_def)

lemma backup_component:
  assumes "slash \<notin> set e" and "w < length e" and "dotdot \<le> length out"
  shows "backup dotdot (out @ slash # e) (length out + Suc w) = (length out)"
proof -
  have "w < length e \<Longrightarrow> backup dotdot (out @ slash # e) (length out + Suc w) = length out" for w
  proof (induction w)
    case 0
    then have "e ! 0 \<noteq> slash" using assms(1) nth_mem by metis
    moreover have "backup dotdot (out @ slash # e) (length out) = length out"
      by (cases "length out") (auto simp: nth_append)
    ultimately show ?case using assms(3) 0 by (simp add: nth_append)
  next
    case (Suc w)
    then have "e ! Suc w \<noteq> slash" using assms(1) nth_mem by metis
    with Suc assms(3) show ?case by (simp add: nth_append)
  qed
  with assms(2) show ?thesis by simp
qed

lemma backup_first:
  assumes "slash \<notin> set e" and "w < length e"
  shows "backup 1 (slash # e) (Suc w) = 1"
  using assms(2)
proof (induction w)
  case (Suc w)
  then have "e ! Suc w \<noteq> slash" using assms(1) nth_mem by metis
  with Suc show ?case by simp
qed simp

lemma take_backup:
  assumes "list_all component (e # st)"
  shows "take (backup 1 (render (e # st)) (length (render (e # st)) - 1)) (render (e # st)) = render st"
proof (cases "st = []")
  case True
  moreover obtain w where "length e = Suc w" using assms by (cases e) (auto simp: component_def)
  ultimately show ?thesis using assms backup_first [of e w] by (simp add: render_Cons component_def, simp add: render_def)
next
  case False
  moreover obtain w where "length e = Suc w" using assms by (cases e) (auto simp: component_def)
  moreover have "1 \<le> length (render st)" by (simp add: render_def)
  ultimately show ?thesis using assms backup_component [of e w 1 "render st"] by (simp add: render_Cons component_def)
qed

lemma takeWhile_dot: "takeWhile (\<lambda>c. c \<noteq> slash) (CHR ''.'' # r) = ''.'' \<longleftrightarrow> r = [] \<or> hd r = slash"
  by (cases r) auto

lemma takeWhile_dotdot:
  "takeWhile (\<lambda>c. c \<noteq> slash) (c # r) = ''..'' \<longleftrightarrow>
     c = CHR ''.'' \<and> r \<noteq> [] \<and> hd r = CHR ''.'' \<and> (tl r = [] \<or> hd (tl r) = slash)"
  by (cases r; cases "tl r") auto

lemma clean_loop_resolve:
  "list_all component st \<Longrightarrow> clean_loop True 1 s (render st) = render (resolve (Split slash s) st) \<and>
     list_all component (resolve (Split slash s) st)"
proof (induction "length s" arbitrary: s st rule: less_induct)
  case less
  show ?case
  proof (cases s)
    case Nil
    with less.prems show ?thesis by simp
  next
    case (Cons c r)
    define e where "e = takeWhile (\<lambda>c. c \<noteq> slash) s"
    define rest where "rest = dropWhile (\<lambda>c. c \<noteq> slash) s"
    note rr = resolve_rest [OF e_def rest_def, of st]
    consider (empty) "c = slash" | (dot) "c \<noteq> slash" "e = ''.''" | (dotdot) "c \<noteq> slash" "e = ''..''"
      | (name) "c \<noteq> slash" "e \<noteq> ''.''" "e \<noteq> ''..''" by blast
    then show ?thesis
    proof cases
      case empty
      with less Cons show ?thesis by simp
    next
      case dot
      then have r: "r = [] \<or> hd r = slash" "c = CHR ''.''" "rest = r"
        using Cons takeWhile_dot [of r] by (cases r; auto simp: e_def rest_def split: if_splits)+
      with less.hyps [of r st] less.prems rr dot Cons show ?thesis by simp
    next
      case dotdot
      then have r: "c = CHR ''.''" "r \<noteq> []" "hd r = CHR ''.''" "tl r = [] \<or> hd (tl r) = slash"
        using Cons takeWhile_dotdot [of c r] by (auto simp: e_def)
      then have rest: "rest = tl r" using Cons by (cases r; cases "tl r") (auto simp: rest_def)
      have len: "length (tl r) < length s" using Cons by simp
      show ?thesis
      proof (cases st)
        case Nil
        with less.hyps [OF len, of st] less.prems rr dotdot r rest Cons show ?thesis by (auto simp: render_def)
      next
        case (Cons e' st')
        then have "1 < length (render st)" using render_length [OF less.prems] by (cases "length (render st)") (auto simp: render_def)
        then have "clean_loop True 1 s (render st) = clean_loop True 1 (tl r) (render st')"
          using r \<open>s = c # r\<close> take_backup [of e' st'] less.prems Cons by auto
        with less.hyps [OF len, of st'] less.prems rr dotdot rest Cons show ?thesis by simp
      qed
    next
      case name
      then have e: "e \<noteq> []" "component e" using Cons by (auto simp: e_def component_def dest: set_takeWhileD)
      have "\<not> (c = CHR ''.'' \<and> (r = [] \<or> hd r = slash))" using name Cons takeWhile_dot [of r] by (auto simp: e_def)
      moreover have "\<not> (c = CHR ''.'' \<and> r \<noteq> [] \<and> hd r = CHR ''.'' \<and> (tl r = [] \<or> hd (tl r) = slash))"
        using name Cons takeWhile_dotdot [of c r] by (auto simp: e_def)
      ultimately have "clean_loop True 1 s (render st) = clean_loop True 1 rest (render (e # st))"
        using name(1) Cons render_length [OF less.prems] by (auto simp: render_Cons e_def rest_def, simp_all add: render_def)
      moreover have "length rest < length s" using Cons name(1) length_dropWhile_le [of _ r] by (simp add: rest_def less_Suc_eq_le)
      ultimately show ?thesis using less.hyps [of rest "e # st"] less.prems rr e name by simp
    qed
  qed
qed

lemma Clean_rooted: "Clean (slash # p) = render (resolve (Split slash p) [])"
  using clean_loop_resolve [of "[]" p] by (simp add: Clean_def render_def)

lemma resolved_components: "list_all component (resolve (Split slash p) [])"
  using clean_loop_resolve [of "[]" p] by simp

lemma resolve_components:
  "list_all component es \<Longrightarrow> resolve es st = rev es @ st"
  by (induction es arbitrary: st) (auto simp: component_def)

lemma Split_word: "sep \<notin> set w \<Longrightarrow> Split sep w = [w]"
  by (induction w) auto

lemma Split_word_append: "sep \<notin> set w \<Longrightarrow> Split sep (w @ sep # r) = w # Split sep r"
  by (induction w) auto

lemma Split_Join: "es \<noteq> [] \<Longrightarrow> list_all (\<lambda>e. sep \<notin> set e) es \<Longrightarrow> Split sep (Join es [sep]) = es"
  by (induction es "[sep]" rule: Join.induct) (auto simp: Split_word Split_word_append)

lemma Clean_render:
  assumes "list_all component st"
  shows "Clean (render st) = render st"
proof (cases st)
  case Nil
  then show ?thesis by (simp add: render_def Clean_def)
next
  case (Cons e st')
  have "list_all (\<lambda>e. slash \<notin> set e) (rev st)" using assms by (auto simp: list_all_iff component_def)
  with Cons have "Split slash (Join (rev st) [slash]) = rev st" by (intro Split_Join) auto
  with assms show ?thesis using Clean_rooted [of "Join (rev st) [slash]"] resolve_components [of "rev st" "[]"]
    by (simp add: render_def list_all_iff)
qed

text \<open>
  (C38) Paths from the browser: what \<open>remotePath\<close> returns is the absolute path that walking
  the components from the root leads to, where going up from the root stays there. It has no empty
  component and no \<open>.\<close> or \<open>..\<close>, so it is the root only if the walk ends there, and cleaning it
  again changes nothing. Only an empty path or one with a zero byte is refused.
\<close>

theorem remote_path_resolves:
  "let es = rev (resolve (Split slash (ReplaceAll p (CHR 0x5C) [slash])) []); q = slash # Join es [slash] in
    remotePath p = (if p = [] \<or> CHR 0x00 \<in> set p then None else Some q) \<and>
    list_all component es \<and> (q = [slash] \<longleftrightarrow> es = []) \<and> Clean q = q"
proof -
  define es where "es = rev (resolve (Split slash (ReplaceAll p (CHR 0x5C) [slash])) [])"
  have ok: "list_all component es" using resolved_components by (simp add: es_def list_all_iff)
  have q: "render (rev es) = slash # Join es [slash]" by (simp add: render_def)
  with ok Clean_render [of "rev es"] have "Clean (slash # Join es [slash]) = slash # Join es [slash]" by (simp add: list_all_iff)
  moreover have "(slash # Join es [slash] = [slash]) \<longleftrightarrow> es = []"
    using ok by (cases es; cases "tl es") (auto simp: component_def)
  moreover have "remotePath p = (if p = [] \<or> CHR 0x00 \<in> set p then None else Some (slash # Join es [slash]))"
    by (simp add: remotePath_def Clean_rooted es_def render_def)
  ultimately show ?thesis using ok unfolding Let_def es_def by blast
qed

end
