(* ===== verification/Install.thy ===== *)
theory Install
  imports SelfUpdate Paths
begin

text \<open>
  Installing agents (\<open>hub/install.go\<close> and \<open>version/version.go\<close>): the binaries the hub serves and the
  commands it prints, quoted for the POSIX shell and for PowerShell. Both shells are read by
  the quoting rules of their documentation.
\<close>

section \<open>Serving binaries\<close>

definition ReleaseAssetURL :: "string \<Rightarrow> string \<Rightarrow> string" where
  "ReleaseAssetURL v file =
     (if v = [] \<or> v = ''dev'' \<or> \<not> ContainsAny (take 1 v) ''0123456789'' then []
      else ''https://github.com/Jackolix/Lotse/releases/download/v'' @ v @ ''/'' @ file)"

text \<open>The submatches of \<open>agentFileRE\<close>: operating system, architecture and extension.\<close>

definition agentFileRE :: "string \<Rightarrow> (string \<times> string \<times> string) option" where
  "agentFileRE name =
     List.find (\<lambda>(os, arch, ext). name = ''lotse-agent-'' @ os @ ''-'' @ arch @ ext)
       [(os, arch, ext). os \<leftarrow> [''linux'', ''darwin'', ''windows''], arch \<leftarrow> [''amd64'', ''arm64''], ext \<leftarrow> [[], ''.exe'']]"

text \<open>
  The answer of \<open>getAgentBinary\<close>: the bytes of a file as they are, marked as compressed or not,
  the unpacked bytes, a redirect, or an error. The directory is read through \<open>dir_files\<close>.
\<close>

datatype binary_reply =
    ServeGzip string
  | ServeBytes string
  | RedirectTo string
  | BinaryError int string

definition getAgentBinary :: "agent_dir \<Rightarrow> string \<Rightarrow> string \<Rightarrow> string \<Rightarrow> binary_reply" where
  "getAgentBinary d v acceptEncoding name =
     (case agentFileRE name of
        None \<Rightarrow> BinaryError 404 ''unknown agent binary''
      | Some (os, arch, ext) \<Rightarrow>
          if (os = ''windows'') \<noteq> (ext = ''.exe'') then BinaryError 404 ''unknown agent binary''
          else (case dir_files d (name @ ''.gz'') of
                  Some z \<Rightarrow>
                    if Contains acceptEncoding ''gzip'' then ServeGzip z
                    else (case gunzip d z of None \<Rightarrow> BinaryError 500 ''internal error'' | Some b \<Rightarrow> ServeBytes b)
                | None \<Rightarrow>
                    (case dir_files d name of
                       Some b \<Rightarrow> ServeBytes b
                     | None \<Rightarrow>
                         if ReleaseAssetURL v name \<noteq> [] then RedirectTo (ReleaseAssetURL v name)
                         else BinaryError 404 (''this hub build has no agent for '' @ os @ ''/'' @ arch))))"

section \<open>Install commands\<close>

abbreviation quote :: char where "quote \<equiv> CHR 0x27"
abbreviation backslash :: char where "backslash \<equiv> CHR 0x5C"

definition sh_quote :: "string \<Rightarrow> string" where
  "sh_quote s = [quote] @ ReplaceAll s quote [quote, backslash, quote, quote] @ [quote]"

definition ps_quote :: "string \<Rightarrow> string" where
  "ps_quote s = [quote] @ ReplaceAll s quote [quote, quote] @ [quote]"

definition InstallCommands :: "string \<Rightarrow> string \<Rightarrow> string \<Rightarrow> bool \<Rightarrow> (string \<times> string) list" where
  "InstallCommands hubURL hubKey token allowShell =
     (let unix = ''curl -fsSL '' @ sh_quote (hubURL @ ''/install.sh'') @ '' | sudo sh -s -- --hub '' @ sh_quote hubURL @
            '' --key '' @ sh_quote hubKey @ '' --token '' @ sh_quote token @ (if allowShell then '' --allow-shell'' else []);
          win = ''& ([scriptblock]::Create((irm '' @ ps_quote (hubURL @ ''/install.ps1'') @ ''))) -Hub '' @ ps_quote hubURL @
            '' -Key '' @ ps_quote hubKey @ '' -Token '' @ ps_quote token @ (if allowShell then '' -AllowShell'' else [])
      in [(''linux'', unix), (''darwin'', unix), (''windows'', win)])"

section \<open>What the shells read\<close>

text \<open>
  The POSIX shell's tokens: a quoted string is taken literally up to the closing quote, a
  backslash outside quotes takes the next character literally, blanks end a word. Characters
  with another meaning to the shell are outside this reader, which then gives no result.
\<close>

datatype sh_token = ShWord string | ShPipe

definition sh_plain :: "char \<Rightarrow> bool" where
  "sh_plain c \<longleftrightarrow> c \<in> set ''abcdefghijklmnopqrstuvwxyzABCDEFGHIJKLMNOPQRSTUVWXYZ0123456789-_./:''"

definition end_word :: "string option \<Rightarrow> sh_token list" where
  "end_word w = (case w of None \<Rightarrow> [] | Some w \<Rightarrow> [ShWord w])"

fun sh_lex :: "bool \<Rightarrow> string option \<Rightarrow> string \<Rightarrow> sh_token list option" where
  "sh_lex True w [] = None"
| "sh_lex False w [] = Some (end_word w)"
| "sh_lex True w (c # s) =
     (if c = quote then sh_lex False w s else sh_lex True (Some ((case w of None \<Rightarrow> [] | Some w \<Rightarrow> w) @ [c])) s)"
| "sh_lex False w (c # s) =
     (if c = CHR '' '' then map_option (\<lambda>ts. end_word w @ ts) (sh_lex False None s)
      else if c = CHR ''|'' then map_option (\<lambda>ts. end_word w @ ShPipe # ts) (sh_lex False None s)
      else if c = quote then sh_lex True (Some (case w of None \<Rightarrow> [] | Some w \<Rightarrow> w)) s
      else if c = backslash then
        (case s of
           [] \<Rightarrow> None
         | d # s \<Rightarrow> if d = CHR 0x0A then None else sh_lex False (Some ((case w of None \<Rightarrow> [] | Some w \<Rightarrow> w) @ [d])) s)
      else if sh_plain c then sh_lex False (Some ((case w of None \<Rightarrow> [] | Some w \<Rightarrow> w) @ [c])) s
      else None)"

text \<open>
  A PowerShell string in single quotes, after the opening one: its value and the rest of the
  line. A doubled quote stands for one. PowerShell takes the four typographic single quotes, in
  UTF-8 the bytes E2 80 98 to E2 80 9B, for quotes too.
\<close>

definition ps_quotes :: "string list" where
  "ps_quotes = [[quote], [CHR 0xE2, CHR 0x80, CHR 0x98], [CHR 0xE2, CHR 0x80, CHR 0x99],
     [CHR 0xE2, CHR 0x80, CHR 0x9A], [CHR 0xE2, CHR 0x80, CHR 0x9B]]"

definition ps_quote_at :: "string \<Rightarrow> string option" where
  "ps_quote_at s = List.find (HasPrefix s) ps_quotes"

function ps_string :: "string \<Rightarrow> (string \<times> string) option" where
  "ps_string s =
     (if s = [] then None
      else (case ps_quote_at s of
              None \<Rightarrow> map_option (\<lambda>(v, r). (hd s # v, r)) (ps_string (tl s))
            | Some q \<Rightarrow>
                let s = drop (length q) s in
                (case ps_quote_at s of
                   None \<Rightarrow> Some ([], s)
                 | Some q' \<Rightarrow> map_option (\<lambda>(v, r). (q' @ v, r)) (ps_string (drop (length q') s)))))"
  by pat_completeness auto
termination
  by (relation "measure length")
    (auto simp: ps_quote_at_def ps_quotes_def find_Some_iff less_Suc_eq split: if_splits)

declare ps_string.simps [simp del]

section \<open>Commands survive quoting\<close>

lemma ReplaceAll_simps [simp]:
  "ReplaceAll [] old new = []"
  "ReplaceAll (c # s) old new = (if c = old then new else [c]) @ ReplaceAll s old new"
  by (simp_all add: ReplaceAll_def)

lemma sh_lex_quoted:
  "sh_lex True (Some w) (ReplaceAll s quote [quote, backslash, quote, quote] @ quote # r) = sh_lex False (Some (w @ s)) r"
  by (induction s arbitrary: w) auto

lemma sh_lex_quote [simp]: "sh_lex False None (sh_quote s @ r) = sh_lex False (Some s) r"
  using sh_lex_quoted [of "[]" s r] by (simp add: sh_quote_def)

text \<open>Plain words, by which the fixed parts of the command are read.\<close>

lemma sh_plain_other: "sh_plain c \<Longrightarrow> c \<noteq> CHR '' '' \<and> c \<noteq> CHR ''|'' \<and> c \<noteq> quote \<and> c \<noteq> backslash"
  by (rule ccontr) (auto simp: sh_plain_def)

lemma sh_lex_plain:
  "list_all sh_plain s \<Longrightarrow> sh_lex False (Some w) (s @ r) = sh_lex False (Some (w @ s)) r"
  by (induction s arbitrary: w) (auto dest: sh_plain_other)

lemma sh_lex_word:
  assumes "list_all sh_plain s" and "s \<noteq> []"
  shows "sh_lex False None (s @ CHR '' '' # r) = map_option (\<lambda>ts. ShWord s # ts) (sh_lex False None r)"
proof -
  obtain c s' where "s = c # s'" using assms(2) by (cases s) auto
  with assms(1) sh_lex_plain [of s' "[c]" "CHR '' '' # r"] show ?thesis by (cases "sh_lex False None r") (auto simp: end_word_def dest: sh_plain_other)
qed

lemma sh_lex_last:
  assumes "list_all sh_plain s" and "s \<noteq> []"
  shows "sh_lex False None s = Some [ShWord s]"
proof -
  obtain c s' where "s = c # s'" using assms(2) by (cases s) auto
  with assms(1) sh_lex_plain [of s' "[c]" "[]"] show ?thesis by (auto simp: end_word_def dest: sh_plain_other)
qed

lemma sh_lex_blank: "sh_lex False (Some w) (CHR '' '' # r) = map_option (\<lambda>ts. ShWord w # ts) (sh_lex False None r)"
  by (cases "sh_lex False None r") (simp_all add: end_word_def)

lemma sh_lex_pipe: "sh_lex False None (CHR ''|'' # CHR '' '' # r) = map_option (\<lambda>ts. ShPipe # ts) (sh_lex False None r)"
  by (cases "sh_lex False None r") (simp_all add: end_word_def)

lemma plain_words:
  "list_all sh_plain ''curl''" "list_all sh_plain ''-fsSL''" "list_all sh_plain ''sudo''" "list_all sh_plain ''sh''"
  "list_all sh_plain ''-s''" "list_all sh_plain ''--''" "list_all sh_plain ''--hub''" "list_all sh_plain ''--key''"
  "list_all sh_plain ''--token''" "list_all sh_plain ''--allow-shell''"
  by (simp_all add: sh_plain_def)

definition unix_words :: "string \<Rightarrow> string \<Rightarrow> string \<Rightarrow> bool \<Rightarrow> sh_token list" where
  "unix_words hubURL hubKey token allowShell =
     [ShWord ''curl'', ShWord ''-fsSL'', ShWord (hubURL @ ''/install.sh''), ShPipe, ShWord ''sudo'', ShWord ''sh'', ShWord ''-s'',
      ShWord ''--'', ShWord ''--hub'', ShWord hubURL, ShWord ''--key'', ShWord hubKey, ShWord ''--token'', ShWord token] @
     (if allowShell then [ShWord ''--allow-shell''] else [])"

lemma unix_command:
  "the (map_of (InstallCommands hubURL hubKey token allowShell) ''linux'') =
     ''curl'' @ CHR '' '' # ''-fsSL'' @ CHR '' '' # sh_quote (hubURL @ ''/install.sh'') @ CHR '' '' # CHR ''|'' # CHR '' '' # ''sudo'' @ CHR '' '' #
     ''sh'' @ CHR '' '' # ''-s'' @ CHR '' '' # ''--'' @ CHR '' '' # ''--hub'' @ CHR '' '' # sh_quote hubURL @ CHR '' '' # ''--key'' @ CHR '' '' #
     sh_quote hubKey @ CHR '' '' # ''--token'' @ CHR '' '' # sh_quote token @ (if allowShell then CHR '' '' # ''--allow-shell'' else [])"
  by (simp add: InstallCommands_def Let_def)

text \<open>
  (C39) Install commands: whatever hub address, key and token are filled in, quotes, blanks and
  other characters with a meaning to the shell included, the command for Linux and macOS reads
  as the intended words and nothing else.
\<close>

theorem install_command_words:
  "map_of (InstallCommands hubURL hubKey token allowShell) ''linux'' = map_of (InstallCommands hubURL hubKey token allowShell) ''darwin'' \<and>
   sh_lex False None (the (map_of (InstallCommands hubURL hubKey token allowShell) ''linux'')) =
     Some (unix_words hubURL hubKey token allowShell)"
proof
  show "map_of (InstallCommands hubURL hubKey token allowShell) ''linux'' = map_of (InstallCommands hubURL hubKey token allowShell) ''darwin''"
    by (simp add: InstallCommands_def Let_def)
  have "sh_lex False (Some token) (if allowShell then CHR '' '' # ''--allow-shell'' else []) =
      Some (ShWord token # (if allowShell then [ShWord ''--allow-shell''] else []))"
  proof (cases allowShell)
    case True
    then show ?thesis by (simp only: if_True sh_lex_blank sh_lex_last [OF plain_words(10)] list.distinct not_False_eq_True option.map)
  qed (simp add: end_word_def)
  then show "sh_lex False None (the (map_of (InstallCommands hubURL hubKey token allowShell) ''linux'')) =
     Some (unix_words hubURL hubKey token allowShell)"
    unfolding unix_command
    by (simp only: sh_lex_word sh_lex_quote sh_lex_blank sh_lex_pipe plain_words list.distinct simp_thms option.map)
      (simp add: unix_words_def)
qed

section \<open>PowerShell\<close>

lemma ps_quote_at_simps:
  "ps_quote_at [] = None" "ps_quote_at (quote # s) = Some [quote]"
  "c \<noteq> quote \<Longrightarrow> CHR 0xE2 \<noteq> c \<Longrightarrow> ps_quote_at (c # s) = None"
  by (auto simp: ps_quote_at_def ps_quotes_def HasPrefix_def)

lemma ps_string_quoted:
  assumes "CHR 0xE2 \<notin> set s" and "ps_quote_at r = None"
  shows "ps_string (ReplaceAll s quote [quote, quote] @ quote # r) = Some (s, r)"
  using assms(1)
proof (induction s)
  case Nil
  then show ?case using assms(2) by (simp add: ps_string.simps [of "quote # r"] ps_quote_at_simps)
next
  case (Cons c s)
  let ?rest = "ReplaceAll s quote [quote, quote] @ quote # r"
  show ?case
  proof (cases "c = quote")
    case True
    with Cons show ?thesis by (simp add: ps_string.simps [of "quote # quote # ?rest"] ps_quote_at_simps)
  next
    case False
    with Cons show ?thesis by (simp add: ps_string.simps [of "c # ?rest"] ps_quote_at_simps)
  qed
qed

text \<open>A value without bytes of the typographic quotes is read back by PowerShell as it was.\<close>

lemma ps_quote_round_trip:
  assumes "CHR 0xE2 \<notin> set s" and "ps_quote_at r = None"
  shows "\<exists>t. ps_quote s @ r = quote # t \<and> ps_string t = Some (s, r)"
  using ps_string_quoted [OF assms] by (simp add: ps_quote_def)

text \<open>
  A typographic quote in a value ends the string, and what follows it in the value is a command.
\<close>

lemma typographic_quote_ends_string:
  "ps_string (tl (ps_quote ([CHR 0xE2, CHR 0x80, CHR 0x99] @ '';calc;''))) = Some ([], '';calc;'' @ [quote])"
  by (simp add: ps_quote_def ps_string.simps [of "CHR 0xE2 # _"] ps_quote_at_def ps_quotes_def HasPrefix_def)

section \<open>Only agent binaries are served\<close>

lemma agentFileRE_name:
  assumes "agentFileRE name = Some (os, arch, ext)" and "(os = ''windows'') = (ext = ''.exe'')"
  shows "name = AgentFile os arch \<and> slash \<notin> set name"
  using assms by (auto simp: agentFileRE_def AgentFile_def find_Some_iff split: if_splits)

text \<open>
  What is served is the file an update manifest names for the platform, and unpacked it is what
  the hub sends in an update.
\<close>

lemma getAgentBinary_serves:
  assumes "getAgentBinary d v enc name = r" and "r = ServeBytes b \<or> r = ServeGzip z"
  shows "(\<exists>os arch. name = AgentFile os arch) \<and> slash \<notin> set name \<and>
    (r = ServeBytes b \<longrightarrow> openAgentBinary d name = Some b) \<and> (r = ServeGzip z \<longrightarrow> openAgentBinary d name = gunzip d z)"
proof -
  obtain os arch ext where m: "agentFileRE name = Some (os, arch, ext)"
    using assms by (cases "agentFileRE name") (auto simp: getAgentBinary_def)
  with assms have "(os = ''windows'') = (ext = ''.exe'')" by (auto simp: getAgentBinary_def split: if_splits)
  with agentFileRE_name [OF m] m assms show ?thesis
    by (auto simp: getAgentBinary_def openAgentBinary_def split: option.splits if_splits)
qed

end
