(* ===== verification/Control.thy ===== *)
theory Control
  imports Gateway
begin

text \<open>
  Acting on a machine through its agent: \<open>protocol.Send\<close>, power, services and processes
  (\<open>hub/control.go\<close>, \<open>hub/processes.go\<close>), the installation of agent updates (\<open>hub/agentupdate.go\<close>)
  and terminals (\<open>hub/shell.go\<close>). The agents are an argument: the answer to a message may depend on
  everything, here on how many messages were sent before. What was sent is recorded in
  \<open>hb_sent\<close>.
\<close>

type_synonym link = "nat \<Rightarrow> agentConn \<Rightarrow> link_msg \<Rightarrow> answer"

section \<open>Requests over the link\<close>

definition transmit :: "link \<Rightarrow> agentConn \<Rightarrow> link_msg \<Rightarrow> answer hub_op" where
  "transmit link ac msg = do {
     n \<leftarrow> gets (\<lambda>h. length (hb_sent h));
     modify (\<lambda>h. h\<lparr>hb_sent := hb_sent h @ [(ac_ref ac, msg)]\<rparr>);
     return (link n ac msg)
   }"

text \<open>A peer that does not answer in time loses the connection.\<close>

definition Send :: "link \<Rightarrow> agentConn \<Rightarrow> link_msg \<Rightarrow> (bool \<times> payload \<times> string option) hub_op" where
  "Send link ac msg = do {
     a \<leftarrow> transmit link ac msg;
     (case a of
        Answered ok p \<Rightarrow> return (ok, p, None)
      | SendFailed e \<Rightarrow> return (False, NoPayload, Some e)
      | TimedOut \<Rightarrow> do { close_link (Some ac); return (False, NoPayload, Some ''request timed out'') })
   }"

text \<open>Opening a channel and requests on one: the error, or whether the peer agreed.\<close>

definition channel :: "link \<Rightarrow> agentConn \<Rightarrow> link_msg \<Rightarrow> (string + bool) hub_op" where
  "channel link ac msg = do {
     a \<leftarrow> transmit link ac msg;
     return (case a of Answered ok _ \<Rightarrow> Inr ok | SendFailed e \<Rightarrow> Inl e | TimedOut \<Rightarrow> Inl ''EOF'')
   }"

section \<open>Online agents\<close>

definition onlineAgent :: "string \<Rightarrow> ('a reply + system \<times> agentConn) hub_op" where
  "onlineAgent idStr = do {
     x \<leftarrow> lookupSystem idStr;
     (case x of
        Inl rep \<Rightarrow> return (Inl rep)
      | Inr sys \<Rightarrow> gets (\<lambda>h. case hb_agents h (sy_id sys) of
                       None \<Rightarrow> Inl (WriteError 409 ''the system is offline'')
                     | Some ac \<Rightarrow> Inr (sys, ac)))
   }"

text \<open>The \<open>error\<close> of a payload decoded as an \<open>ActionReply\<close>.\<close>

definition reply_error :: "payload \<Rightarrow> string" where
  "reply_error p = (case p of ActionReply e \<Rightarrow> e | ServicesReply l \<Rightarrow> sl_error l | _ \<Rightarrow> [])"

definition sendAction :: "link \<Rightarrow> agentConn \<Rightarrow> link_msg \<Rightarrow> string hub_op" where
  "sendAction link ac msg = do {
     (ok, p, err) \<leftarrow> Send link ac msg;
     return (if reply_error p \<noteq> [] then reply_error p
             else if err \<noteq> None \<or> \<not> ok then ''the agent did not answer; it may need an update''
             else [])
   }"

section \<open>Power and services\<close>

definition postPower :: "link \<Rightarrow> env \<Rightarrow> request \<Rightarrow> string \<Rightarrow> string option \<Rightarrow> session \<Rightarrow> unit reply hub_op" where
  "postPower link ev r idStr body s = do {
     x \<leftarrow> onlineAgent idStr;
     (case x of
        Inl rep \<Rightarrow> return rep
      | Inr (sys, ac) \<Rightarrow>
          (case body of
             None \<Rightarrow> return badJSON
           | Some action \<Rightarrow>
               if action \<noteq> ''reboot'' \<and> action \<noteq> ''shutdown'' then return (WriteError 400 ''action must be reboot or shutdown'')
               else if \<not> requireElevated ev s then return ReauthRequired
               else if \<not> has_feature ac FeatureShell
               then return (WriteError 403 ''rebooting is disabled on this machine; install the agent with --allow-shell'')
               else do {
                 msg \<leftarrow> sendAction link ac (MsgPower action);
                 if msg \<noteq> [] then do {
                   audit ev (Some r) (u_username (ss_user s)) (action @ ''_failed'') (Some sys) [Txt msg];
                   return (WriteError 422 msg)
                 }
                 else do {
                   audit ev (Some r) (u_username (ss_user s)) action (Some sys) [];
                   return NoContent
                 }
               }))
   }"

definition getServices :: "link \<Rightarrow> string \<Rightarrow> payload reply hub_op" where
  "getServices link idStr = do {
     x \<leftarrow> onlineAgent idStr;
     (case x of
        Inl rep \<Rightarrow> return rep
      | Inr (sys, ac) \<Rightarrow> do {
          (ok, p, err) \<leftarrow> Send link ac MsgServices;
          return (if err \<noteq> None \<or> \<not> ok
            then WriteError 502 ''the agent could not list its services; it may need an update'' else WriteJSON 200 p)
        })
   }"

definition postService :: "link \<Rightarrow> env \<Rightarrow> request \<Rightarrow> string \<Rightarrow> service_msg option \<Rightarrow> session \<Rightarrow> unit reply hub_op" where
  "postService link ev r idStr body s = do {
     x \<leftarrow> onlineAgent idStr;
     (case x of
        Inl rep \<Rightarrow> return rep
      | Inr (sys, ac) \<Rightarrow>
          (case body of
             None \<Rightarrow> return badJSON
           | Some b \<Rightarrow>
               if vm_action b \<notin> {''start'', ''stop'', ''restart''}
               then return (WriteError 400 ''action must be start, stop or restart'')
               else if vm_name b = [] \<or> 256 < length (vm_name b) then return (WriteError 400 ''invalid service name'')
               else if \<not> requireElevated ev s then return ReauthRequired
               else if \<not> has_feature ac FeatureShell
               then return (WriteError 403 ''controlling services is disabled on this machine; install the agent with --allow-shell'')
               else do {
                 let d = [Txt (vm_action b), Txt '' '', Txt (truncate_str (vm_name b) 128)];
                 msg \<leftarrow> sendAction link ac (MsgService b);
                 if msg \<noteq> [] then do {
                   audit ev (Some r) (u_username (ss_user s)) ''service_control_failed'' (Some sys) (d @ [Txt '': '', Txt msg]);
                   return (WriteError 422 msg)
                 }
                 else do {
                   audit ev (Some r) (u_username (ss_user s)) ''service_controlled'' (Some sys) d;
                   return NoContent
                 }
               }))
   }"

section \<open>Processes\<close>

text \<open>A payload decoded as a \<open>ProcessList\<close>: another object has none of its fields.\<close>

definition decode_processes :: "payload \<Rightarrow> process_list option" where
  "decode_processes p =
     (case p of NoPayload \<Rightarrow> None | ProcessesReply l \<Rightarrow> Some l | _ \<Rightarrow> Some \<lparr>pl_processes = [], pl_total = 0\<rparr>)"

definition hide_commands :: "process_list \<Rightarrow> process_list" where
  "hide_commands l = l\<lparr>pl_processes := map (\<lambda>p. p\<lparr>ps_command := []\<rparr>) (pl_processes l)\<rparr>"

definition getProcesses :: "link \<Rightarrow> string \<Rightarrow> string \<Rightarrow> session \<Rightarrow> payload reply hub_op" where
  "getProcesses link idStr limit s = do {
     x \<leftarrow> onlineAgent idStr;
     (case x of
        Inl rep \<Rightarrow> return rep
      | Inr (sys, ac) \<Rightarrow> do {
          (ok, p, err) \<leftarrow> Send link ac (MsgProcesses (min (max (fst (ParseInt limit)) 1) 100));
          return (if err \<noteq> None \<or> \<not> ok then WriteError 502 ''the agent could not list its processes''
            else if \<not> Can (ss_user s) RoleOperator then
              (case decode_processes p of
                 None \<Rightarrow> WriteError 502 ''the agent sent an invalid process list''
               | Some l \<Rightarrow> WriteJSON 200 (ProcessesReply (hide_commands l)))
            else WriteJSON 200 p)
        })
   }"

text \<open>\<open>strconv.ParseInt(s, 10, 32)\<close>.\<close>

definition ParseInt32 :: "string \<Rightarrow> int option" where
  "ParseInt32 str =
     (case ParseInt str of (v, err) \<Rightarrow> if err \<or> v < - (2 ^ 31) \<or> 2 ^ 31 \<le> v then None else Some v)"

definition postSignal ::
    "link \<Rightarrow> env \<Rightarrow> request \<Rightarrow> string \<Rightarrow> string \<Rightarrow> (string \<times> string) option \<Rightarrow> session \<Rightarrow> unit reply hub_op" where
  "postSignal link ev r idStr pidStr body s = do {
     x \<leftarrow> onlineAgent idStr;
     (case x of
        Inl rep \<Rightarrow> return rep
      | Inr (sys, ac) \<Rightarrow>
          (case (ParseInt32 pidStr, body) of
             (None, _) \<Rightarrow> return (WriteError 400 ''invalid process ID'')
           | (Some pid, None) \<Rightarrow> return badJSON
           | (Some pid, Some (signal, name)) \<Rightarrow>
               if signal \<noteq> ''terminate'' \<and> signal \<noteq> ''kill'' then return (WriteError 400 ''signal must be terminate or kill'')
               else if \<not> requireElevated ev s then return ReauthRequired
               else if \<not> has_feature ac FeatureShell
               then return (WriteError 403 ''stopping processes is disabled on this machine; install the agent with --allow-shell'')
               else do {
                 (ok, p, err) \<leftarrow> Send link ac (MsgSignal \<lparr>sm_pid = pid, sm_signal = signal\<rparr>);
                 let d = [Txt signal, Txt '' PID '', Num pid, Txt '' ('', Txt (truncate_str name 64), Txt '')''];
                 if err \<noteq> None \<or> \<not> ok then do {
                   let msg = (if reply_error p = [] then ''the agent did not answer'' else reply_error p);
                   audit ev (Some r) (u_username (ss_user s)) ''process_signal_failed'' (Some sys) (d @ [Txt '': '', Txt msg]);
                   return (WriteError 422 msg)
                 }
                 else do {
                   audit ev (Some r) (u_username (ss_user s)) ''process_signaled'' (Some sys) d;
                   return NoContent
                 }
               }))
   }"

section \<open>Agent updates\<close>

text \<open>How sending the binary and reading the agent's confirmation ended.\<close>

datatype transfer = CopyFailed string | NotConfirmed | Confirmed string

definition update_failed ::
    "env \<Rightarrow> request \<Rightarrow> session \<Rightarrow> system \<Rightarrow> detail list \<Rightarrow> string \<Rightarrow> string reply hub_op" where
  "update_failed ev r s sys d msg = do {
     audit ev (Some r) (u_username (ss_user s)) ''agent_update_failed'' (Some sys) (d @ [Txt '': '', Txt msg]);
     return (WriteError 422 msg)
   }"

definition postAgentUpdate ::
    "link \<Rightarrow> (string \<Rightarrow> transfer) \<Rightarrow> agent_dir \<Rightarrow> (string \<rightharpoonup> manifest) \<Rightarrow> env \<Rightarrow> request \<Rightarrow> string \<Rightarrow> session \<Rightarrow>
     string reply hub_op" where
  "postAgentUpdate link copy d ups ev r idStr s = do {
     x \<leftarrow> onlineAgent idStr;
     (case x of
        Inl rep \<Rightarrow> return rep
      | Inr (sys, ac) \<Rightarrow>
          if \<not> has_feature ac FeatureUpdate
          then return (WriteError 409 ''this agent cannot update itself (it is too old or was installed with --no-updates); re-run the install command'')
          else (case updateFor ups (si_os (ac_info ac)) (si_arch (ac_info ac)) (sy_agent_version sys) of
                  None \<Rightarrow> return (WriteError 409 (''this hub has no newer signed agent for '' @ si_os (ac_info ac) @ ''/'' @ si_arch (ac_info ac)))
                | Some m \<Rightarrow>
                    let det = [Txt (sy_agent_version sys), Txt '' '', Txt [CHR 0xE2, CHR 0x86, CHR 0x92], Txt '' '', Txt (m_version m)] in
                    (case openAgentBinary d (m_file m) of
                       None \<Rightarrow> return internalError
                     | Some bin \<Rightarrow> do {
                         ch \<leftarrow> channel link ac (OpenUpdate m);
                         (case ch of
                            Inl e \<Rightarrow> update_failed ev r s sys det (''the agent refused the update: '' @ e)
                          | Inr False \<Rightarrow> update_failed ev r s sys det ''the agent refused the update: ''
                          | Inr True \<Rightarrow>
                              (case copy bin of
                                 CopyFailed e \<Rightarrow> update_failed ev r s sys det (''sending the update failed: '' @ e)
                               | NotConfirmed \<Rightarrow> update_failed ev r s sys det ''the agent did not confirm the update''
                               | Confirmed e \<Rightarrow>
                                   if e \<noteq> [] then update_failed ev r s sys det e
                                   else do {
                                     audit ev (Some r) (u_username (ss_user s)) ''agent_updated'' (Some sys) det;
                                     return (WriteJSON 200 (m_version m))
                                   }))
                       })))
   }"

section \<open>Terminals\<close>

definition clampDim :: "int \<Rightarrow> int \<Rightarrow> int" where
  "clampDim v def = (if v \<le> 0 \<or> 1000 < v then def else v)"

definition queryDim :: "string \<Rightarrow> int \<Rightarrow> int" where
  "queryDim q def = clampDim (fst (ParseInt q)) def"

text \<open>The number is written with one decimal; its digits are not modelled.\<close>

definition humanBytes :: "int \<Rightarrow> detail list" where
  "humanBytes n =
     (if 2 ^ 20 \<le> n then [Flt (of_int n / 2 ^ 20), Txt '' MiB'']
      else if 2 ^ 10 \<le> n then [Flt (of_int n / 2 ^ 10), Txt '' KiB'']
      else [Num n, Txt '' B''])"

text \<open>
  What \<open>handleShell\<close> comes to before the terminal runs: an HTTP error, an error message on the
  socket, or an open terminal with the number of its tracked connection. The browser's part of the upgrade
  is the argument \<open>accept\<close>.
\<close>

datatype shell_start =
    ShellRefused "unit reply"
  | ShellNoSocket
  | ShellError string string
  | ShellReady system agentConn nat

definition openShell ::
    "link \<Rightarrow> bool \<Rightarrow> env \<Rightarrow> request \<Rightarrow> string \<Rightarrow> string \<Rightarrow> string \<Rightarrow> session \<Rightarrow> shell_start hub_op" where
  "openShell link accept ev r idStr cols rows s = do {
     x \<leftarrow> lookupSystem idStr;
     (case x of
        Inl rep \<Rightarrow> return (ShellRefused rep)
      | Inr sys \<Rightarrow>
          if \<not> accept then return ShellNoSocket
          else if \<not> Can (ss_user s) RoleOperator
          then return (ShellError ''forbidden'' (''your role ('' @ u_role (ss_user s) @ '') cannot open shells''))
          else if ss_elevated s < unix_of (ev_now ev)
          then return (ShellError ''reauth_required'' ''confirm your password to open a shell'')
          else do {
            ac \<leftarrow> gets (\<lambda>h. hb_agents h (sy_id sys));
            (case ac of
               None \<Rightarrow> return (ShellError ''offline'' ''the system is offline'')
             | Some ac \<Rightarrow>
                 if \<not> has_feature ac FeatureShell then do {
                   audit ev (Some r) (u_username (ss_user s)) ''shell_denied'' (Some sys) [Txt ''remote shell is disabled on the agent''];
                   return (ShellError ''disabled'' ''Remote shell is disabled on this machine. Reinstall the agent with --allow-shell to enable it.'')
                 }
                 else do {
                   ch \<leftarrow> channel link ac OpenSession;
                   (case ch of
                      Inl e \<Rightarrow> return (ShellError ''failed'' (''The agent refused the shell: '' @ e))
                    | Inr False \<Rightarrow> return (ShellError ''failed'' ''The agent refused the shell: '')
                    | Inr True \<Rightarrow> do {
                        pty \<leftarrow> channel link ac (MsgPty (queryDim cols 80) (queryDim rows 24));
                        if pty \<noteq> Inr True then return (ShellError ''failed'' ''The agent could not allocate a terminal.'')
                        else do {
                          sh \<leftarrow> channel link ac MsgShell;
                          if sh \<noteq> Inr True then return (ShellError ''failed'' ''The agent could not start a shell; check the agent log.'')
                          else do {
                            ref \<leftarrow> track s RoleOperator;
                            audit ev (Some r) (u_username (ss_user s)) ''shell_opened'' (Some sys) [];
                            return (ShellReady sys ac ref)
                          }
                        }
                      })
                 })
          })
   }"

text \<open>The end of a terminal: how long it was open, what went through it and the exit status.\<close>

definition closeShell ::
    "env \<Rightarrow> request \<Rightarrow> session \<Rightarrow> system \<Rightarrow> nat \<Rightarrow> duration \<Rightarrow> int \<Rightarrow> int \<Rightarrow> int option \<Rightarrow> unit hub_op" where
  "closeShell ev r s sys ref lasted typed printed status = do {
     audit ev (Some r) (u_username (ss_user s)) ''shell_closed'' (Some sys)
       ([Dur lasted, Txt ''; ''] @ humanBytes typed @ [Txt '' typed, ''] @ humanBytes printed @ [Txt '' output''] @
        (case status of None \<Rightarrow> [] | Some c \<Rightarrow> [Txt ''; exit status '', Num c]));
     untrack ref
   }"

section \<open>The hub and what is beside it\<close>

text \<open>Operations on a pair of states: the hub and, for example, the files of a machine or the viewers of a run.\<close>

definition on_hub :: "'a hub_op \<Rightarrow> (hub \<times> 's, 'a) state" where
  "on_hub m = State (\<lambda>(h, s). case run_state m h of (a, h) \<Rightarrow> (a, (h, s)))"

definition beside :: "('s \<Rightarrow> 'a \<times> 's) \<Rightarrow> (hub \<times> 's, 'a) state" where
  "beside f = State (\<lambda>(h, s). case f s of (a, s) \<Rightarrow> (a, (h, s)))"

definition see_beside :: "('s \<Rightarrow> 'a) \<Rightarrow> (hub \<times> 's, 'a) state" where
  "see_beside f = State (\<lambda>(h, s). (f s, (h, s)))"

lemma run_on_hub [simp]: "run_state (on_hub m) (h, s) = (case run_state m h of (a, h) \<Rightarrow> (a, (h, s)))"
  by (simp add: on_hub_def)

lemma run_beside [simp]: "run_state (beside f) (h, s) = (case f s of (a, s) \<Rightarrow> (a, (h, s)))"
  by (simp add: beside_def)

lemma run_see_beside [simp]: "run_state (see_beside f) (h, s) = (f s, (h, s))"
  by (simp add: see_beside_def)

section \<open>What is sent, and to whom\<close>

lemma run_transmit [simp]:
  "run_state (transmit link ac msg) h =
     (link (length (hb_sent h)) ac msg, h\<lparr>hb_sent := hb_sent h @ [(ac_ref ac, msg)]\<rparr>)"
  by (simp add: transmit_def)

text \<open>
  An operation that, while the agents \<open>A\<close> are connected, sends only messages that \<open>P\<close> allows.
  It is shown along the structure of the operation.
\<close>

definition only_sends :: "(int \<Rightarrow> agentConn option) \<Rightarrow> (nat \<times> link_msg \<Rightarrow> bool) \<Rightarrow> 'a hub_op \<Rightarrow> bool" where
  "only_sends A P m \<longleftrightarrow> (\<forall>h. hb_agents h = A \<longrightarrow>
     hb_agents (snd (run_state m h)) = A \<and> (\<exists>ms. hb_sent (snd (run_state m h)) = hb_sent h @ ms \<and> list_all P ms))"

lemma only_sendsD:
  assumes "only_sends (hb_agents h) P m" and "run_state m h = (r, h')"
  shows "\<exists>ms. hb_sent h' = hb_sent h @ ms \<and> list_all P ms"
  using assms by (fastforce simp: only_sends_def)

lemma only_sends_return: "only_sends A P (return x)"
  by (simp add: only_sends_def)

lemma only_sends_bind:
  assumes "only_sends A P m" and "\<And>x. only_sends A P (f x)"
  shows "only_sends A P (State_Monad.bind m f)"
  unfolding only_sends_def
proof (intro allI impI)
  fix h :: hub
  assume A: "hb_agents h = A"
  obtain x h1 where m: "run_state m h = (x, h1)" by fastforce
  obtain ms where "hb_sent h1 = hb_sent h @ ms" "list_all P ms" "hb_agents h1 = A"
    using assms(1) A m by (fastforce simp: only_sends_def)
  moreover obtain ms' where "hb_sent (snd (run_state (f x) h1)) = hb_sent h1 @ ms'" "list_all P ms'"
      "hb_agents (snd (run_state (f x) h1)) = A"
    using assms(2) [of x] calculation(3) by (fastforce simp: only_sends_def)
  ultimately show "hb_agents (snd (run_state (State_Monad.bind m f) h)) = A \<and>
      (\<exists>ms. hb_sent (snd (run_state (State_Monad.bind m f) h)) = hb_sent h @ ms \<and> list_all P ms)"
    using m by auto
qed

lemma only_sends_gets: "only_sends A P (gets f)"
  by (simp add: only_sends_def)

lemma only_sends_agent:
  assumes "only_sends A P (f (A i))"
  shows "only_sends A P (State_Monad.bind (gets (\<lambda>h. hb_agents h i)) f)"
  using assms by (simp add: only_sends_def)

lemma only_sends_db: "only_sends A P (db m)" "only_sends A P (db_log m')" "only_sends A P (audit ev r n a sys d)"
  by (simp_all add: only_sends_def audit_def split: prod.splits)

lemma only_sends_conns: "only_sends A P (track s role)" "only_sends A P (untrack ref)" "only_sends A P (close_link ac)"
  "only_sends A P (publish e)" "only_sends A P (spawn t)"
  by (simp_all add: only_sends_def track_def untrack_def close_link_def publish_def spawn_def split: option.splits)

lemma only_sends_transmit: "P (ac_ref ac, msg) \<Longrightarrow> only_sends A P (transmit link ac msg)"
  by (simp add: only_sends_def)

lemma only_sends_lookupSystem: "only_sends A P (lookupSystem idStr :: ('a reply + system) hub_op)"
  by (auto simp: lookupSystem_def intro!: only_sends_bind only_sends_return only_sends_db split: prod.splits bool.splits)

lemma only_sends_onlineAgent:
  assumes "\<And>rep. only_sends A P (f (Inl rep))"
    and "\<And>sys ac. A (sy_id sys) = Some ac \<Longrightarrow> only_sends A P (f (Inr (sys, ac)))"
  shows "only_sends A P (State_Monad.bind (onlineAgent idStr :: ('a reply + system \<times> agentConn) hub_op) f)"
  unfolding only_sends_def
proof (intro allI impI)
  fix h :: hub
  assume A: "hb_agents h = A"
  obtain x h1 where m: "run_state (onlineAgent idStr :: ('a reply + system \<times> agentConn) hub_op) h = (x, h1)" by fastforce
  obtain y h2 where l: "run_state (lookupSystem idStr :: ('a reply + system) hub_op) h = (y, h2)" by fastforce
  have h2: "hb_agents h2 = A" "\<exists>ms. hb_sent h2 = hb_sent h @ ms \<and> list_all P ms"
    using only_sends_lookupSystem [of A P idStr, where 'a = 'a] A l by (fastforce simp: only_sends_def)+
  have "h1 = h2" "only_sends A P (f x)"
    using m l h2 assms by (auto simp: onlineAgent_def split: sum.splits option.splits)
  with h2 m show "hb_agents (snd (run_state (State_Monad.bind (onlineAgent idStr) f) h)) = A \<and>
      (\<exists>ms. hb_sent (snd (run_state (State_Monad.bind (onlineAgent idStr) f) h)) = hb_sent h @ ms \<and> list_all P ms)"
    by (fastforce simp: only_sends_def)
qed

lemmas only_sends_basic = only_sends_return only_sends_gets only_sends_db only_sends_conns only_sends_lookupSystem

lemma only_sends_Send: "P (ac_ref ac, msg) \<Longrightarrow> only_sends A P (Send link ac msg)"
  unfolding Send_def
  by (intro only_sends_bind only_sends_transmit) (auto intro!: only_sends_bind only_sends_basic split: answer.splits)

lemma only_sends_channel: "P (ac_ref ac, msg) \<Longrightarrow> only_sends A P (channel link ac msg)"
  unfolding channel_def by (intro only_sends_bind only_sends_transmit only_sends_return)

lemma only_sends_sendAction: "P (ac_ref ac, msg) \<Longrightarrow> only_sends A P (sendAction link ac msg)"
  unfolding sendAction_def by (auto intro!: only_sends_bind only_sends_Send only_sends_return split: prod.splits)

lemmas only_sends_rules = only_sends_onlineAgent only_sends_agent only_sends_bind only_sends_Send only_sends_channel
  only_sends_sendAction only_sends_basic

text \<open>
  Remote control of a machine: the session was confirmed recently, and the message goes to a
  connected agent that announced that its owner allowed it.
\<close>

definition allowed :: "env \<Rightarrow> session \<Rightarrow> (int \<Rightarrow> agentConn option) \<Rightarrow> nat \<times> link_msg \<Rightarrow> bool" where
  "allowed ev s A m \<longleftrightarrow> requireElevated ev s \<and> (\<exists>i ac. A i = Some ac \<and> ac_ref ac = fst m \<and> FeatureShell \<in> set (ac_features ac))"

lemma allowedI: "A i = Some ac \<Longrightarrow> requireElevated ev s \<Longrightarrow> has_feature ac FeatureShell \<Longrightarrow> allowed ev s A (ac_ref ac, msg)"
  by (auto simp: allowed_def has_feature_def)

lemma allowed_shellI:
  "A i = Some ac \<Longrightarrow> \<not> ss_elevated s < unix_of (ev_now ev) \<Longrightarrow> has_feature ac FeatureShell \<Longrightarrow> allowed ev s A (ac_ref ac, msg)"
  by (rule allowedI) (auto simp: requireElevated_def)

lemma postPower_allowed: "only_sends A (allowed ev s A) (postPower link ev r idStr body s)"
  unfolding postPower_def
  by (rule only_sends_onlineAgent) (auto intro!: only_sends_rules intro: allowedI split: option.splits)

lemma postService_allowed: "only_sends A (allowed ev s A) (postService link ev r idStr body s)"
  unfolding postService_def Let_def
  by (rule only_sends_onlineAgent) (auto intro!: only_sends_rules intro: allowedI split: option.splits)

lemma postSignal_allowed: "only_sends A (allowed ev s A) (postSignal link ev r idStr pid body s)"
  unfolding postSignal_def Let_def
  by (rule only_sends_onlineAgent) (auto intro!: only_sends_rules intro: allowedI split: option.splits prod.splits)

lemma openShell_allowed:
  "only_sends A (\<lambda>m. allowed ev s A m \<and> Can (ss_user s) RoleOperator) (openShell link accept ev r idStr cols rows s)"
  unfolding openShell_def
  by (auto intro!: only_sends_rules split: option.splits sum.splits bool.splits)
    (rule allowed_shellI, assumption+)+

section \<open>Command lines and tracking\<close>

lemma onlineAgent_error:
  "run_state (onlineAgent idStr :: ('a reply + system \<times> agentConn) hub_op) h = (Inl rep, h') \<Longrightarrow> rep \<noteq> WriteJSON n p"
  by (auto simp: onlineAgent_def lookupSystem_def internalError_def
      split: prod.splits bool.splits sum.splits option.splits db_error.splits)

text \<open>Viewers get no command lines.\<close>

lemma getProcesses_hides_commands:
  assumes "\<not> Can (ss_user s) RoleOperator" and "run_state (getProcesses link idStr limit s) h = (WriteJSON n p, h')"
  shows "\<exists>l. p = ProcessesReply l \<and> list_all (\<lambda>q. ps_command q = []) (pl_processes l)"
  using assms
  by (auto simp: getProcesses_def hide_commands_def list_all_iff dest: onlineAgent_error
      split: sum.splits prod.splits if_splits option.splits)

text \<open>
  A terminal is tracked only after the shell was started. Signing the user out in between stops
  every connection known then, not the one that is tracked afterwards.
\<close>

lemma sign_out_misses_starting_shell:
  assumes "\<forall>ref \<in> set (hb_stopped h). ref < hb_next_ref h" and "\<forall>c \<in> set (hb_conns h). cn_ref c < hb_next_ref h"
    and "run_state (signOutUser (u_id (ss_user s)) keep) h = (r, h1)" and "run_state (track s RoleOperator) h1 = (ref, h2)"
  shows "ref \<notin> set (hb_stopped h2) \<and> (\<exists>c \<in> set (hb_conns h2). cn_ref c = ref \<and> cn_user c = u_id (ss_user s))"
proof -
  have fresh: "hb_next_ref h \<notin> set (hb_stopped h)" "hb_next_ref h \<notin> cn_ref ` set (hb_conns h)"
    using assms(1,2) by fastforce+
  have "hb_conns h1 = hb_conns h \<and> hb_next_ref h1 = hb_next_ref h \<and> set (hb_stopped h1) \<subseteq> cn_ref ` set (hb_conns h) \<union> set (hb_stopped h)"
    using assms(3) by (auto simp: signOutUser_def closeConns_def split: option.splits prod.splits)
  with assms(4) fresh show ?thesis by (auto simp: track_def)
qed

end
