(* ===== verification/Wol.thy ===== *)
theory Wol
  imports Netip
begin

unbundle bit_operations_syntax

text \<open>
  Wake-on-LAN (\<open>wol/wol.go\<close>): hardware addresses, magic packets, broadcast addresses and the
  sending of the packets, with what the source uses of Go's package \<open>net\<close>. The network is an
  argument: whether a socket can be opened and which of the writes fail.
\<close>

section \<open>Hardware addresses\<close>

definition hex2 :: "char \<Rightarrow> char \<Rightarrow> 8 word option" where
  "hex2 a b =
     (case (hex_val a, hex_val b) of (Some x, Some y) \<Rightarrow> Some (word_of_int (16 * x + y)) | _ \<Rightarrow> None)"

text \<open>Pairs of digits with a separator between them, and groups of four.\<close>

fun mac_pairs :: "char \<Rightarrow> string \<Rightarrow> 8 word list option" where
  "mac_pairs sep [a, b] = map_option (\<lambda>x. [x]) (hex2 a b)"
| "mac_pairs sep (a # b # c # s) =
     (case (hex2 a b, mac_pairs sep s) of
        (Some x, Some xs) \<Rightarrow> if c = sep then Some (x # xs) else None
      | _ \<Rightarrow> None)"
| "mac_pairs sep _ = None"

fun mac_quads :: "string \<Rightarrow> 8 word list option" where
  "mac_quads [a, b, c, d] = (case (hex2 a b, hex2 c d) of (Some x, Some y) \<Rightarrow> Some [x, y] | _ \<Rightarrow> None)"
| "mac_quads (a # b # c # d # e # s) =
     (case (hex2 a b, hex2 c d, mac_quads s) of
        (Some x, Some y, Some xs) \<Rightarrow> if e = CHR ''.'' then Some (x # y # xs) else None
      | _ \<Rightarrow> None)"
| "mac_quads _ = None"

definition net_ParseMAC :: "string \<Rightarrow> 8 word list option" where
  "net_ParseMAC s =
     (if length s < 14 then None
      else case (if s ! 2 = CHR '':'' \<or> s ! 2 = CHR ''-'' then mac_pairs (s ! 2) s
                 else if s ! 4 = CHR ''.'' then mac_quads s else None) of
             None \<Rightarrow> None
           | Some hw \<Rightarrow> if length hw \<in> {6, 8, 20} then Some hw else None)"

definition ParseMAC :: "string \<Rightarrow> 8 word list option" where
  "ParseMAC mac =
     (case net_ParseMAC mac of
        None \<Rightarrow> None
      | Some hw \<Rightarrow>
          if length hw \<noteq> 6 \<or> hd hw AND 1 = 1 \<or> hw = replicate 6 0 then None else Some hw)"

definition MagicPacket :: "string \<Rightarrow> 8 word list option" where
  "MagicPacket mac = map_option (\<lambda>hw. replicate 6 0xFF @ concat (replicate 16 hw)) (ParseMAC mac)"

section \<open>Networks\<close>

text \<open>\<open>net.ParseCIDR\<close>: the address and the length of the prefix, which may have leading zeros.\<close>

definition ParseCIDR :: "string \<Rightarrow> (addr \<times> nat) option" where
  "ParseCIDR s =
     (case Cut CHR ''/'' s of
        (a, m, found) \<Rightarrow>
          if \<not> found then None
          else (case ParseAddr a of
                  None \<Rightarrow> None
                | Some ip \<Rightarrow>
                    if hasZone ip \<or> m = [] \<or> \<not> list_all is_digit m \<or> int (BitLen ip) < digits_val m then None
                    else Some (ip, nat (digits_val m))))"

text \<open>\<open>IP.To4\<close>, also for an address in IPv4-mapped form.\<close>

definition To4 :: "addr \<Rightarrow> 32 word option" where
  "To4 a = (case Unmap a of Addr4 w \<Rightarrow> Some w | _ \<Rightarrow> None)"

definition cidr_mask :: "nat \<Rightarrow> 32 word" where
  "cidr_mask n = NOT (mask (32 - n))"

definition octet :: "nat \<Rightarrow> 32 word \<Rightarrow> nat" where
  "octet k w = nat (uint w div 256 ^ k mod 256)"

definition dotted :: "32 word \<Rightarrow> string" where
  "dotted w = Join (map show_nat [octet 3 w, octet 2 w, octet 1 w, octet 0 w]) ''.''"

text \<open>An IPv4 network: its masked address and the length of its prefix.\<close>

record ip_net =
  nw_addr :: "32 word"
  nw_ones :: nat

definition Broadcast :: "string \<Rightarrow> (string \<times> ip_net) option" where
  "Broadcast cidr =
     (case ParseCIDR cidr of
        Some (Addr4 ip, ones) \<Rightarrow>
          if 30 < ones then None
          else let n = ip AND cidr_mask ones
               in Some (dotted (n OR NOT (cidr_mask ones)), \<lparr>nw_addr = n, nw_ones = ones\<rparr>)
      | _ \<Rightarrow> None)"

text \<open>\<open>IPNet.Contains\<close>.\<close>

definition net_contains :: "ip_net \<Rightarrow> addr \<Rightarrow> bool" where
  "net_contains n a =
     (case To4 a of
        None \<Rightarrow> False
      | Some ip \<Rightarrow> nw_addr n AND cidr_mask (nw_ones n) = ip AND cidr_mask (nw_ones n))"

text \<open>The addresses of the machine's interfaces are an argument, \<open>None\<close> when they cannot be read.\<close>

definition IsLocalBroadcast :: "string list option \<Rightarrow> string \<Rightarrow> bool" where
  "IsLocalBroadcast ifaces a =
     (if a = ''255.255.255.255'' then True
      else (case ifaces of
              None \<Rightarrow> False
            | Some cidrs \<Rightarrow> list_ex (\<lambda>c. case Broadcast c of None \<Rightarrow> False | Some (bc, _) \<Rightarrow> bc = a) cidrs))"

section \<open>Sending\<close>

record udp =
  udp_dial :: "32 word \<Rightarrow> string option"      \<comment> \<open>an error of \<open>DialUDP\<close>\<close>
  udp_write :: "nat \<Rightarrow> string option"         \<comment> \<open>an error of the \<open>n\<close>-th write\<close>

fun magic_packets :: "string list \<Rightarrow> 8 word list list option" where
  "magic_packets [] = Some []"
| "magic_packets (mac # macs) =
     (case MagicPacket mac of
        None \<Rightarrow> None
      | Some pkt \<Rightarrow> map_option (\<lambda>ps. pkt # ps) (magic_packets macs))"

fun write_all :: "udp \<Rightarrow> nat \<Rightarrow> 8 word list list \<Rightarrow> 8 word list list \<times> string option" where
  "write_all net n [] = ([], None)"
| "write_all net n (pkt # pkts) =
     (case udp_write net n of
        Some e \<Rightarrow> ([], Some e)
      | None \<Rightarrow> (case write_all net (Suc n) pkts of (sent, e) \<Rightarrow> (pkt # sent, e)))"

text \<open>\<open>Send\<close>: the datagrams that were written, with their destination, and the error.\<close>

definition wol_Send :: "udp \<Rightarrow> string list \<Rightarrow> string \<Rightarrow> (32 word \<times> 8 word list) list \<times> string option" where
  "wol_Send net macs bc =
     (case (case ParseAddr bc of None \<Rightarrow> None | Some a \<Rightarrow> if hasZone a then None else To4 a) of
        None \<Rightarrow> ([], Some ''invalid IPv4 broadcast address'')
      | Some ip \<Rightarrow>
          if macs = [] then ([], Some ''no MAC address to wake'')
          else (case magic_packets macs of
                  None \<Rightarrow> ([], Some ''not a unicast 48-bit MAC address'')
                | Some pkts \<Rightarrow>
                    (case udp_dial net ip of
                       Some e \<Rightarrow> ([], Some e)
                     | None \<Rightarrow> (case write_all net 0 (pkts @ pkts @ pkts) of (sent, e) \<Rightarrow> (map (Pair ip) sent, e)))))"

section \<open>Packets\<close>

lemma ParseMAC_unicast:
  assumes "ParseMAC mac = Some hw"
  shows "length hw = 6 \<and> \<not> bit (hd hw) 0 \<and> hw \<noteq> replicate 6 0"
  using assms by (auto simp: ParseMAC_def and_one_eq bit_0 split: option.splits if_splits)

lemma magic_packet_layout:
  assumes "MagicPacket mac = Some pkt"
  shows "\<exists>hw. ParseMAC mac = Some hw \<and> length pkt = 102 \<and> take 6 pkt = replicate 6 0xFF \<and>
    list_all (\<lambda>k. take 6 (drop (6 + 6 * k) pkt) = hw) [0 ..< 16]"
proof -
  obtain hw where hw: "ParseMAC mac = Some hw" "pkt = replicate 6 0xFF @ concat (replicate 16 hw)"
    using assms by (auto simp: MagicPacket_def)
  then have len: "length hw = 6" using ParseMAC_unicast by blast
  have rep: "take 6 (drop (6 * k) (concat (replicate n hw))) = hw" if "k < n" for k n
    using that
  proof (induction k arbitrary: n)
    case 0
    then show ?case using len by (cases n) auto
  next
    case (Suc k)
    then show ?case using len by (cases n) auto
  qed
  have "length (concat (replicate n hw)) = 6 * n" for n using len by (induction n) auto
  with hw rep len show ?thesis by (auto simp: list_all_iff)
qed

section \<open>Broadcast addresses\<close>

lemma hd_show_nat: "hd (show_nat n) = CHR ''0'' \<Longrightarrow> length (show_nat n) = 1"
proof (induction n rule: show_nat.induct)
  case (1 n)
  show ?case
  proof (cases "n < 10")
    case True
    then show ?thesis by (simp add: show_nat.simps [of n])
  next
    case False
    then have "hd (show_nat n) = hd (show_nat (n div 10))" by (simp add: show_nat.simps [of n])
    with 1 False have "length (show_nat (n div 10)) = 1" "hd (show_nat (n div 10)) = CHR ''0''" by auto
    then have "show_nat (n div 10) = ''0''" by (cases "show_nat (n div 10)") auto
    then have "digits_val (show_nat (n div 10)) = 0" by (simp add: digits_val_def)
    with False show ?thesis by (simp add: digits_val_show_nat)
  qed
qed

lemma parse_octet_show: "n \<le> 255 \<Longrightarrow> parse_octet (show_nat n) = Some (int n)"
  using hd_show_nat [of n] show_nat_digits [of n] by (auto simp: parse_octet_def digits_val_show_nat)

lemma show_nat_no_dot: "CHR ''.'' \<notin> set (show_nat n)"
  using show_nat_digits [of n] by (auto simp: list_all_iff is_digit_def)

lemma Split_dotted:
  assumes "sep \<notin> set a" "sep \<notin> set b" "sep \<notin> set c" "sep \<notin> set d"
  shows "Split sep (Join [a, b, c, d] [sep]) = [a, b, c, d]"
proof -
  have word: "sep \<notin> set w \<Longrightarrow> Split sep w = [w]" for w by (induction w) auto
  have app: "sep \<notin> set w \<Longrightarrow> Split sep (w @ sep # r) = w # Split sep r" for w r by (induction w) auto
  show ?thesis using assms by (simp add: word app)
qed

lemma octet_le: "octet k w \<le> 255"
proof -
  have "uint w div 256 ^ k mod 256 < 256" by simp
  then show ?thesis unfolding octet_def by linarith
qed

lemma octets_value:
  "((int (octet 3 w) * 256 + int (octet 2 w)) * 256 + int (octet 1 w)) * 256 + int (octet 0 w) = uint w"
proof -
  define x where "x = uint w"
  define y where "y = x div 256"
  define z where "z = y div 256"
  have "0 \<le> x" "x < 256 ^ 4" using uint_lt2p [of w] by (simp_all add: x_def)
  then have "0 \<le> z div 256" "z div 256 < 256" by (simp_all add: y_def z_def)
  moreover have "x div 256 ^ 2 = z" "x div 256 ^ 3 = z div 256"
    by (simp_all add: y_def z_def zdiv_zmult2_eq [symmetric])
  ultimately have "int (octet 3 w) = z div 256" "int (octet 2 w) = z mod 256" "int (octet 1 w) = y mod 256" "int (octet 0 w) = x mod 256"
    by (simp_all add: octet_def x_def [symmetric] y_def)
  moreover have "z div 256 * 256 + z mod 256 = z" "z * 256 + y mod 256 = y" "y * 256 + x mod 256 = x"
    by (simp_all add: y_def z_def)
  ultimately show ?thesis by (simp only: x_def)
qed

text \<open>The dotted form of an address parses to the address.\<close>

lemma parse_dotted: "ParseAddr (dotted w) = Some (Addr4 w)"
proof -
  have "Split CHR ''.'' (dotted w) = map show_nat [octet 3 w, octet 2 w, octet 1 w, octet 0 w]"
    unfolding dotted_def list.map by (rule Split_dotted) (simp_all add: show_nat_no_dot)
  then have four: "parseIPv4 (dotted w) = Some w"
    by (simp only: parseIPv4_def list.map parse_octet_show octet_le list.case option.case octets_value word_of_int_uint)
  let ?P = "\<lambda>c. c = CHR ''.'' \<or> c = CHR '':'' \<or> c = CHR ''%''"
  have "\<not> ?P c" if "c \<in> set (show_nat n)" for c n
    using show_nat_digits [of n] that by (auto simp: list_all_iff is_digit_def)
  moreover have "\<forall>c\<in>set xs. \<not> Q c \<Longrightarrow> Q y \<Longrightarrow> find Q (xs @ y # ys) = Some y" for Q :: "char \<Rightarrow> bool" and xs ys y
    by (induction xs) auto
  ultimately have "find ?P (dotted w) = Some CHR ''.''" unfolding dotted_def by simp
  with four show ?thesis by (simp add: ParseAddr_def)
qed

lemma broadcast_word: "(ip AND cidr_mask n) OR NOT (cidr_mask n) = ip OR mask (32 - n)"
  by (simp add: cidr_mask_def bit_eq_iff bit_simps) blast

lemma same_network_broadcast:
  assumes "ip AND cidr_mask n = ip' AND cidr_mask n"
  shows "ip OR mask (32 - n) = ip' OR mask (32 - n)"
  using assms by (metis broadcast_word)

text \<open>
  The broadcast address is the last one of the network: it is in it, and no address of the
  network is above it.
\<close>

lemma Broadcast_last:
  assumes "Broadcast cidr = Some (bc, n)"
  shows "\<exists>w. ParseAddr bc = Some (Addr4 w) \<and> net_contains n (Addr4 w) \<and>
    (\<forall>ip. net_contains n (Addr4 ip) \<longrightarrow> ip \<le> w)"
proof -
  obtain ip ones where c: "ParseCIDR cidr = Some (Addr4 ip, ones)" "n = \<lparr>nw_addr = ip AND cidr_mask ones, nw_ones = ones\<rparr>"
      "bc = dotted (ip OR mask (32 - ones))"
    using assms by (auto simp: Broadcast_def broadcast_word Let_def split: option.splits prod.splits addr.splits if_splits)
  let ?w = "ip OR mask (32 - ones)"
  have "?w AND cidr_mask ones = ip AND cidr_mask ones"
    by (simp add: cidr_mask_def bit_eq_iff bit_simps) blast
  then have "net_contains n (Addr4 ?w)" by (simp add: net_contains_def To4_def c(2) and.assoc)
  moreover have "ip' \<le> ?w" if "net_contains n (Addr4 ip')" for ip'
  proof -
    have "ip AND cidr_mask ones = ip' AND cidr_mask ones" using that by (simp add: net_contains_def To4_def c(2) and.assoc)
    then have "?w = ip' OR mask (32 - ones)" by (rule same_network_broadcast)
    then show ?thesis using le_word_or2 [of ip'] by simp
  qed
  ultimately show ?thesis using c(3) parse_dotted by blast
qed

end
