(* ===== verification/Wake.thy ===== *)
theory Wake
  imports Control Wol "HOL-Library.List_Lexorder" "HOL-Library.Char_ord"
begin

text \<open>
  Waking a machine (\<open>hub/wake.go\<close>): magic packets for its network cards, sent by an agent in its
  subnet or by the hub. \<open>ids\<close> is the order in which Go ranges over the connected agents, \<open>net\<close>
  what the hub's own sockets do for each destination.
\<close>

record wakeResult =
  wr_via :: string
  wr_broadcast :: string
  wr_macs :: "string list"

text \<open>The cards and subnets of the target, over its interfaces.\<close>

fun wake_macs :: "net_interface list \<Rightarrow> string list \<Rightarrow> string list" where
  "wake_macs [] macs = macs"
| "wake_macs (i # is) macs =
     wake_macs is (if ParseMAC (ni_mac i) \<noteq> None \<and> ni_mac i \<notin> set macs then macs @ [ni_mac i] else macs)"

definition wake_subnets :: "net_interface list \<Rightarrow> (string \<times> ip_net) list" where
  "wake_subnets is = List.map_filter Broadcast (concat (map ni_addrs is))"

definition inNetwork :: "agentConn \<Rightarrow> ip_net \<Rightarrow> bool" where
  "inNetwork ac n =
     list_ex (\<lambda>i. list_ex (\<lambda>a. case ParseCIDR a of None \<Rightarrow> False | Some (ip, _) \<Rightarrow> net_contains n ip) (ni_addrs i))
       (si_interfaces (ac_info ac))"

definition wake_relays :: "int list \<Rightarrow> int \<Rightarrow> (int \<Rightarrow> agentConn option) \<Rightarrow> agentConn list" where
  "wake_relays ids target A =
     sort_key ac_id (List.map_filter (\<lambda>i. case A i of
       None \<Rightarrow> None
     | Some ac \<Rightarrow> if i \<noteq> target \<and> has_feature ac FeatureWake then Some ac else None) ids)"

fun try_relays :: "link \<Rightarrow> string list \<Rightarrow> string \<times> ip_net \<Rightarrow> agentConn list \<Rightarrow> agentConn option hub_op" where
  "try_relays link macs sn [] = return None"
| "try_relays link macs sn (ac # acs) =
     (if \<not> inNetwork ac (snd sn) then try_relays link macs sn acs
      else do {
        (ok, p, err) \<leftarrow> Send link ac (MsgWake \<lparr>wm_macs = macs, wm_broadcast = fst sn\<rparr>);
        if err = None \<and> ok then return (Some ac) else try_relays link macs sn acs
      })"

fun try_subnets ::
    "link \<Rightarrow> string list \<Rightarrow> agentConn list \<Rightarrow> (string \<times> ip_net) list \<Rightarrow> (agentConn \<times> string) option hub_op" where
  "try_subnets link macs relays [] = return None"
| "try_subnets link macs relays (sn # sns) = do {
     r \<leftarrow> try_relays link macs sn relays;
     (case r of
        Some ac \<Rightarrow> return (Some (ac, fst sn))
      | None \<Rightarrow> try_subnets link macs relays sns)
   }"

text \<open>The hub's own packets: the destinations, sorted and without repetition, that could be sent to.\<close>

definition wake_targets :: "(string \<times> ip_net) list \<Rightarrow> string list" where
  "wake_targets subnets = remdups_adj (sort (map fst subnets @ [''255.255.255.255'']))"

definition wake :: "link \<Rightarrow> (string \<Rightarrow> udp) \<Rightarrow> int list \<Rightarrow> int \<Rightarrow> system_info \<Rightarrow> (string + wakeResult) hub_op" where
  "wake link net ids target info = do {
     let macs = wake_macs (si_interfaces info) [];
     let subnets = wake_subnets (si_interfaces info);
     if macs = []
     then return (Inl ''no MAC address is known for this system; it is recorded once an agent of version 0.2 or newer has connected'')
     else do {
       relays \<leftarrow> gets (\<lambda>h. wake_relays ids target (hb_agents h));
       via \<leftarrow> try_subnets link macs relays subnets;
       return (case via of
         Some (ac, bc) \<Rightarrow> Inr \<lparr>wr_via = ac_name ac, wr_broadcast = bc, wr_macs = macs\<rparr>
       | None \<Rightarrow>
           let sent = filter (\<lambda>bc. snd (wol_Send (net bc) macs bc) = None) (wake_targets subnets)
           in if sent = [] then Inl ''could not send the magic packet''
              else Inr \<lparr>wr_via = ''hub'', wr_broadcast = Join sent '', '', wr_macs = macs\<rparr>)
     }
   }"

definition postWake ::
    "link \<Rightarrow> (string \<Rightarrow> udp) \<Rightarrow> int list \<Rightarrow> env \<Rightarrow> request \<Rightarrow> string \<Rightarrow> session \<Rightarrow> wakeResult reply hub_op" where
  "postWake link net ids ev r idStr s = do {
     x \<leftarrow> lookupSystem idStr;
     (case x of
        Inl rep \<Rightarrow> return rep
      | Inr sys \<Rightarrow> do {
          res \<leftarrow> wake link net ids (sy_id sys) (sy_info sys);
          (case res of
             Inl e \<Rightarrow> do {
               audit ev (Some r) (u_username (ss_user s)) ''wake_failed'' (Some sys) [Txt e];
               return (WriteError 422 e)
             }
           | Inr w \<Rightarrow> do {
               audit ev (Some r) (u_username (ss_user s)) ''wake'' (Some sys)
                 [Txt ''magic packet for '', Txt (Join (wr_macs w) '', ''), Txt '' sent via '', Txt (wr_via w), Txt '' to '', Txt (wr_broadcast w)];
               return (WriteJSON 200 w)
             })
        })
   }"

section \<open>What is woken, and where\<close>











section \<open>An example\<close>








end
