(* ===== verification/Files.thy ===== *)
theory Files
  imports Control Paths "HOL-Library.List_Lexorder" "HOL-Library.Char_ord"
begin

text \<open>
  File transfer (\<open>hub/files.go\<close>). The files of the machine are reached through an SFTP client, a
  record of operations on a state of any type: each gives an error or a result, and the state after it. A
  handler runs on the state of the hub and that of the machine; nobody else changes the files during a request.
\<close>

section \<open>The SFTP client\<close>

text \<open>The class of an error, as \<open>errors.Is\<close> and \<open>errors.As\<close> find it, and its text.\<close>

datatype file_error =
    ErrNotExist (error_text: string) | ErrPermission (error_text: string) | ErrExist (error_text: string)
  | StatusError (error_text: string) | OtherError (error_text: string)

record file_info =
  fi_name :: string
  fi_size :: int
  fi_mode :: string
  fi_dir :: bool
  fi_link :: bool
  fi_mtime :: int
  fi_perm :: int
  fi_owner :: "(int \<times> int) option"

record 's sftp =
  sf_stat :: "string \<Rightarrow> 's \<Rightarrow> file_error + file_info"
  sf_lstat :: "string \<Rightarrow> 's \<Rightarrow> file_error + file_info"
  sf_readdir :: "string \<Rightarrow> 's \<Rightarrow> file_error + file_info list"
  sf_open :: "string \<Rightarrow> 's \<Rightarrow> file_error option"
  sf_fstat :: "string \<Rightarrow> 's \<Rightarrow> file_error + file_info"
  sf_read :: "string \<Rightarrow> 's \<Rightarrow> string \<times> string option"      \<comment> \<open>what was copied to the browser, and the error\<close>
  sf_create :: "string \<Rightarrow> 's \<Rightarrow> file_error option \<times> 's"     \<comment> \<open>\<open>O_CREATE\<close> with \<open>O_EXCL\<close>\<close>
  sf_write :: "string \<Rightarrow> string \<Rightarrow> file_error option \<Rightarrow> 's \<Rightarrow> (int \<times> file_error option) \<times> 's"
  sf_close :: "string \<Rightarrow> 's \<Rightarrow> file_error option \<times> 's"
  sf_chmod :: "string \<Rightarrow> int \<Rightarrow> 's \<Rightarrow> 's"
  sf_chown :: "string \<Rightarrow> int \<times> int \<Rightarrow> 's \<Rightarrow> 's"
  sf_posix_rename :: "string \<Rightarrow> string \<Rightarrow> 's \<Rightarrow> file_error option \<times> 's"
  sf_rename :: "string \<Rightarrow> string \<Rightarrow> 's \<Rightarrow> file_error option \<times> 's"
  sf_remove :: "string \<Rightarrow> 's \<Rightarrow> file_error option \<times> 's"
  sf_remove_dir :: "string \<Rightarrow> 's \<Rightarrow> file_error option \<times> 's"
  sf_remove_all :: "string \<Rightarrow> 's \<Rightarrow> file_error option \<times> 's"
  sf_mkdir :: "string \<Rightarrow> 's \<Rightarrow> file_error option \<times> 's"

type_synonym ('s, 'a) file_op = "(hub \<times> 's, 'a) state"

section \<open>Sessions\<close>

text \<open>\<open>pipe\<close> is whether the SFTP client starts on the channel.\<close>

definition fileSession ::
    "link \<Rightarrow> bool \<Rightarrow> env \<Rightarrow> string \<Rightarrow> session \<Rightarrow> ('a reply + system \<times> nat) hub_op" where
  "fileSession link pipe ev idStr s = do {
     x \<leftarrow> onlineAgent idStr;
     (case x of
        Inl rep \<Rightarrow> return (Inl rep)
      | Inr (sys, ac) \<Rightarrow>
          if \<not> requireElevated ev s then return (Inl ReauthRequired)
          else if \<not> has_feature ac FeatureShell
          then return (Inl (WriteError 403 ''file access is disabled on this machine; install the agent with --allow-shell''))
          else do {
            ch \<leftarrow> channel link ac OpenSession;
            (case ch of
               Inl e \<Rightarrow> return (Inl (WriteError 502 (''the agent refused file access: '' @ e)))
             | Inr False \<Rightarrow> return (Inl (WriteError 502 ''the agent refused file access: ''))
             | Inr True \<Rightarrow> do {
                 sub \<leftarrow> channel link ac (MsgSubsystem SubsystemSFTP);
                 if sub \<noteq> Inr True \<or> \<not> pipe then return (Inl (WriteError 502 ''the agent could not start file access''))
                 else do {
                   ref \<leftarrow> track s RoleOperator;
                   return (Inr (sys, ref))
                 }
               })
          })
   }"

definition fileError :: "file_error \<Rightarrow> 'a reply" where
  "fileError e =
     (case e of
        ErrNotExist _ \<Rightarrow> WriteError 404 ''no such file or folder''
      | ErrPermission _ \<Rightarrow> WriteError 403 ''permission denied''
      | ErrExist _ \<Rightarrow> WriteError 409 ''that name exists already''
      | StatusError m \<Rightarrow> WriteError 422 (TrimPrefix m ''sftp: '')
      | OtherError m \<Rightarrow> WriteError 502 m)"

section \<open>Listing and downloading\<close>

record fileEntry =
  fe_name :: string
  fe_size :: int
  fe_mode :: string
  fe_dir :: bool
  fe_link :: bool
  fe_mtime :: int

text \<open>A link to a folder is shown as a folder.\<close>

definition file_entry :: "'s sftp \<Rightarrow> string \<Rightarrow> 's \<Rightarrow> file_info \<Rightarrow> fileEntry" where
  "file_entry sf dir s fi =
     \<lparr>fe_name = fi_name fi, fe_size = fi_size fi, fe_mode = fi_mode fi,
      fe_dir = (if fi_link fi then (case sf_stat sf (path_join dir (fi_name fi)) s of Inl _ \<Rightarrow> fi_dir fi | Inr t \<Rightarrow> fi_dir t) else fi_dir fi),
      fe_link = fi_link fi, fe_mtime = fi_mtime fi\<rparr>"

text \<open>
  Folders first, each group by its name in lower case. \<open>lower\<close> is \<open>strings.ToLower\<close>; \<open>SortFunc\<close> is
  that of \<open>slices\<close>, which may order equal entries either way.
\<close>

definition compare_entries :: "(string \<Rightarrow> string) \<Rightarrow> fileEntry \<Rightarrow> fileEntry \<Rightarrow> int" where
  "compare_entries lower a b =
     (if fe_dir a \<noteq> fe_dir b then (if fe_dir a then - 1 else 1)
      else if lower (fe_name a) < lower (fe_name b) then - 1
      else if lower (fe_name a) = lower (fe_name b) then 0 else 1)"

definition getFiles ::
    "'s sftp \<Rightarrow> (string \<Rightarrow> string) \<Rightarrow> ((fileEntry \<Rightarrow> fileEntry \<Rightarrow> int) \<Rightarrow> fileEntry list \<Rightarrow> fileEntry list) \<Rightarrow> link \<Rightarrow> bool \<Rightarrow> env \<Rightarrow> string \<Rightarrow> string \<Rightarrow> session \<Rightarrow>
     ('s, (string \<times> fileEntry list) reply) file_op" where
  "getFiles sf lower SortFunc link pipe ev idStr path s = do {
     let dir = (case remotePath path of None \<Rightarrow> ''/'' | Some d \<Rightarrow> d);
     x \<leftarrow> on_hub (fileSession link pipe ev idStr s);
     (case x of
        Inl rep \<Rightarrow> return rep
      | Inr (sys, ref) \<Rightarrow> do {
          infos \<leftarrow> see_beside (\<lambda>t. case sf_readdir sf dir t of
            Inl e \<Rightarrow> fileError e
          | Inr is \<Rightarrow> WriteJSON 200 (dir, SortFunc (compare_entries lower) (map (file_entry sf dir t) is)));
          on_hub (untrack ref);
          return infos
        })
   }"

text \<open>The reply to a download: an error, or the name and size announced and the bytes sent.\<close>

datatype download = DownloadError "unit reply" | Download string int string

definition downloadFile ::
    "'s sftp \<Rightarrow> duration \<Rightarrow> link \<Rightarrow> bool \<Rightarrow> env \<Rightarrow> request \<Rightarrow> string \<Rightarrow> string \<Rightarrow> session \<Rightarrow> ('s, download) file_op" where
  "downloadFile sf took link pipe ev r idStr path s =
     (case remotePath path of
        None \<Rightarrow> return (DownloadError (WriteError 400 ''missing path''))
      | Some p \<Rightarrow> do {
          x \<leftarrow> on_hub (fileSession link pipe ev idStr s);
          (case x of
             Inl rep \<Rightarrow> return (DownloadError rep)
           | Inr (sys, ref) \<Rightarrow> do {
               res \<leftarrow> see_beside (\<lambda>t.
                 case sf_open sf p t of
                   Some e \<Rightarrow> Inl (fileError e)
                 | None \<Rightarrow>
                     (case sf_fstat sf p t of
                        Inl e \<Rightarrow> Inl (fileError e)
                      | Inr fi \<Rightarrow> if fi_dir fi then Inl (WriteError 400 ''folders cannot be downloaded'')
                                 else Inr (fi, sf_read sf p t)));
               (case res of
                  Inl rep \<Rightarrow> do { on_hub (untrack ref); return (DownloadError rep) }
                | Inr (fi, data, err) \<Rightarrow> do {
                    let d = [Txt p, Txt '' (''] @ humanBytes (int (length data)) @ [Txt '')''];
                    on_hub (case err of
                      Some e \<Rightarrow> audit ev (Some r) (u_username (ss_user s)) ''file_download_failed'' (Some sys) (d @ [Txt '': '', Txt e])
                    | None \<Rightarrow> audit ev (Some r) (u_username (ss_user s)) ''file_downloaded'' (Some sys) (d @ [Txt '' in '', Dur took]));
                    on_hub (untrack ref);
                    return (Download (path_base p) (fi_size fi) data)
                  })
             })
        })"

section \<open>Uploading\<close>

definition upload_path :: "env \<Rightarrow> string \<Rightarrow> string" where
  "upload_path ev p = path_join (path_dir p) (''.'' @ path_base p @ ''.upload-'' @ take 8 (randomToken ev))"

text \<open>A step that runs only while there is no error.\<close>

definition if_ok :: "file_error option \<Rightarrow> ('s \<Rightarrow> file_error option \<times> 's) \<Rightarrow> 's \<Rightarrow> file_error option \<times> 's" where
  "if_ok err f t = (case err of Some e \<Rightarrow> (Some e, t) | None \<Rightarrow> f t)"

text \<open>A rename that falls back to the plain one.\<close>

definition replace_file :: "'s sftp \<Rightarrow> string \<Rightarrow> string \<Rightarrow> 's \<Rightarrow> file_error option \<times> 's" where
  "replace_file sf a b t =
     (case sf_posix_rename sf a b t of (None, t) \<Rightarrow> (None, t) | (Some _, t) \<Rightarrow> sf_rename sf a b t)"

definition keep_mode :: "'s sftp \<Rightarrow> string \<Rightarrow> file_info option \<Rightarrow> 's \<Rightarrow> 's" where
  "keep_mode sf tmp existing t =
     (case existing of
        None \<Rightarrow> t
      | Some fi \<Rightarrow> let t = sf_chmod sf tmp (fi_perm fi) t in (case fi_owner fi of None \<Rightarrow> t | Some o' \<Rightarrow> sf_chown sf tmp o' t))"

text \<open>From the created temporary file to its place: the bytes written and the error.\<close>

definition upload ::
    "'s sftp \<Rightarrow> string \<Rightarrow> string \<Rightarrow> file_info option \<Rightarrow> string \<Rightarrow> file_error option \<Rightarrow> 's \<Rightarrow> (int \<times> file_error option) \<times> 's" where
  "upload sf tmp p existing body aborted t =
     (case sf_write sf tmp body aborted t of
        ((n, err), t) \<Rightarrow>
          (case sf_close sf tmp t of
             (cerr, t) \<Rightarrow>
               let err = (if err = None then cerr else err);
                   t = (if err = None then keep_mode sf tmp existing t else t) in
               (case if_ok err (replace_file sf tmp p) t of
                  (err, t) \<Rightarrow> ((n, err), if err = None then t else snd (sf_remove sf tmp t)))))"

definition putFile ::
    "'s sftp \<Rightarrow> link \<Rightarrow> bool \<Rightarrow> env \<Rightarrow> request \<Rightarrow> string \<Rightarrow> string \<Rightarrow> string \<Rightarrow> string \<Rightarrow> file_error option \<Rightarrow> session \<Rightarrow>
     ('s, unit reply) file_op" where
  "putFile sf link pipe ev r idStr path overwrite body aborted s =
     (case remotePath path of
        None \<Rightarrow> return (WriteError 400 ''missing path'')
      | Some p \<Rightarrow>
          if p = ''/'' then return (WriteError 400 ''missing path'')
          else do {
            x \<leftarrow> on_hub (fileSession link pipe ev idStr s);
            (case x of
               Inl rep \<Rightarrow> return rep
             | Inr (sys, ref) \<Rightarrow> do {
                 existing \<leftarrow> see_beside (\<lambda>t. case sf_stat sf p t of Inl _ \<Rightarrow> None | Inr fi \<Rightarrow> Some fi);
                 rep \<leftarrow> (case existing of
                   Some fi \<Rightarrow>
                     if fi_dir fi then return (Some (WriteError 409 ''a folder with that name exists already''))
                     else if overwrite \<noteq> ''1'' then return (Some (WriteError 409 ''a file with that name exists already''))
                     else return None
                 | None \<Rightarrow> return None);
                 (case rep of
                    Some rep \<Rightarrow> do { on_hub (untrack ref); return rep }
                  | None \<Rightarrow> do {
                      let tmp = upload_path ev p;
                      created \<leftarrow> beside (sf_create sf tmp);
                      (case created of
                         Some e \<Rightarrow> do { on_hub (untrack ref); return (fileError e) }
                       | None \<Rightarrow> do {
                           (n, err) \<leftarrow> beside (upload sf tmp p existing body aborted);
                           let d = [Txt p, Txt '' (''] @ humanBytes n @ [Txt '')''];
                           (case err of
                              Some e \<Rightarrow> do {
                                on_hub (audit ev (Some r) (u_username (ss_user s)) ''file_upload_failed'' (Some sys)
                                  (d @ [Txt '': '', Txt (error_text e)]));
                                on_hub (untrack ref);
                                return (fileError e)
                              }
                            | None \<Rightarrow> do {
                                on_hub (audit ev (Some r) (u_username (ss_user s)) ''file_uploaded'' (Some sys)
                                  (d @ (if existing = None then [] else [Txt '', replaced the existing file''])));
                                on_hub (untrack ref);
                                return NoContent
                              })
                         })
                    })
               })
          })"

section \<open>Folders, renaming, deleting\<close>

record fileAction =
  fa_action :: string
  fa_path :: string
  fa_to :: string
  fa_recursive :: bool

datatype file_outcome = FileConflict "unit reply" | FileDone string "detail list" "file_error option"

definition file_action :: "'s sftp \<Rightarrow> fileAction \<Rightarrow> string \<Rightarrow> string \<Rightarrow> 's \<Rightarrow> file_outcome \<times> 's" where
  "file_action sf b p to' t =
     (if fa_action b = ''mkdir'' then
        (case sf_mkdir sf p t of (e, t) \<Rightarrow> (FileDone ''folder_created'' [Txt p] e, t))
      else if fa_action b = ''rename'' then
        (case sf_lstat sf to' t of
           Inr _ \<Rightarrow> (FileConflict (WriteError 409 ''that name exists already''), t)
         | Inl _ \<Rightarrow> (case replace_file sf p to' t of
                      (e, t) \<Rightarrow> (FileDone ''file_renamed'' [Txt p, Txt '' '', Txt [CHR 0xE2, CHR 0x86, CHR 0x92], Txt '' '', Txt to'] e, t)))
      else if fa_action b = ''delete'' then
        (case sf_lstat sf p t of
           Inl e \<Rightarrow> (FileDone ''file_deleted'' [Txt p] (Some e), t)
         | Inr fi \<Rightarrow>
             if \<not> fi_dir fi then (case sf_remove sf p t of (e, t) \<Rightarrow> (FileDone ''file_deleted'' [Txt p] e, t))
             else if fa_recursive b then
               (case sf_remove_all sf p t of
                  (e, t) \<Rightarrow> (FileDone ''file_deleted'' [Txt p, Txt '' (folder with its contents)''] e, t))
             else (case sf_remove_dir sf p t of (e, t) \<Rightarrow> (FileDone ''file_deleted'' [Txt p] e, t)))
      else (FileConflict (WriteError 400 ''action must be mkdir, rename or delete''), t))"

definition postFileAction ::
    "'s sftp \<Rightarrow> link \<Rightarrow> bool \<Rightarrow> env \<Rightarrow> request \<Rightarrow> string \<Rightarrow> fileAction option \<Rightarrow> session \<Rightarrow> ('s, unit reply) file_op" where
  "postFileAction sf link pipe ev r idStr body s =
     (case body of
        None \<Rightarrow> return badJSON
      | Some b \<Rightarrow>
          (case remotePath (fa_path b) of
             None \<Rightarrow> return (WriteError 400 ''missing path'')
           | Some p \<Rightarrow>
               if p = ''/'' then return (WriteError 400 ''missing path'')
               else (case (if fa_action b = ''rename'' then remotePath (fa_to b) else Some []) of
                       None \<Rightarrow> return (WriteError 400 ''missing new name'')
                     | Some to' \<Rightarrow>
                         if to' = ''/'' then return (WriteError 400 ''missing new name'')
                         else do {
                           x \<leftarrow> on_hub (fileSession link pipe ev idStr s);
                           (case x of
                              Inl rep \<Rightarrow> return rep
                            | Inr (sys, ref) \<Rightarrow> do {
                                out \<leftarrow> beside (file_action sf b p to');
                                rep \<leftarrow> (case out of
                                  FileConflict rep \<Rightarrow> return rep
                                | FileDone action d (Some e) \<Rightarrow> return (fileError e)
                                | FileDone action d None \<Rightarrow> do {
                                    on_hub (audit ev (Some r) (u_username (ss_user s)) action (Some sys) d);
                                    return NoContent
                                  });
                                on_hub (untrack ref);
                                return rep
                              })
                         })))"


section \<open>Where an upload is written\<close>

lemma remotePath_render:
  assumes "remotePath path = Some p" and "p \<noteq> ''/''"
  obtains b cs where "p = render (b # cs)" and "list_all component (b # cs)"
proof -
  from assms(1) obtain q where "p = Clean (slash # q)" by (auto simp: remotePath_def split: if_splits)
  then have p: "p = render (resolve (Split slash q) [])" by (simp add: Clean_rooted)
  with assms(2) obtain b cs where "resolve (Split slash q) [] = b # cs"
    by (cases "resolve (Split slash q) []") (auto simp: render_def)
  with p resolved_components [of q] that show thesis by metis
qed

lemma b64_char_no_slash: "b64_char True v \<noteq> slash"
proof
  assume "b64_char True v = slash"
  then have "of_char (b64_char True v) = (47 :: nat)" by simp
  then show False by (auto simp: b64_char_def split: if_splits)
qed

lemma b64_url_no_slash: "slash \<notin> set (b64_url_encode s)"
  by (induction s rule: b64_url_encode.induct) (simp_all add: b64_char_no_slash [symmetric])

lemma Split_append: "Split sep (s @ sep # q) = Split sep s @ Split sep q"
proof (induction s)
  case (Cons c s)
  then show ?case by (cases "Split sep s") (auto simp: Split_span [of sep s])
qed simp

lemma resolve_append: "resolve (es @ fs) st = resolve fs (resolve es st)"
  by (induction es st rule: resolve.induct) auto

lemma Clean_below:
  assumes "list_all component cs"
  shows "Clean (render cs @ slash # q) = render (resolve (Split slash q) cs)"
proof -
  have "resolve (Split slash (Join (rev cs) [slash])) [] = cs"
    using assms Clean_render [OF assms] Split_Join [of "rev cs" slash] resolve_components [of "rev cs" "[]"]
    by (cases "cs = []") (auto simp: list_all_iff component_def)
  then show ?thesis
    using Clean_rooted [of "Join (rev cs) [slash] @ slash # q"] by (simp add: render_def Split_append resolve_append)
qed


lemma path_parts:
  assumes "list_all component (b # cs)"
  shows "path_dir (render (b # cs)) = render cs" and "path_base (render (b # cs)) = b"
proof -
  have b: "slash \<notin> set b" "b \<noteq> []" using assms by (auto simp: component_def)
  define d where "d = (if cs = [] then [] else render cs)"
  have p: "render (b # cs) = d @ slash # b" by (simp add: render_Cons d_def)
  have drop: "dropWhile (\<lambda>c. c \<noteq> slash) (rev b @ slash # rev d) = slash # rev d"
    using b(1) by (subst dropWhile_append2) auto
  have "Clean (d @ [slash]) = render cs"
    using assms Clean_below [of cs "[]"] Clean_render [of "[]"] by (auto simp: d_def render_def)
  with drop show "path_dir (render (b # cs)) = render cs" by (simp add: path_dir_def p)
  have "dropWhile (\<lambda>c. c = slash) (rev b @ slash # rev d) = rev b @ slash # rev d"
    using b by (cases "rev b") (auto dest: arg_cong [of _ _ set])
  moreover have "takeWhile (\<lambda>c. c \<noteq> slash) (rev b @ slash # rev d) = rev b"
    using b(1) by (subst takeWhile_append2) auto
  ultimately show "path_base (render (b # cs)) = b" using b(2) by (simp add: path_base_def p)
qed

text \<open>The temporary file is in the folder of the target, under another name.\<close>

lemma upload_path_beside:
  assumes "remotePath path = Some p" and "p \<noteq> ''/''"
  shows "path_dir (upload_path ev p) = path_dir p" and "upload_path ev p \<noteq> p"
proof -
  obtain b cs where p: "p = render (b # cs)" and ok: "list_all component (b # cs)" using remotePath_render [OF assms] .
  let ?x = "''.'' @ b @ ''.upload-'' @ take 8 (randomToken ev)"
  have "slash \<notin> set (take 8 (randomToken ev))"
    using b64_url_no_slash by (auto simp: randomToken_def dest: in_set_takeD)
  with ok have x: "component ?x" by (auto simp: component_def)
  have "upload_path ev p = render (?x # cs)"
    using ok x Clean_below [of cs ?x] Split_word [of slash ?x] resolve_components [of "[?x]" cs] path_parts [OF ok]
    by (simp add: upload_path_def p path_join_def component_def render_def [of cs])
  with ok x path_parts [of b cs] path_parts [of ?x cs]
  show "path_dir (upload_path ev p) = path_dir p" "upload_path ev p \<noteq> p"
    by (auto simp: p dest: arg_cong [of _ _ path_base] arg_cong [of _ _ length])
qed

section \<open>Uploads are all or nothing\<close>

text \<open>
  What is relied on of the SFTP server, for what it keeps at each path: an operation that
  reports success has been done; one that reports an error has been done or not, as when the
  connection is lost before the answer.
\<close>

datatype node = File string | Folder

definition performed :: "file_error option \<Rightarrow> 'v \<Rightarrow> bool \<Rightarrow> 'v \<Rightarrow> 'v \<Rightarrow> bool" where
  "performed err v possible w v' \<longleftrightarrow> (possible \<and> v' = w) \<or> (err \<noteq> None \<and> v' = v)"

definition renames :: "(string \<Rightarrow> string \<Rightarrow> 's \<Rightarrow> file_error option \<times> 's) \<Rightarrow> ('s \<Rightarrow> string \<Rightarrow> node option) \<Rightarrow> bool" where
  "renames f view \<longleftrightarrow> (\<forall>a b t err t'. f a b t = (err, t') \<longrightarrow> view t a \<noteq> Some Folder \<longrightarrow>
     performed err (view t) (view t a \<noteq> None) ((view t)(b := view t a, a := None)) (view t'))"

definition sftp_server :: "'s sftp \<Rightarrow> ('s \<Rightarrow> string \<Rightarrow> node option) \<Rightarrow> bool" where
  "sftp_server sf view \<longleftrightarrow>
     (\<forall>a t err t'. sf_create sf a t = (err, t') \<longrightarrow> performed err (view t) (view t a = None) ((view t)(a \<mapsto> File [])) (view t')) \<and>
     (\<forall>a body aborted t n err t' c. sf_write sf a body aborted t = ((n, err), t') \<longrightarrow> view t a = Some (File c) \<longrightarrow>
        (\<exists>c'. view t' = (view t)(a \<mapsto> File c') \<and> (err = None \<longrightarrow> aborted = None \<and> c' = c @ body))) \<and>
     (\<forall>a t. view (snd (sf_close sf a t)) = view t) \<and>
     (\<forall>a m t. view (sf_chmod sf a m t) = view t) \<and>
     (\<forall>a u t. view (sf_chown sf a u t) = view t) \<and>
     renames (sf_posix_rename sf) view \<and> renames (sf_rename sf) view \<and>
     (\<forall>a t err t'. sf_remove sf a t = (err, t') \<longrightarrow> view t a \<noteq> Some Folder \<longrightarrow>
        performed err (view t) True ((view t)(a := None)) (view t'))"

lemma replace_file_performed:
  assumes "sftp_server sf view" and "view t a = Some (File c)" and "a \<noteq> b" and "replace_file sf a b t = (err, t')"
  shows "performed err (view t) True ((view t)(b \<mapsto> File c, a := None)) (view t')"
proof -
  obtain e1 t1 where r1: "sf_posix_rename sf a b t = (e1, t1)" by fastforce
  have p: "renames (sf_posix_rename sf) view" "renames (sf_rename sf) view" using assms(1) by (simp_all add: sftp_server_def)
  have d1: "performed e1 (view t) True ((view t)(b \<mapsto> File c, a := None)) (view t1)"
    using p(1) r1 assms(2) by (fastforce simp: renames_def)
  show ?thesis
  proof (cases e1)
    case None
    with assms(4) r1 d1 show ?thesis by (simp add: replace_file_def)
  next
    case (Some e)
    with assms(4) r1 have r2: "sf_rename sf a b t1 = (err, t')" by (simp add: replace_file_def)
    have not_folder: "view t1 a \<noteq> Some Folder" using d1 assms(2) by (auto simp: performed_def)
    with p(2) r2 have "performed err (view t1) (view t1 a \<noteq> None) ((view t1)(b := view t1 a, a := None)) (view t')"
      by (simp add: renames_def)
    with d1 assms(2) show ?thesis by (auto simp: performed_def)
  qed
qed

lemma keep_mode_view: "sftp_server sf view \<Longrightarrow> view (keep_mode sf a existing t) = view t"
  by (auto simp: keep_mode_def sftp_server_def Let_def split: option.splits)

text \<open>What an upload does to the files at the target, at the temporary path and elsewhere.\<close>

definition uploaded :: "string \<Rightarrow> string \<Rightarrow> string \<Rightarrow> file_error option \<Rightarrow> bool \<Rightarrow> (string \<Rightarrow> node option) \<Rightarrow> (string \<Rightarrow> node option) \<Rightarrow> bool" where
  "uploaded tmp p body aborted ok v v' \<longleftrightarrow>
     (\<forall>q. q \<noteq> p \<and> q \<noteq> tmp \<longrightarrow> v' q = v q) \<and>
     (v' p = v p \<or> aborted = None \<and> v' p = Some (File body)) \<and>
     (ok \<longrightarrow> aborted = None \<and> v' p = Some (File body) \<and> v' tmp = None)"

lemma upload_uploaded:
  assumes "sftp_server sf view" and "view t tmp = Some (File [])" and "tmp \<noteq> p"
    and "upload sf tmp p existing body aborted t = ((n, err), t')"
  shows "uploaded tmp p body aborted (err = None) (view t) (view t')"
proof -
  obtain m e1 t1 where w: "sf_write sf tmp body aborted t = ((m, e1), t1)" by (metis prod.exhaust)
  obtain e2 t2 where c: "sf_close sf tmp t1 = (e2, t2)" by fastforce
  define e where "e = (if e1 = None then e2 else e1)"
  define t3 where "t3 = (if e = None then keep_mode sf tmp existing t2 else t2)"
  obtain e4 t4 where r: "if_ok e (replace_file sf tmp p) t3 = (e4, t4)" by fastforce
  have res: "err = e4" "t' = (if e4 = None then t4 else snd (sf_remove sf tmp t4))"
    using assms(4) w c r by (auto simp: upload_def e_def t3_def Let_def)
  obtain c' where v1: "view t1 = (view t)(tmp \<mapsto> File c')" "e1 = None \<Longrightarrow> aborted = None \<and> c' = body"
    using assms(1,2) w unfolding sftp_server_def by (metis append_Nil)
  have "view t2 = view t1" using assms(1) c unfolding sftp_server_def by (metis snd_conv)
  then have v3: "view t3 = (view t)(tmp \<mapsto> File c')" using v1(1) keep_mode_view [OF assms(1)] by (simp add: t3_def)
  have v4: "e = None \<and> performed e4 (view t3) True ((view t3)(p \<mapsto> File c', tmp := None)) (view t4) \<or> e4 \<noteq> None \<and> view t4 = view t3"
    using r replace_file_performed [OF assms(1) _ assms(3), of t3 c'] v3 by (cases e) (auto simp: if_ok_def)
  have e: "e = None \<Longrightarrow> aborted = None \<and> c' = body" using v1(2) by (auto simp: e_def split: if_splits)
  have up4: "uploaded tmp p body aborted (e4 = None) (view t) (view t4)"
    using v4 v3 e assms(3) by (auto simp: performed_def uploaded_def)
  have "view t4 tmp \<noteq> Some Folder" using v4 v3 by (auto simp: performed_def)
  then have "view (snd (sf_remove sf tmp t4)) = (view t4)(tmp := None) \<or> view (snd (sf_remove sf tmp t4)) = view t4"
    using assms(1) unfolding sftp_server_def performed_def by (metis prod.collapse)
  with up4 res show ?thesis using assms(3) by (auto simp: uploaded_def)
qed

lemma onlineAgent_refuses:
  "run_state (onlineAgent idStr :: ('a reply + system \<times> agentConn) hub_op) h = (Inl rep, h') \<Longrightarrow> rep \<noteq> NoContent"
  by (auto simp: onlineAgent_def lookupSystem_def internalError_def
      split: prod.splits bool.splits sum.splits option.splits db_error.splits)

lemma fileSession_refuses:
  "run_state (fileSession link pipe ev idStr s :: ('a reply + system \<times> nat) hub_op) h = (Inl rep, h') \<Longrightarrow> rep \<noteq> NoContent"
  by (auto simp: fileSession_def dest: onlineAgent_refuses split: prod.splits sum.splits if_splits bool.splits)

lemma fileError_not_ok: "fileError e \<noteq> NoContent"
  by (simp add: fileError_def split: file_error.splits)

text \<open>The ways an upload can go.\<close>

lemma putFile_cases:
  assumes "remotePath path = Some p"
    and "run_state (putFile sf link pipe ev r idStr path overwrite body aborted s) (h, t) = (rep, (h', t'))"
  obtains (refused) "rep \<noteq> NoContent" "t' = t"
    | (failed) e where "rep \<noteq> NoContent" "sf_create sf (upload_path ev p) t = (Some e, t')" "p \<noteq> ''/''"
    | (written) t1 existing n err where "sf_create sf (upload_path ev p) t = (None, t1)"
        "upload sf (upload_path ev p) p existing body aborted t1 = ((n, err), t')" "rep = NoContent \<longleftrightarrow> err = None" "p \<noteq> ''/''"
        "overwrite = ''1'' \<or> (\<exists>e. sf_stat sf p t = Inl e)"
  using assms
  by (auto simp: putFile_def Let_def fileError_not_ok dest: fileSession_refuses
      split: if_splits sum.splits prod.splits option.splits)

text \<open>
  (C14) Uploads: whatever fails on the way, the file at the target is afterwards the one that was there or
  the whole body of a request that was read to its end, never a part of it, and no other file is touched but the temporary
  one beside the target, which is not a file that existed before. When the upload is reported as done the body is in
  place, the temporary file is gone, and without \<open>overwrite\<close> the server had found no file to replace.
\<close>

theorem upload_all_or_nothing:
  assumes "sftp_server sf view" and "remotePath path = Some p" and "p \<noteq> ''/''"
    and "run_state (putFile sf link pipe ev r idStr path overwrite body aborted s) (h, t) = (rep, (h', t'))"
  shows "uploaded (upload_path ev p) p body aborted (rep = NoContent) (view t) (view t') \<and>
    (view t (upload_path ev p) \<noteq> None \<longrightarrow> view t' = view t) \<and> path_dir (upload_path ev p) = path_dir p \<and>
    (rep = NoContent \<longrightarrow> overwrite = ''1'' \<or> (\<exists>e. sf_stat sf p t = Inl e))"
proof -
  let ?tmp = "upload_path ev p"
  note beside = upload_path_beside [OF assms(2,3), of ev]
  have create: "performed err (view t) (view t ?tmp = None) ((view t)(?tmp \<mapsto> File [])) (view t1)"
    if "sf_create sf ?tmp t = (err, t1)" for err t1
    using assms(1) that by (simp add: sftp_server_def)
  from assms(2,4) show ?thesis
  proof (cases rule: putFile_cases)
    case refused
    then show ?thesis using beside by (simp add: uploaded_def)
  next
    case (failed e)
    then show ?thesis using create [of "Some e" t'] beside by (auto simp: performed_def uploaded_def)
  next
    case (written t1 existing n err)
    then have v1: "view t ?tmp = None" "view t1 = (view t)(?tmp \<mapsto> File [])"
      using create [of None t1] by (auto simp: performed_def)
    with upload_uploaded [OF assms(1) _ beside(2) written(2)]
    have "uploaded ?tmp p body aborted (err = None) (view t1) (view t')" by simp
    with v1 written(3,5) beside show ?thesis by (simp add: uploaded_def)
  qed
qed

section \<open>An example\<close>

definition demo_sftp :: "(string \<Rightarrow> node option) sftp" where
  "demo_sftp = (let no = Inl (ErrNotExist []); move = (\<lambda>a b t. if t a = None then (Some (ErrNotExist []), t) else (None, t(b := t a, a := None)));
       gone = (\<lambda>a t. (None, t(a := None))) in
     \<lparr>sf_stat = (\<lambda>_ _. no), sf_lstat = (\<lambda>_ _. no), sf_readdir = (\<lambda>_ _. Inr []), sf_open = (\<lambda>_ _. None), sf_fstat = (\<lambda>_ _. no),
      sf_read = (\<lambda>_ _. ([], None)),
      sf_create = (\<lambda>a t. if t a = None then (None, t(a \<mapsto> File [])) else (Some (ErrExist []), t)),
      sf_write = (\<lambda>a body aborted t. case t a of
         Some (File c) \<Rightarrow> ((int (length body), aborted), t(a \<mapsto> File (c @ body)))
       | _ \<Rightarrow> ((0, Some (OtherError [])), t)),
      sf_close = (\<lambda>_ t. (None, t)), sf_chmod = (\<lambda>_ _ t. t), sf_chown = (\<lambda>_ _ t. t),
      sf_posix_rename = (\<lambda>_ _ t. (Some (StatusError []), t)), sf_rename = move,
      sf_remove = gone, sf_remove_dir = gone, sf_remove_all = gone, sf_mkdir = (\<lambda>a t. (None, t(a \<mapsto> Folder)))\<rparr>)"

lemma demo_sftp_server: "sftp_server demo_sftp id"
  by (auto simp: sftp_server_def renames_def performed_def demo_sftp_def Let_def split: option.splits node.splits if_splits)

definition file_hub :: hub where
  "file_hub = live_hub\<lparr>hb_agents := [7 \<mapsto> (demo_agent 7)\<lparr>ac_features := [FeatureShell]\<rparr>]\<rparr>"

definition demo_upload :: "unit reply \<times> hub \<times> (string \<Rightarrow> node option)" where
  "demo_upload = run_state (putFile demo_sftp (\<lambda>_ _ _. Answered True NoPayload) True (demo_env 0 ''abcdefgh'') demo_request ''7'' ''x/../a''
     [] ''hi'' None \<lparr>ss_user = demo_user, ss_token = [], ss_elevated = 1000\<rparr>) (file_hub, \<lambda>_. None)"

lemma demo_upload_done: "fst demo_upload = NoContent" "remotePath ''x/../a'' = Some ''/a''"
  by code_simp+

theorem upload_all_or_nothing_witness:
  "fst demo_upload = NoContent \<and> snd (snd demo_upload) ''/a'' = Some (File ''hi'') \<and> snd (snd demo_upload) ''/b'' = None"
proof -
  obtain rep h' t' where r: "demo_upload = (rep, (h', t'))" by (metis prod.exhaust)
  have "''/b'' \<noteq> upload_path (demo_env 0 ''abcdefgh'') ''/a''" by code_simp
  with demo_upload_done(1) upload_all_or_nothing [OF demo_sftp_server demo_upload_done(2) _ r [unfolded demo_upload_def]]
  show ?thesis unfolding r by (simp add: uploaded_def)
qed

section \<open>Errors that count as absence\<close>

text \<open>
  Any error of \<open>Stat\<close> counts as there being no file: without \<open>overwrite\<close> the upload goes on, and
  replaces what the rename finds there.
\<close>

lemma stat_error_replaces_file:
  assumes "sftp_server sf view" and "remotePath path = Some p" and "p \<noteq> ''/''" and "view t p = Some (File old)"
    and "run_state (fileSession link pipe ev idStr s :: (unit reply + system \<times> nat) hub_op) h = (Inr (sys, ref), h1)" and "sf_stat sf p t = Inl (ErrPermission msg)"
    and "sf_create sf (upload_path ev p) t = (None, t1)"
    and "upload sf (upload_path ev p) p None body None t1 = ((n, None), t2)"
  shows "\<exists>h'. run_state (putFile sf link pipe ev r idStr path [] body None s) (h, t) = (NoContent, (h', t2)) \<and>
    view t2 p = Some (File body)"
proof -
  have "view t1 (upload_path ev p) = Some (File [])"
    using assms(1,7) by (fastforce simp: sftp_server_def performed_def)
  with upload_uploaded [OF assms(1) _ upload_path_beside(2) [OF assms(2,3)] assms(8)]
  have "view t2 p = Some (File body)" by (simp add: uploaded_def)
  with assms show ?thesis by (simp add: putFile_def Let_def split: prod.splits)
qed

section \<open>What is sent\<close>

lemma fileSession_allowed: "only_sends A (allowed ev s A) (fileSession link pipe ev idStr s :: ('a reply + system \<times> nat) hub_op)"
  unfolding fileSession_def
  by (rule only_sends_onlineAgent)
    (auto intro!: only_sends_rules intro: allowedI split: option.splits sum.splits bool.splits)

text \<open>The files of a machine are only reached in a session of \<open>fileSession\<close>.\<close>

lemma files_reached_in_session:
  assumes "\<And>h1 x. run_state (fileSession link pipe ev idStr s :: (unit reply + system \<times> nat) hub_op) h \<noteq> (Inr x, h1)"
  shows "snd (snd (run_state (putFile sf link pipe ev r idStr path overwrite body aborted s) (h, t))) = t"
    and "snd (snd (run_state (postFileAction sf link pipe ev r idStr b s) (h, t))) = t"
  using assms
  by (auto simp: putFile_def postFileAction_def split: option.splits prod.splits sum.splits)

end
