(* ===== verification/Runs.thy ===== *)
theory Runs
  imports Control
begin

text \<open>
  Saved scripts and runs (\<open>hub/scripts.go\<close>): the handlers, and the execution of a run on many
  systems at once. Beside the hub are the viewers of the run, as in \<open>RunOutput\<close>.
\<close>

section \<open>Saved scripts\<close>

definition maxScriptSize :: nat where "maxScriptSize = 256 * 1024"
definition maxRunTargets :: nat where "maxRunTargets = 500"
definition runParallel :: nat where "runParallel = 16"
definition maxRunTimeout :: int where "maxRunTimeout = 24 * 60 * 60"

definition scriptShells :: "string \<Rightarrow> string" where
  "scriptShells shell =
     (if shell = ''sh'' then ''sh'' else if shell = ''bash'' then ''Bash''
      else if shell = ''powershell'' then ''PowerShell'' else if shell = ''cmd'' then ''cmd'' else [])"

definition shellRunsOn :: "string \<Rightarrow> string \<Rightarrow> bool" where
  "shellRunsOn shell os =
     (if shell = ''sh'' \<or> shell = ''bash'' then os \<noteq> ''windows'' else if shell = ''cmd'' then os = ''windows'' else True)"

definition getScripts :: "script list reply hub_op" where
  "getScripts = do {
     r \<leftarrow> db Scripts;
     return (case r of Inl _ \<Rightarrow> internalError | Inr l \<Rightarrow> WriteJSON 200 l)
   }"

text \<open>The script with its names trimmed, and what is wrong with it.\<close>

definition validateScript :: "script \<Rightarrow> script \<times> string" where
  "validateScript sc =
     (let sc = sc\<lparr>sc_name := TrimSpace (sc_name sc), sc_description := TrimSpace (sc_description sc)\<rparr> in
      (sc,
       if sc_name sc = [] \<or> maxNameLen < RuneCountInString (sc_name sc) then ''name must be 1-64 characters''
       else if 500 < RuneCountInString (sc_description sc) then ''the description must be at most 500 characters''
       else if scriptShells (sc_shell sc) = [] then ''shell must be sh, bash, powershell or cmd''
       else if TrimSpace (sc_content sc) = [] then ''the script is empty''
       else if maxScriptSize < length (sc_content sc) then ''the script must be at most 256 KiB''
       else if sc_timeout sc < 1 \<or> maxRunTimeout < sc_timeout sc then ''the time limit must be between 1 second and 24 hours''
       else []))"

definition store_script :: "env \<Rightarrow> request \<Rightarrow> session \<Rightarrow> script \<Rightarrow> script reply hub_op" where
  "store_script ev r s sc =
     (case validateScript sc of
        (sc, msg) \<Rightarrow>
          if msg \<noteq> [] then return (WriteError 400 msg)
          else do {
            x \<leftarrow> db (SaveScript (unix_of (ev_now ev)) sc);
            (case x of
               Inl _ \<Rightarrow> return internalError
             | Inr sc \<Rightarrow> do {
                 audit ev (Some r) (u_username (ss_user s)) ''script_saved'' None
                   [Quoted (sc_name sc), Txt '' ('', Txt (scriptShells (sc_shell sc)), Txt '')''];
                 return (WriteJSON 200 sc)
               })
          })"

definition saveScript :: "env \<Rightarrow> request \<Rightarrow> string \<Rightarrow> script option \<Rightarrow> session \<Rightarrow> script reply hub_op" where
  "saveScript ev r idStr body s =
     (case body of
        None \<Rightarrow> return badJSON
      | Some sc \<Rightarrow>
          if \<not> requireElevated ev s then return ReauthRequired
          else if idStr \<noteq> [] then do {
            let i = fst (ParseInt idStr);
            old \<leftarrow> db (Script i);
            (case old of
               Inl _ \<Rightarrow> return (WriteError 404 ''script not found'')
             | Inr old \<Rightarrow> store_script ev r s (sc\<lparr>sc_id := i, sc_created_by := sc_created_by old, sc_created_at := sc_created_at old\<rparr>))
          }
          else store_script ev r s (sc\<lparr>sc_id := 0, sc_created_by := u_username (ss_user s)\<rparr>))"

definition deleteScript :: "env \<Rightarrow> request \<Rightarrow> string \<Rightarrow> session \<Rightarrow> unit reply hub_op" where
  "deleteScript ev r idStr s =
     (if \<not> requireElevated ev s then return ReauthRequired
      else do {
        let i = fst (ParseInt idStr);
        x \<leftarrow> db (Script i);
        (case x of
           Inl _ \<Rightarrow> return (WriteError 404 ''script not found'')
         | Inr sc \<Rightarrow> do {
             d \<leftarrow> db (DeleteScript i);
             (case d of
                Inl _ \<Rightarrow> return internalError
              | Inr _ \<Rightarrow> do {
                  audit ev (Some r) (u_username (ss_user s)) ''script_deleted'' None [Quoted (sc_name sc)];
                  return NoContent
                })
           })
      })"

section \<open>Starting a run\<close>

record runRequest =
  rr_script_id :: "int option"
  rr_name :: string
  rr_shell :: string
  rr_content :: string
  rr_timeout :: int
  rr_systems :: "int list"

definition pending_target :: "system \<Rightarrow> runTarget" where
  "pending_target sys =
     \<lparr>rt_system_id = sy_id sys, rt_system_name = sy_name sys, rt_status = ''pending'', rt_exit_code = None, rt_error = [],
      rt_output = [], rt_truncated = False, rt_started_at = 0, rt_finished_at = 0\<rparr>"

fun run_targets :: "int list \<Rightarrow> runTarget list option hub_op" where
  "run_targets [] = return (Some [])"
| "run_targets (i # is) = do {
     x \<leftarrow> db (System i);
     (case x of
        Inl _ \<Rightarrow> return None
      | Inr sys \<Rightarrow> do {
          ts \<leftarrow> run_targets is;
          return (map_option ((#) (pending_target sys)) ts)
        })
   }"

definition start_run :: "env \<Rightarrow> request \<Rightarrow> session \<Rightarrow> runRequest \<Rightarrow> script \<Rightarrow> int reply hub_op" where
  "start_run ev r s req sc =
     (case validateScript sc of
        (sc, msg) \<Rightarrow>
          if msg \<noteq> [] then return (WriteError 400 msg)
          else let ids = remdups_adj (sort (rr_systems req)) in
          if ids = [] \<or> maxRunTargets < length ids then return (WriteError 400 ''choose at least one system'')
          else do {
            ts \<leftarrow> run_targets ids;
            (case ts of
               None \<Rightarrow> return (WriteError 400 ''a selected system does not exist'')
             | Some ts \<Rightarrow> do {
                 x \<leftarrow> db (CreateRun
                   \<lparr>sr_id = 0, sr_script_id = rr_script_id req, sr_name = sc_name sc, sr_shell = sc_shell sc, sr_content = sc_content sc,
                    sr_timeout = sc_timeout sc, sr_username = u_username (ss_user s), sr_started_at = unix_of (ev_now ev),
                    sr_finished_at = None, sr_targets = ts, sr_summary = []\<rparr>);
                 (case x of
                    Inl _ \<Rightarrow> return internalError
                  | Inr rec \<Rightarrow> do {
                      modify (\<lambda>h. h\<lparr>hb_runs := (hb_runs h)(sr_id rec \<mapsto> newActiveRun rec ts)\<rparr>);
                      spawn (Execute (sr_id rec) (clientIP r));
                      return (WriteJSON 200 (sr_id rec))
                    })
               })
          })"

definition postRun :: "env \<Rightarrow> request \<Rightarrow> runRequest option \<Rightarrow> session \<Rightarrow> int reply hub_op" where
  "postRun ev r body s =
     (case body of
        None \<Rightarrow> return badJSON
      | Some req \<Rightarrow>
          if \<not> requireElevated ev s then return ReauthRequired
          else (case rr_script_id req of
                  Some i \<Rightarrow> do {
                    x \<leftarrow> db (Script i);
                    (case x of
                       Inl _ \<Rightarrow> return (WriteError 404 ''script not found'')
                     | Inr saved \<Rightarrow> start_run ev r s req saved)
                  }
                | None \<Rightarrow>
                    start_run ev r s req
                      \<lparr>sc_id = 0, sc_name = (if TrimSpace (rr_name req) = [] then ''Command'' else rr_name req), sc_description = [],
                       sc_shell = rr_shell req, sc_content = rr_content req, sc_timeout = rr_timeout req, sc_created_by = [],
                       sc_created_at = 0, sc_updated_at = 0\<rparr>))"

section \<open>A script on one system\<close>

type_synonym viewers = "nat \<Rightarrow> viewer option"
type_synonym 'a run_op = "(hub \<times> viewers, 'a) state"

text \<open>A critical section of the run \<open>i\<close>.\<close>

definition on_run :: "int \<Rightarrow> (activeRun \<Rightarrow> viewers \<Rightarrow> activeRun \<times> viewers) \<Rightarrow> unit run_op" where
  "on_run i f = State (\<lambda>(h, vs).
     case hb_runs h i of
       None \<Rightarrow> ((), (h, vs))
     | Some ar \<Rightarrow> (case f ar vs of (ar, vs) \<Rightarrow> ((), (h\<lparr>hb_runs := (hb_runs h)(i \<mapsto> ar)\<rparr>, vs))))"

definition run_finish :: "env \<Rightarrow> int \<Rightarrow> nat \<Rightarrow> string \<Rightarrow> string \<Rightarrow> int option \<Rightarrow> unit run_op" where
  "run_finish ev i k status msg code = on_run i (update_target k (set_finished status msg code (unix_of (ev_now ev))))"

definition osName :: "string \<Rightarrow> string" where
  "osName os =
     (if os = ''linux'' then ''Linux'' else if os = ''darwin'' then ''macOS'' else if os = ''windows'' then ''Windows'' else [])"

text \<open>The first part of \<open>runOn\<close>: the agent that can run the script.\<close>

definition run_check :: "env \<Rightarrow> int \<Rightarrow> nat \<Rightarrow> activeRun \<Rightarrow> agentConn option run_op" where
  "run_check ev i k ar =
     (if ar_canceled ar then do { run_finish ev i k ''canceled'' [] None; return None }
      else do {
        ac \<leftarrow> on_hub (gets (\<lambda>h. hb_agents h (rt_system_id (ar_targets ar ! k))));
        (case ac of
           None \<Rightarrow> do { run_finish ev i k ''skipped'' ''the system is offline'' None; return None }
         | Some ac \<Rightarrow>
             if \<not> has_feature ac FeatureShell then do {
               run_finish ev i k ''skipped'' ''scripts are disabled on this machine (install the agent with --allow-shell)'' None;
               return None
             }
             else if \<not> shellRunsOn (sr_shell (ar_rec ar)) (si_os (ac_info ac)) then do {
               run_finish ev i k ''skipped''
                 (scriptShells (sr_shell (ar_rec ar)) @ '' scripts do not run on '' @ osName (si_os (ac_info ac))) None;
               return None
             }
             else return (Some ac))
      })"

definition run_open :: "link \<Rightarrow> env \<Rightarrow> int \<Rightarrow> nat \<Rightarrow> agentConn \<Rightarrow> bool run_op" where
  "run_open link ev i k ac = do {
     ch \<leftarrow> on_hub (channel link ac OpenSession);
     (case ch of
        Inl e \<Rightarrow> do { run_finish ev i k ''failed'' (''the agent refused: '' @ e) None; return False }
      | Inr False \<Rightarrow> do { run_finish ev i k ''failed'' ''the agent refused: '' None; return False }
      | Inr True \<Rightarrow> return True)
   }"

definition run_send :: "link \<Rightarrow> env \<Rightarrow> int \<Rightarrow> nat \<Rightarrow> activeRun \<Rightarrow> agentConn \<Rightarrow> bool run_op" where
  "run_send link ev i k ar ac = do {
     ok \<leftarrow> on_hub (channel link ac
       (MsgScript \<lparr>cm_shell = sr_shell (ar_rec ar), cm_script = sr_content (ar_rec ar), cm_timeout = sr_timeout (ar_rec ar)\<rparr>));
     if ok \<noteq> Inr True then do { run_finish ev i k ''failed'' ''this agent cannot run scripts; update it'' None; return False }
     else do { on_run i (update_target k (set_running (unix_of (ev_now ev)))); return True }
   }"

text \<open>The end: the exit status if it came within two seconds, else why the context ended.\<close>

datatype ctx_error = Canceled | DeadlineExceeded

definition run_end :: "env \<Rightarrow> int \<Rightarrow> nat \<Rightarrow> int option \<Rightarrow> ctx_error option \<Rightarrow> unit run_op" where
  "run_end ev i k exit err =
     (case exit of
        Some code \<Rightarrow> run_finish ev i k (if code \<noteq> 0 then ''failed'' else ''done'') [] (Some code)
      | None \<Rightarrow>
          (case err of
             Some Canceled \<Rightarrow> run_finish ev i k ''canceled'' ''stopped by a user'' None
           | Some DeadlineExceeded \<Rightarrow> run_finish ev i k ''failed'' ''the agent did not finish in time'' None
           | None \<Rightarrow> run_finish ev i k ''failed'' ''the connection to the agent was lost'' None))"

section \<open>The whole of a run\<close>

text \<open>The reading loop of \<open>runOn\<close>: every chunk is written to the run; \<open>None\<close> when that does not return.\<close>

definition run_write :: "int \<Rightarrow> nat \<Rightarrow> string \<Rightarrow> hub \<times> viewers \<Rightarrow> (hub \<times> viewers) option" where
  "run_write i k p = (\<lambda>(h, vs).
     case hb_runs h i of
       None \<Rightarrow> Some (h, vs)
     | Some ar \<Rightarrow> map_option (\<lambda>(ar, vs). (h\<lparr>hb_runs := (hb_runs h)(i \<mapsto> ar)\<rparr>, vs)) (write_output k p ar vs))"

fun run_read :: "int \<Rightarrow> nat \<Rightarrow> string list \<Rightarrow> hub \<times> viewers \<Rightarrow> (hub \<times> viewers) option" where
  "run_read i k [] st = Some st"
| "run_read i k (p # ps) st = Option.bind (run_write i k p st) (run_read i k ps)"

definition run_detail :: "string \<Rightarrow> runTarget \<Rightarrow> detail list" where
  "run_detail name t =
     (case rt_exit_code t of
        None \<Rightarrow> [Quoted name, Txt '': '', Txt (rt_status t)]
      | Some c \<Rightarrow> [Quoted name, Txt '': exit status '', Num c]) @
     (if rt_error t \<noteq> [] then [Txt '' ('', Txt (rt_error t), Txt '')''] else []) @
     (if 0 < rt_started_at t then [Txt '' after '', Dur ((rt_finished_at t - rt_started_at t) * second)] else [])"

fun audit_targets :: "env \<Rightarrow> client_ip \<Rightarrow> script_run \<Rightarrow> runTarget list \<Rightarrow> unit hub_op" where
  "audit_targets ev remote rec [] = return ()"
| "audit_targets ev remote rec (t # ts) = do {
     db_log (AddAudit (ev_now ev)
       \<lparr>ae_id = 0, ae_time = 0, ae_username = sr_username rec, ae_action = ''script_run'', ae_system_id = Some (rt_system_id t),
        ae_system_name = rt_system_name t, ae_remote = Some remote, ae_detail = run_detail (sr_name rec) t\<rparr>);
     audit_targets ev remote rec ts
   }"

text \<open>What \<open>execute\<close> does once every system is done.\<close>

definition execute_end :: "env \<Rightarrow> client_ip \<Rightarrow> int \<Rightarrow> activeRun \<Rightarrow> unit run_op" where
  "execute_end ev remote i ar = do {
     let finished = unix_of (ev_now ev);
     let (rec, ts) = snapshotLocked ar;
     on_hub (db_log (FinishRun i finished ts));
     on_hub (audit_targets ev remote rec ts);
     on_run i (finish_run finished)
   }"

text \<open>\<open>runOn\<close> when nothing else happens meanwhile, for the chunks that are read, the exit status and the error of the context.\<close>

definition runOn ::
    "link \<Rightarrow> env \<Rightarrow> int \<Rightarrow> nat \<Rightarrow> activeRun \<Rightarrow> string list \<Rightarrow> int option \<Rightarrow> ctx_error option \<Rightarrow> hub \<times> viewers \<Rightarrow> (hub \<times> viewers) option" where
  "runOn link ev i k ar ps exit err st =
     (case run_state (run_check ev i k ar) st of
        (None, st) \<Rightarrow> Some st
      | (Some ac, st) \<Rightarrow>
          (case run_state (run_open link ev i k ac) st of
             (False, st) \<Rightarrow> Some st
           | (True, st) \<Rightarrow>
               (case run_state (run_send link ev i k ar ac) st of
                  (False, st) \<Rightarrow> Some st
                | (True, st) \<Rightarrow> map_option (\<lambda>st. snd (run_state (run_end ev i k exit err) st)) (run_read i k ps st))))"

text \<open>
  A goroutine of \<open>execute\<close> for one system: it waits for one of the slots or the end of the
  context, then goes through \<open>runOn\<close>. The flag says whether it holds a slot.
\<close>

datatype phase = Checking | Opening agentConn | Sending agentConn | Reading agentConn | Ending
datatype worker = Waiting | Working bool phase | Finished

definition has_slot :: "worker \<Rightarrow> bool" where
  "has_slot w \<longleftrightarrow> (case w of Working slot _ \<Rightarrow> slot | _ \<Rightarrow> False)"

definition slots :: "worker list \<Rightarrow> nat" where
  "slots ws = length (filter has_slot ws)"

record execution =
  ex_id :: int
  ex_hub :: hub
  ex_viewers :: viewers
  ex_workers :: "worker list"
  ex_done :: bool

definition ex_run :: "execution \<Rightarrow> activeRun option" where
  "ex_run s = hb_runs (ex_hub s) (ex_id s)"

definition ex_after :: "execution \<Rightarrow> nat \<Rightarrow> worker \<Rightarrow> hub \<times> viewers \<Rightarrow> execution" where
  "ex_after s k w st = s\<lparr>ex_hub := fst st, ex_viewers := snd st, ex_workers := (ex_workers s)[k := w]\<rparr>"

text \<open>The steps of the run itself; \<open>exec_closed\<close> is the end of the reading loop, when the channel is closed.\<close>

inductive exec_move :: "execution \<Rightarrow> execution \<Rightarrow> bool" where
  exec_slot: "k < length (ex_workers s) \<Longrightarrow> ex_workers s ! k = Waiting \<Longrightarrow> slots (ex_workers s) < runParallel \<Longrightarrow>
    exec_move s (s\<lparr>ex_workers := (ex_workers s)[k := Working True Checking]\<rparr>)"
| exec_give_up: "k < length (ex_workers s) \<Longrightarrow> ex_workers s ! k = Waiting \<Longrightarrow> ex_run s = Some ar \<Longrightarrow> ar_canceled ar \<Longrightarrow>
    exec_move s (s\<lparr>ex_workers := (ex_workers s)[k := Working False Checking]\<rparr>)"
| exec_check: "k < length (ex_workers s) \<Longrightarrow> ex_workers s ! k = Working b Checking \<Longrightarrow> ex_run s = Some ar \<Longrightarrow>
    run_state (run_check ev (ex_id s) k ar) (ex_hub s, ex_viewers s) = (res, st) \<Longrightarrow>
    exec_move s (ex_after s k (case res of None \<Rightarrow> Finished | Some ac \<Rightarrow> Working b (Opening ac)) st)"
| exec_open: "k < length (ex_workers s) \<Longrightarrow> ex_workers s ! k = Working b (Opening ac) \<Longrightarrow>
    run_state (run_open link ev (ex_id s) k ac) (ex_hub s, ex_viewers s) = (ok, st) \<Longrightarrow>
    exec_move s (ex_after s k (if ok then Working b (Sending ac) else Finished) st)"
| exec_send: "k < length (ex_workers s) \<Longrightarrow> ex_workers s ! k = Working b (Sending ac) \<Longrightarrow> ex_run s = Some ar \<Longrightarrow>
    run_state (run_send link ev (ex_id s) k ar ac) (ex_hub s, ex_viewers s) = (ok, st) \<Longrightarrow>
    exec_move s (ex_after s k (if ok then Working b (Reading ac) else Finished) st)"
| exec_closed: "k < length (ex_workers s) \<Longrightarrow> ex_workers s ! k = Working b (Reading ac) \<Longrightarrow>
    exec_move s (s\<lparr>ex_workers := (ex_workers s)[k := Working b Ending]\<rparr>)"
| exec_end: "k < length (ex_workers s) \<Longrightarrow> ex_workers s ! k = Working b Ending \<Longrightarrow> ex_run s = Some ar \<Longrightarrow>
    (err = Some Canceled \<longrightarrow> ar_canceled ar) \<Longrightarrow> (err = None \<longrightarrow> \<not> ar_canceled ar) \<Longrightarrow>
    run_state (run_end ev (ex_id s) k exit err) (ex_hub s, ex_viewers s) = (u, st) \<Longrightarrow>
    exec_move s (ex_after s k Finished st)"
| exec_finish: "\<not> ex_done s \<Longrightarrow> list_all (\<lambda>w. w = Finished) (ex_workers s) \<Longrightarrow> ex_run s = Some ar \<Longrightarrow>
    run_state (execute_end ev remote (ex_id s) ar) (ex_hub s, ex_viewers s) = (u, st) \<Longrightarrow>
    exec_move s (s\<lparr>ex_hub := fst st, ex_viewers := snd st, ex_done := True\<rparr>)"

text \<open>
  What happens meanwhile: output arrives, and the rest of the hub goes on, where viewers come and go and the
  run may be cancelled.
\<close>

inductive exec_other :: "execution \<Rightarrow> execution \<Rightarrow> bool" where
  exec_output: "k < length (ex_workers s) \<Longrightarrow> ex_workers s ! k = Working b (Reading ac) \<Longrightarrow>
    run_write (ex_id s) k p (ex_hub s, ex_viewers s) = Some st \<Longrightarrow> exec_other s (ex_after s k (Working b (Reading ac)) st)"
| exec_hub: "ex_run s = Some ar \<Longrightarrow>
    hb_runs h (ex_id s) = Some (ar\<lparr>ar_subs := subs, ar_canceled := (ar_canceled ar \<or> cancel)\<rparr>) \<Longrightarrow>
    exec_other s (s\<lparr>ex_hub := h, ex_viewers := vs\<rparr>)"

definition exec_step :: "execution \<Rightarrow> execution \<Rightarrow> bool" where
  "exec_step s t \<longleftrightarrow> exec_move s t \<or> \<not> ex_done s \<and> exec_other s t"

text \<open>The start: \<open>postRun\<close> has put the run into memory.\<close>

definition exec_init :: "execution \<Rightarrow> bool" where
  "exec_init s \<longleftrightarrow> (\<exists>rec ts. ex_run s = Some (newActiveRun rec ts) \<and> ex_workers s = replicate (length ts) Waiting) \<and> \<not> ex_done s"

text \<open>After a minute, for late viewers, the run is dropped from memory.\<close>

definition forget_run :: "int \<Rightarrow> unit hub_op" where
  "forget_run i = modify (\<lambda>h. h\<lparr>hb_runs := (hb_runs h)(i := None)\<rparr>)"

section \<open>Looking at runs\<close>

type_synonym runDTO = "script_run \<times> runTarget list"

definition run_dto :: "script_run \<Rightarrow> runDTO hub_op" where
  "run_dto rec = gets (\<lambda>h. case hb_runs h (sr_id rec) of Some ar \<Rightarrow> snapshotLocked ar | None \<Rightarrow> (rec, sr_targets rec))"

fun run_dtos :: "script_run list \<Rightarrow> runDTO list hub_op" where
  "run_dtos [] = return []"
| "run_dtos (rec # recs) = do {
     (rec, ts) \<leftarrow> run_dto rec;
     rest \<leftarrow> run_dtos recs;
     return ((rec\<lparr>sr_content := []\<rparr>, map (\<lambda>t. t\<lparr>rt_output := []\<rparr>) ts) # rest)
   }"

definition getRuns :: "runDTO list reply hub_op" where
  "getRuns = do {
     r \<leftarrow> db (Runs 50);
     (case r of
        Inl _ \<Rightarrow> return internalError
      | Inr recs \<Rightarrow> do { out \<leftarrow> run_dtos recs; return (WriteJSON 200 out) })
   }"

definition lookupRun :: "string \<Rightarrow> ('a reply + script_run) hub_op" where
  "lookupRun idStr = do {
     x \<leftarrow> db (Run (fst (ParseInt idStr)));
     return (case x of
       Inl ErrNotFound \<Rightarrow> Inl (WriteError 404 ''run not found'')
     | Inl _ \<Rightarrow> Inl internalError
     | Inr rec \<Rightarrow> Inr rec)
   }"

definition getRun :: "string \<Rightarrow> runDTO reply hub_op" where
  "getRun idStr = do {
     x \<leftarrow> lookupRun idStr;
     (case x of
        Inl rep \<Rightarrow> return rep
      | Inr rec \<Rightarrow> do { dto \<leftarrow> run_dto rec; return (WriteJSON 200 dto) })
   }"

text \<open>
  The stream of events of a run: refused, at its end after the state was sent, broken because sending the state
  failed, or live on a channel. \<open>flushed\<close> is whether the state could be sent.
\<close>

datatype run_stream = StreamRefused "unit reply" | StreamEnded runDTO "int option" | StreamBroken | StreamLive nat runDTO

definition getRunEvents_open :: "bool \<Rightarrow> nat \<Rightarrow> string \<Rightarrow> session \<Rightarrow> run_stream run_op" where
  "getRunEvents_open flushed c idStr s = do {
     x \<leftarrow> on_hub (lookupRun idStr);
     (case x of
        Inl rep \<Rightarrow> return (StreamRefused rep)
      | Inr rec \<Rightarrow> do {
          ref \<leftarrow> on_hub (track s RoleOperator);
          ar \<leftarrow> on_hub (gets (\<lambda>h. hb_runs h (sr_id rec)));
          (case ar of
             None \<Rightarrow> do {
               dto \<leftarrow> on_hub (run_dto rec);
               on_hub (untrack ref);
               return (StreamEnded dto (sr_finished_at rec))
             }
           | Some ar \<Rightarrow> do {
               on_run (sr_id rec) (subscribe c);
               if \<not> flushed then do { on_hub (untrack ref); return StreamBroken }
               else if ar_done ar then do {
                 on_hub (untrack ref);
                 return (StreamEnded (snapshotLocked ar) (sr_finished_at (ar_rec ar)))
               }
               else return (StreamLive ref (snapshotLocked ar))
             })
        })
   }"

definition getRunEvents_close :: "nat \<Rightarrow> int \<Rightarrow> nat \<Rightarrow> unit run_op" where
  "getRunEvents_close c i ref = do {
     on_run i (unsubscribe c);
     on_hub (untrack ref)
   }"

definition postRunCancel :: "env \<Rightarrow> request \<Rightarrow> string \<Rightarrow> session \<Rightarrow> unit reply hub_op" where
  "postRunCancel ev r idStr s = do {
     x \<leftarrow> lookupRun idStr;
     (case x of
        Inl rep \<Rightarrow> return rep
      | Inr rec \<Rightarrow> do {
          ar \<leftarrow> gets (\<lambda>h. hb_runs h (sr_id rec));
          (case (ar, sr_finished_at rec) of
             (Some ar, None) \<Rightarrow> do {
               modify (\<lambda>h. h\<lparr>hb_runs := (hb_runs h)(sr_id rec \<mapsto> ar\<lparr>ar_canceled := True\<rparr>)\<rparr>);
               audit ev (Some r) (u_username (ss_user s)) ''script_canceled'' None [Quoted (sr_name rec)];
               return NoContent
             }
           | _ \<Rightarrow> return (WriteError 409 ''the run has finished''))
        })
   }"

section \<open>After a restart\<close>

definition interrupted :: "runTarget \<Rightarrow> runTarget" where
  "interrupted t =
     (if rt_status t = ''pending'' \<or> rt_status t = ''running''
      then t\<lparr>rt_status := ''failed'', rt_error := ''the hub restarted during the run''\<rparr> else t)"

fun finish_interrupted :: "script_run list \<Rightarrow> (db_error + unit) hub_op" where
  "finish_interrupted [] = return (Inr ())"
| "finish_interrupted (rec # recs) = do {
     x \<leftarrow> db (FinishRun (sr_id rec) (sr_started_at rec) (map interrupted (sr_targets rec)));
     (case x of Inl e \<Rightarrow> return (Inl e) | Inr _ \<Rightarrow> finish_interrupted recs)
   }"

definition finishInterruptedRuns :: "(db_error + unit) hub_op" where
  "finishInterruptedRuns = do {
     r \<leftarrow> db UnfinishedRuns;
     (case r of Inl e \<Rightarrow> return (Inl e) | Inr recs \<Rightarrow> finish_interrupted recs)
   }"

section \<open>Every run ends, with bounded parallelism\<close>

definition final_status :: "string \<Rightarrow> bool" where
  "final_status st \<longleftrightarrow> st \<in> {''done'', ''failed'', ''skipped'', ''canceled''}"

abbreviation final_target :: "runTarget \<Rightarrow> bool" where
  "final_target t \<equiv> final_status (rt_status t)"

lemma final_statuses [simp]:
  "final_status ''done''" "final_status ''failed''" "final_status ''skipped''" "final_status ''canceled''"
  by (simp_all add: final_status_def)

definition can_run :: "activeRun \<Rightarrow> agentConn \<Rightarrow> bool" where
  "can_run ar ac \<longleftrightarrow> has_feature ac FeatureShell \<and> shellRunsOn (sr_shell (ar_rec ar)) (si_os (ac_info ac))"

definition worker_ok :: "activeRun \<Rightarrow> worker \<Rightarrow> runTarget \<Rightarrow> bool" where
  "worker_ok ar w t =
     (case w of
        Waiting \<Rightarrow> True
      | Finished \<Rightarrow> final_target t
      | Working b p \<Rightarrow>
          (b \<or> p = Checking \<and> ar_canceled ar) \<and>
          (case p of Opening ac \<Rightarrow> can_run ar ac | Sending ac \<Rightarrow> can_run ar ac | Reading ac \<Rightarrow> can_run ar ac | _ \<Rightarrow> True))"

definition run_shape :: "activeRun \<Rightarrow> nat \<Rightarrow> bool" where
  "run_shape ar n \<longleftrightarrow> length (ar_targets ar) = n \<and> length (ar_output ar) = n \<and> length (ar_partial ar) = n"

definition exec_inv :: "execution \<Rightarrow> bool" where
  "exec_inv s \<longleftrightarrow> slots (ex_workers s) \<le> runParallel \<and> (ex_done s \<longrightarrow> list_all (\<lambda>w. w = Finished) (ex_workers s)) \<and>
     (\<exists>ar. ex_run s = Some ar \<and> run_shape ar (length (ex_workers s)) \<and>
        (\<forall>k < length (ex_workers s). worker_ok ar (ex_workers s ! k) (ar_targets ar ! k)))"

lemma slots_update:
  "k < length ws \<Longrightarrow> slots (ws[k := w]) + (if has_slot (ws ! k) then 1 else 0) = slots ws + (if has_slot w then 1 else 0)"
proof (induction ws arbitrary: k)
  case (Cons v ws)
  then show ?case by (cases k) (auto simp: slots_def)
qed simp

lemma run_on_run:
  "hb_runs h i = Some ar \<Longrightarrow> run_state (on_run i f) (h, vs) = ((), (h\<lparr>hb_runs := (hb_runs h)(i \<mapsto> fst (f ar vs))\<rparr>, snd (f ar vs)))"
  by (simp add: on_run_def split: prod.splits)

text \<open>The target \<open>k\<close> of the run is changed, and nothing else of it.\<close>

definition retargeted :: "int \<Rightarrow> nat \<Rightarrow> activeRun \<Rightarrow> runTarget \<Rightarrow> hub \<times> viewers \<Rightarrow> bool" where
  "retargeted i k ar t st \<longleftrightarrow> hb_runs (fst st) i = Some (ar\<lparr>ar_targets := (ar_targets ar)[k := t]\<rparr>)"

definition ended :: "int \<Rightarrow> nat \<Rightarrow> activeRun \<Rightarrow> hub \<times> viewers \<Rightarrow> bool" where
  "ended i k ar st \<longleftrightarrow> (\<exists>t. final_target t \<and> retargeted i k ar t st)"

lemma run_finish_final:
  assumes "hb_runs h i = Some ar" and "final_status status"
  shows "ended i k ar (snd (run_state (run_finish ev i k status msg code) (h, vs)))"
  unfolding ended_def
proof
  let ?t = "set_finished status msg code (unix_of (ev_now ev)) (ar_targets ar ! k)"
  show "final_target ?t \<and> retargeted i k ar ?t (snd (run_state (run_finish ev i k status msg code) (h, vs)))"
    using assms by (simp add: run_finish_def run_on_run update_target_def Let_def retargeted_def set_finished_def)
qed

lemma run_check_cases:
  assumes "hb_runs h i = Some ar" and "run_state (run_check ev i k ar) (h, vs) = (res, st)"
  shows "case res of
      None \<Rightarrow> ended i k ar st
    | Some ac \<Rightarrow> st = (h, vs) \<and> can_run ar ac \<and> \<not> ar_canceled ar"
proof (cases "ar_canceled ar")
  case True
  with assms show ?thesis using run_finish_final [OF assms(1)] by (auto simp: run_check_def case_prod_beta)
next
  case False
  show ?thesis
  proof (cases "hb_agents h (rt_system_id (ar_targets ar ! k))")
    case None
    with False assms show ?thesis using run_finish_final [OF assms(1)] by (auto simp: run_check_def case_prod_beta)
  next
    case (Some ac)
    with False assms show ?thesis using run_finish_final [OF assms(1)]
      by (auto simp: run_check_def case_prod_beta can_run_def split: if_splits dest!: sym [of "Some ac"])
  qed
qed

lemma run_channel: "run_state (channel link ac msg) h = (r, h') \<Longrightarrow> hb_runs h' = hb_runs h"
  by (auto simp: channel_def split: answer.splits)

lemma run_open_cases:
  assumes "hb_runs h i = Some ar" and "run_state (run_open link ev i k ac) (h, vs) = (ok, st)"
  shows "if ok then hb_runs (fst st) i = Some ar else ended i k ar st"
proof -
  obtain r h1 where c: "run_state (channel link ac OpenSession) h = (r, h1)" by fastforce
  then have h1: "hb_runs h1 i = Some ar" using run_channel assms(1) by metis
  show ?thesis
    using assms(2) c h1 run_finish_final [OF h1]
    by (cases r) (auto simp: run_open_def case_prod_beta split: bool.splits)
qed

lemma run_send_cases:
  assumes "hb_runs h i = Some ar" and "run_state (run_send link ev i k ar ac) (h, vs) = (ok, st)"
  shows "if ok then \<exists>t. retargeted i k ar t st else ended i k ar st"
proof -
  let ?msg = "MsgScript \<lparr>cm_shell = sr_shell (ar_rec ar), cm_script = sr_content (ar_rec ar), cm_timeout = sr_timeout (ar_rec ar)\<rparr>"
  let ?run = "set_running (unix_of (ev_now ev)) (ar_targets ar ! k)"
  obtain r h1 where c: "run_state (channel link ac ?msg) h = (r, h1)" by fastforce
  then have h1: "hb_runs h1 i = Some ar" using run_channel assms(1) by metis
  have run: "retargeted i k ar ?run (snd (run_state (on_run i (update_target k (set_running (unix_of (ev_now ev))))) (h1, vs)))"
    using h1 by (simp add: run_on_run update_target_def Let_def retargeted_def)
  show ?thesis
  proof (cases "r = Inr True")
    case True
    with assms(2) c run show ?thesis by (auto simp: run_send_def split: prod.splits)
  next
    case False
    with assms(2) c run_finish_final [OF h1] show ?thesis by (auto simp: run_send_def case_prod_beta)
  qed
qed

lemma run_end_final:
  assumes "hb_runs h i = Some ar"
  shows "ended i k ar (snd (run_state (run_end ev i k exit err) (h, vs)))"
  using run_finish_final [OF assms]
  by (simp add: run_end_def split: option.splits ctx_error.splits)

text \<open>The invariant after a change of one worker and its target.\<close>

lemma exec_inv_update:
  assumes "exec_inv s" and "ex_run s = Some ar" and "k < length (ex_workers s)" and "ex_workers s ! k \<noteq> Finished"
    and "hb_runs (fst st) (ex_id s) = Some (ar\<lparr>ar_targets := (ar_targets ar)[k := t]\<rparr>)"
    and "worker_ok ar w t" and "has_slot w \<longrightarrow> has_slot (ex_workers s ! k)"
  shows "exec_inv (ex_after s k w st)"
proof -
  let ?ar = "ar\<lparr>ar_targets := (ar_targets ar)[k := t]\<rparr>"
  have ok: "worker_ok ?ar v u = worker_ok ar v u" for v u
    by (simp add: worker_ok_def can_run_def split: worker.splits phase.splits)
  have "slots ((ex_workers s)[k := w]) \<le> slots (ex_workers s)"
    using slots_update [OF assms(3), of w] assms(7) by (auto split: if_splits)
  moreover have "\<not> ex_done s" using assms(1,3,4) by (auto simp: exec_inv_def list_all_length)
  ultimately show ?thesis
    using assms by (auto simp: exec_inv_def ex_after_def ex_run_def run_shape_def ok nth_list_update)
qed

lemma exec_inv_ended:
  assumes "exec_inv s" and "ex_run s = Some ar" and "k < length (ex_workers s)" and "ex_workers s ! k \<noteq> Finished"
    and "ended (ex_id s) k ar st"
  shows "exec_inv (ex_after s k Finished st)"
proof -
  from assms(5) obtain t where "final_target t" "hb_runs (fst st) (ex_id s) = Some (ar\<lparr>ar_targets := (ar_targets ar)[k := t]\<rparr>)"
    by (auto simp: ended_def retargeted_def)
  with assms show ?thesis by (intro exec_inv_update) (auto simp: worker_ok_def has_slot_def)
qed

lemma exec_inv_same:
  assumes "exec_inv s" and "ex_run s = Some ar" and "k < length (ex_workers s)" and "ex_workers s ! k \<noteq> Finished"
    and "hb_runs (fst st) (ex_id s) = Some ar" and "worker_ok ar w (ar_targets ar ! k)" and "has_slot w \<longrightarrow> has_slot (ex_workers s ! k)"
  shows "exec_inv (ex_after s k w st)"
proof -
  have "ar\<lparr>ar_targets := (ar_targets ar)[k := ar_targets ar ! k]\<rparr> = ar" by simp
  with assms show ?thesis by (intro exec_inv_update) auto
qed

lemma exec_inv_worker:
  assumes "exec_inv s" and "k < length (ex_workers s)"
  obtains ar where "ex_run s = Some ar" and "worker_ok ar (ex_workers s ! k) (ar_targets ar ! k)"
  using assms by (auto simp: exec_inv_def)

lemma audit_targets_keeps:
  "hb_runs (snd (run_state (audit_targets ev remote rec ts) h)) = hb_runs h \<and>
   st_runs (hb_store (snd (run_state (audit_targets ev remote rec ts) h))) = st_runs (hb_store h)"
  by (induction ts arbitrary: h) simp_all


text \<open>What is stored when the run ends, unless the statement fails.\<close>

lemma execute_end_result:
  assumes "hb_runs h i = Some ar" and "run_state (execute_end ev remote i ar) (h, vs) = (u, st)"
  shows "hb_runs (fst st) i = Some (ar\<lparr>ar_rec := (ar_rec ar)\<lparr>sr_finished_at := Some (unix_of (ev_now ev))\<rparr>, ar_done := True, ar_subs := []\<rparr>)"
    and "st_runs (hb_store (fst st)) = (if fault (hb_store h) then st_runs (hb_store h)
      else map (\<lambda>r. if sr_id r = i then r\<lparr>sr_finished_at := Some (unix_of (ev_now ev)), sr_targets := snd (snapshotLocked ar),
        sr_summary := targetsSummary (snd (snapshotLocked ar))\<rparr> else r) (st_runs (hb_store h)))"
proof -
  let ?ts = "snd (snapshotLocked ar)" and ?rec = "fst (snapshotLocked ar)"
  let ?h1 = "h\<lparr>hb_store := snd (FinishRun i (unix_of (ev_now ev)) ?ts (hb_store h))\<rparr>"
  let ?h2 = "snd (run_state (audit_targets ev remote ?rec ?ts) ?h1)"
  have h2: "hb_runs ?h2 i = Some ar" "st_runs (hb_store ?h2) = st_runs (hb_store ?h1)"
    using audit_targets_keeps [of ev remote ?rec ?ts ?h1] assms(1) by simp_all
  have "st = snd (run_state (on_run i (finish_run (unix_of (ev_now ev)))) (?h2, vs))"
    using assms(2) by (simp add: execute_end_def Let_def case_prod_beta)
  then have st: "st = (?h2\<lparr>hb_runs := (hb_runs ?h2)(i \<mapsto> fst (finish_run (unix_of (ev_now ev)) ar vs))\<rparr>, snd (finish_run (unix_of (ev_now ev)) ar vs))"
    using run_on_run [OF h2(1)] by simp
  show "hb_runs (fst st) i = Some (ar\<lparr>ar_rec := (ar_rec ar)\<lparr>sr_finished_at := Some (unix_of (ev_now ev))\<rparr>, ar_done := True, ar_subs := []\<rparr>)"
    by (simp add: st finish_run_def Let_def)
  show "st_runs (hb_store (fst st)) = (if fault (hb_store h) then st_runs (hb_store h)
      else map (\<lambda>r. if sr_id r = i then r\<lparr>sr_finished_at := Some (unix_of (ev_now ev)), sr_targets := ?ts,
        sr_summary := targetsSummary ?ts\<rparr> else r) (st_runs (hb_store h)))"
    using h2(2) by (simp add: st FinishRun_def exec_tick audit_targets_keeps)
qed

lemma ex_after_here: "s\<lparr>ex_workers := (ex_workers s)[k := w]\<rparr> = ex_after s k w (ex_hub s, ex_viewers s)"
  by (simp add: ex_after_def)

lemma exec_inv_move:
  assumes "exec_move s t" and "exec_inv s"
  shows "exec_inv t"
  using assms
proof (induction rule: exec_move.induct)
  case (exec_slot k s)
  from slots_update [OF exec_slot(1), of "Working True Checking"] exec_slot
  have "slots ((ex_workers s)[k := Working True Checking]) \<le> runParallel" by (simp add: has_slot_def)
  with exec_slot show ?case by (auto simp: exec_inv_def ex_run_def nth_list_update worker_ok_def list_all_length)
next
  case (exec_give_up k s ar)
  then show ?case unfolding ex_after_here by (intro exec_inv_same) (auto simp: ex_run_def worker_ok_def has_slot_def)
next
  case (exec_check k s b ar ev res st)
  then have r: "hb_runs (ex_hub s) (ex_id s) = Some ar" by (simp add: ex_run_def)
  obtain ar' where "ex_run s = Some ar'" "worker_ok ar' (ex_workers s ! k) (ar_targets ar' ! k)"
    using exec_inv_worker exec_check.prems exec_check(1) by blast
  with exec_check(2,3) have w: "b \<or> ar_canceled ar" by (simp add: worker_ok_def)
  show ?case
  proof (cases res)
    case None
    with run_check_cases [OF r exec_check(4)] exec_check show ?thesis by (auto intro!: exec_inv_ended)
  next
    case (Some ac)
    with run_check_cases [OF r exec_check(4)] exec_check r w show ?thesis
      by (auto intro!: exec_inv_same simp: worker_ok_def has_slot_def)
  qed
next
  case (exec_open k s b ac link ev ok st)
  then obtain ar where ar: "ex_run s = Some ar" "worker_ok ar (ex_workers s ! k) (ar_targets ar ! k)"
    using exec_inv_worker by blast
  then have r: "hb_runs (ex_hub s) (ex_id s) = Some ar" by (simp add: ex_run_def)
  show ?case using run_open_cases [OF r exec_open(3)] exec_open ar
    by (cases ok) (auto intro!: exec_inv_same exec_inv_ended simp: worker_ok_def has_slot_def)
next
  case (exec_send k s b ac ar link ev ok st)
  then have r: "hb_runs (ex_hub s) (ex_id s) = Some ar" by (simp add: ex_run_def)
  have w: "worker_ok ar (Working b (Sending ac)) (ar_targets ar ! k)"
    using exec_inv_worker [OF exec_send.prems exec_send(1)] exec_send(2,3) by (metis option.inject)
  show ?case
  proof (cases ok)
    case True
    with run_send_cases [OF r exec_send(4)] obtain t where "retargeted (ex_id s) k ar t st" by auto
    with True exec_send w show ?thesis
      by (auto intro!: exec_inv_update simp: retargeted_def worker_ok_def has_slot_def)
  next
    case False
    with run_send_cases [OF r exec_send(4)] exec_send show ?thesis by (auto intro!: exec_inv_ended)
  qed
next
  case (exec_closed k s b ac)
  then obtain ar where "ex_run s = Some ar" "worker_ok ar (ex_workers s ! k) (ar_targets ar ! k)"
    using exec_inv_worker by blast
  with exec_closed show ?case
    unfolding ex_after_here by (intro exec_inv_same) (auto simp: ex_run_def worker_ok_def has_slot_def)
next
  case (exec_end k s b ar err ev exit u st)
  then have r: "hb_runs (ex_hub s) (ex_id s) = Some ar" by (simp add: ex_run_def)
  have "ended (ex_id s) k ar st" using run_end_final [OF r, of k ev exit err "ex_viewers s"] exec_end(6) by simp
  with exec_end show ?case by (auto intro!: exec_inv_ended)
next
  case (exec_finish s ar ev remote u st)
  then have r: "hb_runs (ex_hub s) (ex_id s) = Some ar" by (simp add: ex_run_def)
  from exec_finish execute_end_result(1) [OF r exec_finish(4)] show ?case
    by (auto simp: exec_inv_def ex_run_def run_shape_def worker_ok_def list_all_length)
qed

lemma run_write_keeps:
  assumes "run_write i k p (h, vs) = Some st" and "hb_runs h i = Some ar"
  shows "\<exists>o' q b. hb_runs (fst st) i = Some (ar\<lparr>ar_output := (ar_output ar)[k := o'],
    ar_targets := (ar_targets ar)[k := (ar_targets ar ! k)\<lparr>rt_truncated := b\<rparr>], ar_partial := (ar_partial ar)[k := q]\<rparr>)"
  using assms by (auto simp: run_write_def write_output_def Let_def split: Option.bind_splits intro!: exI)

lemma exec_inv_other:
  assumes "exec_other s t" and "exec_inv s"
  shows "exec_inv t"
  using assms
proof (induction rule: exec_other.induct)
  case (exec_output k s b ac p st)
  then obtain ar where ar: "ex_run s = Some ar" "worker_ok ar (ex_workers s ! k) (ar_targets ar ! k)"
    using exec_inv_worker by blast
  then have r: "hb_runs (ex_hub s) (ex_id s) = Some ar" by (simp add: ex_run_def)
  obtain o' q c where new: "hb_runs (fst st) (ex_id s) = Some (ar\<lparr>ar_output := (ar_output ar)[k := o'],
      ar_targets := (ar_targets ar)[k := (ar_targets ar ! k)\<lparr>rt_truncated := c\<rparr>], ar_partial := (ar_partial ar)[k := q]\<rparr>)"
    using run_write_keeps [OF exec_output(3) r] by blast
  have same: "(ex_workers s)[k := Working b (Reading ac)] = ex_workers s" using exec_output(2) by (metis list_update_id)
  have ok: "worker_ok (ar\<lparr>ar_output := x, ar_targets := z, ar_partial := y\<rparr>) w u = worker_ok ar w u" for x y z w u
    by (simp add: worker_ok_def can_run_def split: worker.splits phase.splits)
  have ok': "worker_ok ar w (u\<lparr>rt_truncated := c\<rparr>) = worker_ok ar w u" for w u
    by (simp add: worker_ok_def split: worker.splits)
  show ?case using exec_output ar new
    by (auto simp: exec_inv_def ex_after_def ex_run_def run_shape_def same ok ok' nth_list_update)
next
  case (exec_hub s ar h cancel subs vs)
  have ok: "worker_ok (ar\<lparr>ar_subs := subs, ar_canceled := ar_canceled ar \<or> cancel\<rparr>) w u" if "worker_ok ar w u" for w u
    using that by (auto simp: worker_ok_def can_run_def split: worker.splits phase.splits)
  from exec_hub show ?case by (auto simp: exec_inv_def ex_run_def run_shape_def intro: ok)
qed

lemma exec_inv_init: "exec_init s \<Longrightarrow> exec_inv s"
  by (auto simp: exec_init_def exec_inv_def newActiveRun_def run_shape_def worker_ok_def slots_def has_slot_def filter_replicate)

interpretation run_execution: invariant_system exec_init exec_step exec_inv
  by unfold_locales (auto simp: exec_step_def intro: exec_inv_init exec_inv_move exec_inv_other)









definition in_script :: "worker \<Rightarrow> bool" where
  "in_script w \<longleftrightarrow> (case w of Working _ p \<Rightarrow> p \<noteq> Checking | _ \<Rightarrow> False)"

definition script_agent :: "worker \<Rightarrow> agentConn option" where
  "script_agent w =
     (case w of Working _ (Opening ac) \<Rightarrow> Some ac | Working _ (Sending ac) \<Rightarrow> Some ac | Working _ (Reading ac) \<Rightarrow> Some ac | _ \<Rightarrow> None)"

lemma filter_length_le: "list_all (\<lambda>x. P x \<longrightarrow> Q x) xs \<Longrightarrow> length (filter P xs) \<le> length (filter Q xs)"
  by (induction xs) auto

text \<open>
  While a run is executed, in any interleaving of its systems with the rest of the hub, at most
  sixteen of them are past the check at a time, and the script goes only to agents that announced that their owners allowed
  it, on an operating system that has the shell.
\<close>

theorem run_parallelism_bounded:
  assumes "exec_init s" and "reaches exec_step s t"
  shows "length (filter in_script (ex_workers t)) \<le> 16 \<and>
    (\<exists>ar. ex_run t = Some ar \<and> list_all (\<lambda>w. case script_agent w of None \<Rightarrow> True
       | Some ac \<Rightarrow> FeatureShell \<in> set (ac_features ac) \<and> shellRunsOn (sr_shell (ar_rec ar)) (si_os (ac_info ac))) (ex_workers t))"
proof -
  have inv: "exec_inv t" using run_execution.inv_reachable assms by blast
  then obtain ar where ar: "ex_run t = Some ar" "\<forall>k < length (ex_workers t). worker_ok ar (ex_workers t ! k) (ar_targets ar ! k)"
    by (auto simp: exec_inv_def)
  have "list_all (\<lambda>w. in_script w \<longrightarrow> has_slot w) (ex_workers t)"
    using ar(2) by (fastforce simp: list_all_length in_script_def has_slot_def worker_ok_def split: worker.splits)
  from filter_length_le [OF this] inv have "length (filter in_script (ex_workers t)) \<le> 16"
    by (simp add: exec_inv_def slots_def runParallel_def)
  moreover have "list_all (\<lambda>w. case script_agent w of None \<Rightarrow> True
       | Some ac \<Rightarrow> FeatureShell \<in> set (ac_features ac) \<and> shellRunsOn (sr_shell (ar_rec ar)) (si_os (ac_info ac))) (ex_workers t)"
    using ar(2) by (fastforce simp: list_all_length script_agent_def worker_ok_def can_run_def has_feature_def split: worker.splits phase.splits)
  ultimately show ?thesis using ar(1) by blast
qed


section \<open>A system on its own\<close>

lemma ex_after_simps [simp]:
  "ex_after (ex_after s k w st) k w' st' = ex_after s k w' st'" "ex_id (ex_after s k w st) = ex_id s"
  "ex_done (ex_after s k w st) = ex_done s" "length (ex_workers (ex_after s k w st)) = length (ex_workers s)"
  "ex_hub (ex_after s k w st) = fst st" "ex_viewers (ex_after s k w st) = snd st"
  "k < length (ex_workers s) \<Longrightarrow> ex_workers (ex_after s k w st) ! k = w"
  "ex_run (ex_after s k w st) = hb_runs (fst st) (ex_id s)"
  by (simp_all add: ex_after_def ex_run_def)

lemma two_moves: "exec_move s t \<Longrightarrow> exec_move t u \<Longrightarrow> reaches exec_step s u"
  by (meson exec_step_def reaches_refl reaches_step)

lemma move_then: "exec_move s t \<Longrightarrow> reaches exec_step t u \<Longrightarrow> reaches exec_step s u"
  by (rule reaches_trans [OF reaches_single]) (simp_all add: exec_step_def)

text \<open>The reading loop is a sequence of arrivals of output.\<close>

lemma run_read_steps:
  assumes "k < length (ex_workers s)" and "\<not> ex_done s" and "hb_runs (fst st) (ex_id s) = Some ar"
    and "run_read (ex_id s) k ps st = Some st'"
  shows "reaches exec_step (ex_after s k (Working b (Reading ac)) st) (ex_after s k (Working b (Reading ac)) st') \<and>
    (\<exists>ar'. hb_runs (fst st') (ex_id s) = Some ar' \<and> ar_canceled ar' = ar_canceled ar)"
  using assms(3,4)
proof (induction ps arbitrary: st ar)
  case Nil
  then show ?case by (auto intro: reaches_refl)
next
  case (Cons p ps)
  let ?s = "ex_after s k (Working b (Reading ac)) st"
  obtain st1 where w: "run_write (ex_id s) k p st = Some st1" and r: "run_read (ex_id s) k ps st1 = Some st'"
    using Cons.prems(2) by (auto split: Option.bind_splits)
  obtain ar1 where ar1: "hb_runs (fst st1) (ex_id s) = Some ar1" "ar_canceled ar1 = ar_canceled ar"
    using run_write_keeps [of "ex_id s" k p "fst st" "snd st" st1 ar] w Cons.prems(1) by auto
  have "exec_other ?s (ex_after ?s k (Working b (Reading ac)) st1)"
    using assms(1) w by (intro exec_output [where p = p]) simp_all
  then have "exec_step ?s (ex_after s k (Working b (Reading ac)) st1)" using assms(2) by (simp add: exec_step_def)
  from reaches_trans [OF reaches_single, of exec_step, OF this] Cons.IH [OF ar1(1) r] ar1(2) show ?case by auto
qed

text \<open>\<open>runOn\<close> as a whole is one way through the steps of its worker.\<close>

lemma runOn_steps:
  assumes k: "k < length (ex_workers s)" "ex_workers s ! k = Working b Checking" and "\<not> ex_done s" and ar: "ex_run s = Some ar"
    and err: "err = Some Canceled \<longrightarrow> ar_canceled ar" "err = None \<longrightarrow> \<not> ar_canceled ar"
    and run: "runOn link ev (ex_id s) k ar ps exit err (ex_hub s, ex_viewers s) = Some st"
  shows "reaches exec_step s (ex_after s k Finished st)"
proof -
  have h: "hb_runs (ex_hub s) (ex_id s) = Some ar" using ar by (simp add: ex_run_def)
  obtain res st1 where c: "run_state (run_check ev (ex_id s) k ar) (ex_hub s, ex_viewers s) = (res, st1)" by (rule that [OF prod.collapse [symmetric]])
  note move1 = exec_check [OF k ar c]
  show ?thesis
  proof (cases res)
    case None
    with move1 c run show ?thesis by (auto simp: runOn_def intro: move_then reaches_refl)
  next
    case (Some ac)
    with run_check_cases [OF h c] have st1: "st1 = (ex_hub s, ex_viewers s)" by simp
    let ?s1 = "ex_after s k (Working b (Opening ac)) st1"
    obtain ok st2 where o: "run_state (run_open link ev (ex_id s) k ac) (ex_hub s, ex_viewers s) = (ok, st2)" by (rule that [OF prod.collapse [symmetric]])
    have move2: "exec_move ?s1 (ex_after s k (if ok then Working b (Sending ac) else Finished) st2)"
      using exec_open [of k ?s1 b ac link ev ok st2] k o st1 by simp
    have s1: "reaches exec_step s (ex_after s k (if ok then Working b (Sending ac) else Finished) st2)"
      using two_moves [OF _ move2, of s] move1 Some by simp
    show ?thesis
    proof (cases ok)
      case False
      with s1 run c o Some st1 show ?thesis by (simp add: runOn_def)
    next
      case True
      with run_open_cases [OF h o] have h2: "hb_runs (fst st2) (ex_id s) = Some ar" by simp
      let ?s2 = "ex_after s k (Working b (Sending ac)) st2"
      obtain ok' st3 where m: "run_state (run_send link ev (ex_id s) k ar ac) st2 = (ok', st3)" by (rule that [OF prod.collapse [symmetric]])
      have "exec_move ?s2 (ex_after s k (if ok' then Working b (Reading ac) else Finished) st3)"
        using exec_send [of k ?s2 b ac ar link ev ok' st3] k m h2 by simp
      with s1 True have s3: "reaches exec_step s (ex_after s k (if ok' then Working b (Reading ac) else Finished) st3)"
        by (auto intro: reaches_step simp: exec_step_def)
      show ?thesis
      proof (cases ok')
        case False
        with s3 run c o m Some st1 True show ?thesis by (simp add: runOn_def)
      next
        case ok': True
        obtain t where h3: "hb_runs (fst st3) (ex_id s) = Some (ar\<lparr>ar_targets := (ar_targets ar)[k := t]\<rparr>)"
          using run_send_cases [of "fst st2" "ex_id s" ar link ev k ac "snd st2"] h2 m ok' by (auto simp: retargeted_def)
        obtain st4 where r: "run_read (ex_id s) k ps st3 = Some st4" and st: "st = snd (run_state (run_end ev (ex_id s) k exit err) st4)"
          using run c o m Some st1 True ok' by (auto simp: runOn_def)
        let ?s4 = "ex_after s k (Working b (Reading ac)) st4" and ?s5 = "ex_after s k (Working b Ending) st4"
        from run_read_steps [OF k(1) assms(3) h3 r, of b ac] obtain ar4 where s4: "reaches exec_step (ex_after s k (Working b (Reading ac)) st3) ?s4"
          and ar4: "hb_runs (fst st4) (ex_id s) = Some ar4" "ar_canceled ar4 = ar_canceled ar" by auto
        have "exec_move ?s4 (?s4\<lparr>ex_workers := (ex_workers ?s4)[k := Working b Ending]\<rparr>)"
          using k by (intro exec_closed [where ac = ac]) simp_all
        then have "exec_move ?s4 ?s5" by (simp add: ex_after_here)
        moreover have "exec_move ?s5 (ex_after ?s5 k Finished st)"
          using k ar4 err st by (intro exec_end [where ar = ar4 and u = "()" and ev = ev and exit = exit and err = err]) (simp_all add: prod_eq_iff)
        ultimately have "reaches exec_step ?s4 (ex_after s k Finished st)" using two_moves by simp
        with s3 s4 ok' show ?thesis by (auto intro: reaches_trans)
      qed
    qed
  qed
qed

section \<open>An example\<close>

definition run_hub :: hub where
  "run_hub = live_hub\<lparr>hb_runs := [1 \<mapsto> newActiveRun sample_run [pending_target (demo_system 7 ''nas'')]]\<rparr>"

definition demo_execution :: execution where
  "demo_execution = \<lparr>ex_id = 1, ex_hub = run_hub, ex_viewers = (\<lambda>_. None), ex_workers = [Waiting], ex_done = False\<rparr>"

lemma demo_execution_init: "exec_init demo_execution"
  by (auto simp: exec_init_def demo_execution_def run_hub_def ex_run_def intro!: exI [of _ sample_run] exI [of _ "[pending_target (demo_system 7 ''nas'')]"])

definition demo_started :: execution where
  "demo_started = demo_execution\<lparr>ex_workers := [Working True Checking]\<rparr>"

lemma demo_started_reached: "reaches exec_step demo_execution demo_started"
proof (rule reaches_single)
  have "exec_move demo_execution (demo_execution\<lparr>ex_workers := (ex_workers demo_execution)[0 := Working True Checking]\<rparr>)"
    by (rule exec_slot) (auto simp: demo_execution_def slots_def has_slot_def runParallel_def)
  then show "exec_step demo_execution demo_started" by (simp add: exec_step_def demo_started_def demo_execution_def)
qed

theorem run_parallelism_bounded_witness:
  "length (filter in_script (ex_workers demo_started)) \<le> 16 \<and> ex_run demo_started \<noteq> None"
  using run_parallelism_bounded [OF demo_execution_init demo_started_reached] by auto


section \<open>Requests\<close>

text \<open>A run is only started by a user who confirmed recently, and its script passed the checks.\<close>

lemma run_targets_length: "run_state (run_targets is) h = (Some ts, h') \<Longrightarrow> length ts = length is"
  by (induction "is" arbitrary: h ts h') (fastforce split: sum.splits prod.splits)+

lemma validateScript_ok:
  assumes "validateScript sc = (sc', [])"
  shows "scriptShells (sc_shell sc') \<noteq> [] \<and> 1 \<le> sc_timeout sc' \<and> sc_timeout sc' \<le> maxRunTimeout \<and> length (sc_content sc') \<le> maxScriptSize"
  using assms by (auto simp: validateScript_def Let_def split: if_splits)

lemma start_run_checked:
  assumes "run_state (start_run ev r s req sc) h = (WriteJSON n i, h')"
  shows "\<exists>ar. hb_runs h' i = Some ar \<and> ar = newActiveRun (ar_rec ar) (ar_targets ar) \<and> ar_targets ar \<noteq> [] \<and>
    length (ar_targets ar) \<le> maxRunTargets \<and> scriptShells (sr_shell (ar_rec ar)) \<noteq> [] \<and> 1 \<le> sr_timeout (ar_rec ar) \<and>
    sr_timeout (ar_rec ar) \<le> maxRunTimeout \<and> length (sr_content (ar_rec ar)) \<le> maxScriptSize"
proof -
  let ?ids = "remdups_adj (sort (rr_systems req))"
  obtain sc' msg where v: "validateScript sc = (sc', msg)" by fastforce
  obtain ts h1 where ts: "run_state (run_targets ?ids) h = (ts, h1)" by fastforce
  have m: "msg = []" using assms v by (auto simp: start_run_def split: if_splits)
  have len: "?ids \<noteq> []" "length ?ids \<le> maxRunTargets" using assms v m by (auto simp: start_run_def Let_def split: if_splits)
  then obtain ts' where ts': "ts = Some ts'" using assms v m ts by (cases ts) (auto simp: start_run_def Let_def)
  with run_targets_length ts len have "ts' \<noteq> []" "length ts' \<le> maxRunTargets" by fastforce+
  with assms v m ts ts' len validateScript_ok [of sc sc'] show ?thesis
    by (auto simp: start_run_def Let_def CreateRun_def stmt_tick spawn_def internalError_def newActiveRun_def split: if_splits)
qed

lemma postRun_needs_confirmation:
  "\<not> requireElevated ev s \<Longrightarrow> snd (run_state (postRun ev r body s) h) = h"
  by (simp add: postRun_def split: option.splits)

text \<open>
  The stream of a run whose first event cannot be sent ends before the channel is registered for removal: it
  stays subscribed until the run ends.
\<close>

lemma broken_stream_stays_subscribed:
  assumes "run_state (lookupRun idStr) h = (Inr rec :: unit reply + script_run, h1)" and "hb_runs h1 (sr_id rec) = Some ar" and "\<not> ar_done ar"
  shows "\<exists>h' vs' ar'. run_state (getRunEvents_open False c idStr s) (h, vs) = (StreamBroken, (h', vs')) \<and>
    hb_runs h' (sr_id rec) = Some ar' \<and> c \<in> set (ar_subs ar') \<and> hb_conns h' = filter (\<lambda>x. cn_ref x \<noteq> hb_next_ref h1) (hb_conns h1)"
  using assms
  by (simp add: getRunEvents_open_def track_def untrack_def run_on_run subscribe_def Let_def)

text \<open>After a restart no run is left unfinished, and none of its systems pending or running.\<close>

definition settled :: "script_run \<Rightarrow> bool" where
  "settled r \<longleftrightarrow> sr_finished_at r \<noteq> None \<and> list_all (\<lambda>t. rt_status t \<noteq> ''pending'' \<and> rt_status t \<noteq> ''running'') (sr_targets r)"

lemma interrupted_settles: "rt_status (interrupted t) \<noteq> ''pending'' \<and> rt_status (interrupted t) \<noteq> ''running''"
  by (simp add: interrupted_def)

lemma finish_interrupted_settles:
  assumes "st_faults (hb_store h) = []"
  shows "\<exists>h'. run_state (finish_interrupted recs) h = (Inr (), h') \<and>
    (\<forall>r \<in> set (st_runs (hb_store h')). settled r \<or> r \<in> set (st_runs (hb_store h)) \<and> sr_id r \<notin> sr_id ` set recs)"
  using assms
proof (induction recs arbitrary: h)
  case (Cons rec recs)
  let ?f = "FinishRun (sr_id rec) (sr_started_at rec) (map interrupted (sr_targets rec))"
  let ?h = "h\<lparr>hb_store := snd (?f (hb_store h))\<rparr>"
  have f: "?f (hb_store h) = (Inr (), snd (?f (hb_store h)))" "st_faults (hb_store ?h) = []"
    using Cons.prems by (simp_all add: FinishRun_def exec_tick)
  have rows: "settled r \<or> r \<in> set (st_runs (hb_store h)) \<and> sr_id r \<noteq> sr_id rec" if "r \<in> set (st_runs (hb_store ?h))" for r
    using that Cons.prems interrupted_settles
    by (auto simp: FinishRun_def exec_tick settled_def list_all_iff split: if_splits)
  from Cons.IH [OF f(2)] obtain h' where "run_state (finish_interrupted recs) ?h = (Inr (), h')"
      "\<forall>r \<in> set (st_runs (hb_store h')). settled r \<or> r \<in> set (st_runs (hb_store ?h)) \<and> sr_id r \<notin> sr_id ` set recs" by blast
  moreover have "run_state (finish_interrupted (rec # recs)) h = run_state (finish_interrupted recs) ?h"
    using arg_cong [OF f(1), of fst] by (simp add: case_prod_beta)
  ultimately show ?case using rows by fastforce
qed simp

lemma restart_settles_runs:
  assumes "st_faults (hb_store h) = []"
  shows "\<exists>h'. run_state finishInterruptedRuns h = (Inr (), h') \<and>
    (\<forall>r \<in> set (st_runs (hb_store h')). settled r \<or> r \<in> set (st_runs (hb_store h)) \<and> sr_finished_at r \<noteq> None)"
  using finish_interrupted_settles [OF assms, of "filter (\<lambda>r. sr_finished_at r = None) (st_runs (hb_store h))"] assms
  by (fastforce simp: finishInterruptedRuns_def UnfinishedRuns_def query_tick)

end
