(* ===== verification/Machine.thy ===== *)
theory Machine
  imports SelfUpdate Protocol "HOL-Library.Word" "HOL-Library.AList" "HOL-Library.List_Lexorder" "HOL-Library.Char_ord"
begin

text \<open>
  What the agent does to its machine: signals (\<open>agent/collect/processes.go\<close>), power (\<open>agent/power.go\<close>),
  services (\<open>agent/services.go\<close>, \<open>agent/services_linux.go\<close>), scripts (\<open>agent/script.go\<close>) and shells
  (\<open>agent/shell.go\<close>). The operating system is a record of what it answers; what the agent does
  is a list of deeds.
\<close>

definition AgentName :: string where "AgentName = ''lotse-agent''"

record machine =
  mc_goos :: string
  mc_pid :: int
  mc_look_path :: "string \<Rightarrow> string option"        \<comment> \<open>\<open>exec.LookPath\<close>\<close>
  mc_systemd :: bool                             \<comment> \<open>\<open>/run/systemd/system\<close> exists\<close>
  mc_find_process :: "int \<Rightarrow> string option"         \<comment> \<open>an error\<close>
  mc_kill :: "int \<Rightarrow> string option"
  mc_terminate :: "int \<Rightarrow> string option"
  mc_command :: "string list \<Rightarrow> string \<times> string \<times> string option"   \<comment> \<open>the output, the error output, the error\<close>
  mc_getenv :: "string \<Rightarrow> string"
  mc_environ :: "string list"
  mc_executable :: "string \<Rightarrow> bool"                \<comment> \<open>a file with an execute permission\<close>
  mc_is_dir :: "string \<Rightarrow> bool"
  mc_user :: "(string \<times> string) option"          \<comment> \<open>\<open>user.Current\<close>: the name and the home folder\<close>
  mc_join :: "string \<Rightarrow> string \<Rightarrow> string"       \<comment> \<open>\<open>filepath.Join\<close>\<close>
  mc_write_file :: "string \<Rightarrow> string option"

datatype deed =
    Killed int | Terminated int                  \<comment> \<open>a signal to a process\<close>
  | Commanded "string list"                      \<comment> \<open>a command of the power or service manager\<close>
  | Shell nat | Transfer nat | Script nat script_msg   \<comment> \<open>a program on a session channel\<close>
  | Packets "(32 word \<times> 8 word list) list"     \<comment> \<open>magic packets\<close>

section \<open>Signals\<close>

definition Signal :: "machine \<Rightarrow> int \<Rightarrow> string \<Rightarrow> string option \<times> deed list" where
  "Signal m pid signal =
     (if pid \<le> 1 then (Some ''refusing to signal PID 0 or 1'', [])
      else if pid = mc_pid m then (Some ''refusing to stop the agent itself'', [])
      else (case mc_find_process m pid of
              Some e \<Rightarrow> (Some e, [])
            | None \<Rightarrow>
                if signal = ''kill'' then (mc_kill m pid, [Killed pid])
                else if signal = ''terminate'' then
                  (if mc_goos m = ''windows'' then (mc_kill m pid, [Killed pid]) else (mc_terminate m pid, [Terminated pid]))
                else (Some ''unknown signal'', [])))"

section \<open>Power\<close>

definition power_candidates :: "machine \<Rightarrow> bool \<Rightarrow> string list list" where
  "power_candidates m reboot =
     (if mc_goos m = ''linux'' then
        (if mc_systemd m then [[''systemctl'', if reboot then ''reboot'' else ''poweroff'']] else []) @
        (if reboot then [[''shutdown'', ''-r'', ''now''], [''reboot'']] else [[''shutdown'', ''-h'', ''now''], [''poweroff'']])
      else if mc_goos m = ''darwin'' then [[''/sbin/shutdown'', if reboot then ''-r'' else ''-h'', ''now'']]
      else if mc_goos m = ''windows'' then
        [[''shutdown.exe'', if reboot then ''/r'' else ''/s'', ''/f'', ''/t'', ''5'', ''/d'', ''p:0:0'', ''/c'', ''Requested from Lotse'']]
      else [])"

fun first_found :: "(string \<Rightarrow> string option) \<Rightarrow> string list list \<Rightarrow> string list option" where
  "first_found look [] = None"
| "first_found look (c # cs) = (case look (hd c) of Some p \<Rightarrow> Some (p # tl c) | None \<Rightarrow> first_found look cs)"

text \<open>\<open>quote\<close> renders a string as \<open>%q\<close>.\<close>

definition powerCommand :: "(string \<Rightarrow> string) \<Rightarrow> machine \<Rightarrow> string \<Rightarrow> string + string list" where
  "powerCommand quote m action =
     (if action \<noteq> ''reboot'' \<and> action \<noteq> ''shutdown'' then Inl (''unknown power action '' @ quote action)
      else (case first_found (mc_look_path m) (power_candidates m (action = ''reboot'')) of
              Some c \<Rightarrow> Inr c
            | None \<Rightarrow> Inl (''found no command to '' @ action @ '' this machine'')))"

section \<open>Services\<close>

definition checkServiceAction :: "(string \<Rightarrow> string) \<Rightarrow> string \<Rightarrow> string \<Rightarrow> string list \<Rightarrow> string option" where
  "checkServiceAction quote name action own =
     (if action \<notin> {''start'', ''stop'', ''restart''} then Some (''unknown action '' @ quote action)
      else if name = [] \<or> 256 < length name \<or> HasPrefix name ''-'' \<or>
        ContainsAny name [CHR 0x00, CHR 0x0D, CHR 0x0A, CHR ''/'', CHR 0x5C, CHR ''*'', CHR ''?'', CHR ''['', CHR '']'']
      then Some ''invalid service name''
      else if list_ex (EqualFold name) own
      then Some ''the agent cannot control its own service; reinstall or update it instead''
      else None)"

definition runServiceCommand :: "machine \<Rightarrow> string list \<Rightarrow> string \<times> string option" where
  "runServiceCommand m c =
     (case mc_command m c of
        (out, stderr, None) \<Rightarrow> (out, None)
      | (out, stderr, Some e) \<Rightarrow>
          (out, Some (if TrimSpace stderr \<noteq> [] then TrimSpace stderr else hd c @ '': '' @ e)))"

definition service_command :: "string \<Rightarrow> string \<Rightarrow> string list" where
  "service_command name action =
     [''systemctl'', ''--no-block'', action, ''--'', if Contains name ''.'' then name else name @ ''.service'']"

definition controlService :: "(string \<Rightarrow> string) \<Rightarrow> machine \<Rightarrow> string \<Rightarrow> string \<Rightarrow> string option \<times> deed list" where
  "controlService quote m name action =
     (case checkServiceAction quote name action [AgentName, AgentName @ ''.service''] of
        Some e \<Rightarrow> (Some e, [])
      | None \<Rightarrow> (snd (runServiceCommand m (service_command name action)), [Commanded (service_command name action)]))"

text \<open>\<open>strings.Fields\<close>, and the lines of a \<open>bufio.Scanner\<close>, which stops at a line that does not fit its buffer.\<close>

function fields_from :: "string \<Rightarrow> string \<Rightarrow> string list" where
  "fields_from w s =
     (if s = [] then (if w = [] then [] else [rev w])
      else if 0 < lead_len space_encs s
      then (if w = [] then [] else [rev w]) @ fields_from [] (drop (lead_len space_encs s) s)
      else fields_from (hd s # w) (tl s))"
  by pat_completeness auto
termination
  by (relation "measure (\<lambda>(w, s). length s)") auto

declare fields_from.simps [simp del]

definition Fields :: "string \<Rightarrow> string list" where
  "Fields s = fields_from [] s"

definition scan_lines :: "string \<Rightarrow> string list" where
  "scan_lines s =
     (let ls = Split (CHR 0x0A) s; ls = (if last ls = [] then butlast ls else ls)
      in map (\<lambda>l. TrimSuffix l [CHR 0x0D]) (takeWhile (\<lambda>l. length l < 65536) ls))"

definition systemdState :: "string \<Rightarrow> string" where
  "systemdState active =
     (if active = ''active'' \<or> active = ''reloading'' then ''running''
      else if active = ''activating'' then ''starting'' else if active = ''deactivating'' then ''stopping''
      else if active = ''failed'' then ''failed'' else ''stopped'')"

definition add_unit :: "(string \<times> service) list \<Rightarrow> string \<Rightarrow> (string \<times> service) list" where
  "add_unit byName line =
     (let f = Fields line in
      if length f < 4 \<or> f ! 1 = ''not-found'' then byName
      else AList.update (f ! 0)
        \<lparr>sv_name = f ! 0, sv_description = Join (drop 4 f) '' '', sv_state = systemdState (f ! 2),
         sv_detail = f ! 2 @ '' ('' @ f ! 3 @ '')'', sv_start_type = []\<rparr> byName)"

definition add_file :: "(string \<times> service) list \<Rightarrow> string \<Rightarrow> (string \<times> service) list" where
  "add_file byName line =
     (let f = Fields line in
      if length f < 2 \<or> Contains (f ! 0) ''@.'' then byName
      else let s = (case map_of byName (f ! 0) of
                      Some s \<Rightarrow> s
                    | None \<Rightarrow> \<lparr>sv_name = f ! 0, sv_description = [], sv_state = ''stopped'', sv_detail = ''inactive (dead)'', sv_start_type = []\<rparr>)
           in AList.update (f ! 0) (s\<lparr>sv_start_type := f ! 1\<rparr>) byName)"

definition parseSystemd :: "string \<Rightarrow> string \<Rightarrow> service list" where
  "parseSystemd units files =
     sort_key sv_name (map snd (foldl add_file (foldl add_unit [] (scan_lines units)) (scan_lines files)))"

definition listServices :: "machine \<Rightarrow> service_list" where
  "listServices m =
     (if \<not> mc_systemd m then \<lparr>sl_services = [], sl_error = ''service management needs systemd''\<rparr>
      else (case runServiceCommand m [''systemctl'', ''list-units'', ''--type=service'', ''--all'', ''--no-legend'', ''--no-pager'', ''--plain''] of
              (_, Some e) \<Rightarrow> \<lparr>sl_services = [], sl_error = e\<rparr>
            | (units, None) \<Rightarrow>
                \<lparr>sl_services = parseSystemd units
                   (fst (runServiceCommand m [''systemctl'', ''list-unit-files'', ''--type=service'', ''--no-legend'', ''--no-pager''])),
                 sl_error = []\<rparr>))"

section \<open>Shells and scripts\<close>

definition dim :: "int \<Rightarrow> int \<Rightarrow> int" where
  "dim v def = (if v = 0 \<or> 1000 < v then def else v)"

definition shellCommand :: "machine \<Rightarrow> string \<times> string list" where
  "shellCommand m =
     (if mc_goos m = ''windows'' then
        (case first_found (mc_look_path m) [[''pwsh.exe''], [''powershell.exe'']] of
           Some c \<Rightarrow> (hd c, [''-NoLogo''])
         | None \<Rightarrow> if mc_getenv m ''ComSpec'' \<noteq> [] then (mc_getenv m ''ComSpec'', []) else (''cmd.exe'', []))
      else
        (case find (\<lambda>c. c \<noteq> [] \<and> mc_executable m c)
                (if mc_goos m = ''darwin'' then [mc_getenv m ''SHELL'', ''/bin/zsh'', ''/bin/bash'', ''/bin/sh'']
                 else [mc_getenv m ''SHELL'', ''/bin/bash'', ''/bin/zsh'', ''/bin/sh'']) of
           Some c \<Rightarrow> (c, [''-l'']) | None \<Rightarrow> (''/bin/sh'', [''-l''])))"

definition homeDir :: "machine \<Rightarrow> string" where
  "homeDir m =
     (case mc_user m of
        Some (name, home) \<Rightarrow>
          if home \<noteq> [] \<and> mc_is_dir m home then home
          else if mc_goos m = ''windows'' then mc_getenv m ''SystemDrive'' @ [CHR 0x5C] else ''/''
      | None \<Rightarrow> if mc_goos m = ''windows'' then mc_getenv m ''SystemDrive'' @ [CHR 0x5C] else ''/'')"

text \<open>The variables that are set, in the order Go ranges over them, and the environment with them.\<close>

definition shell_vars :: "machine \<Rightarrow> string \<Rightarrow> string \<Rightarrow> string \<Rightarrow> (string \<times> string) list" where
  "shell_vars m term shellPath home =
     [(''TERM'', if term = [] then ''xterm-256color'' else term), (''SHELL'', shellPath), (''HOME'', home)] @
     (case mc_user m of None \<Rightarrow> [] | Some (name, _) \<Rightarrow> [(''USER'', name), (''LOGNAME'', name)]) @
     (if mc_getenv m ''PATH'' = [] then [(''PATH'', ''/usr/local/sbin:/usr/local/bin:/usr/sbin:/usr/bin:/sbin:/bin'')] else []) @
     (if mc_getenv m ''LANG'' = [] then [(''LANG'', ''C.UTF-8'')] else [])"

definition shellEnv ::
    "((string \<times> string) list \<Rightarrow> (string \<times> string) list) \<Rightarrow> machine \<Rightarrow> string \<Rightarrow> string \<Rightarrow> string \<Rightarrow> string list" where
  "shellEnv ord m term shellPath home =
     (if mc_goos m = ''windows'' then mc_environ m
      else let vars = shell_vars m term shellPath home in
        filter (\<lambda>kv. \<not> list_ex (\<lambda>(k, _). HasPrefix kv (k @ ''='')) vars) (mc_environ m) @ map (\<lambda>(k, v). k @ ''='' @ v) (ord vars))"

definition defaultScriptTimeout :: duration where "defaultScriptTimeout = 5 * minute"
definition maxScriptTimeout :: duration where "maxScriptTimeout = 24 * hour"
definition exitTimeout :: int where "exitTimeout = 124"

text \<open>The product of the seconds is a 64-bit integer, which may wrap around.\<close>

definition script_timeout :: "int \<Rightarrow> duration" where
  "script_timeout seconds =
     (let t = sint (word_of_int (seconds * second) :: 64 word)
      in min (if t \<le> 0 then defaultScriptTimeout else t) maxScriptTimeout)"

text \<open>How to run a script: the program, its arguments and the file with the script.\<close>

definition crlf_lines :: "string \<Rightarrow> string" where
  "crlf_lines s = ReplaceAll s (CHR 0x0A) [CHR 0x0D, CHR 0x0A]"

fun drop_cr :: "string \<Rightarrow> string" where
  "drop_cr (a # b # s) = (if a = CHR 0x0D \<and> b = CHR 0x0A then CHR 0x0A # drop_cr s else a # drop_cr (b # s))"
| "drop_cr s = s"

record script_run_command =
  sx_path :: string
  sx_args :: "string list"
  sx_file :: string
  sx_content :: string

definition script_file ::
    "machine \<Rightarrow> string \<Rightarrow> string \<Rightarrow> string list \<Rightarrow> string \<Rightarrow> string \<Rightarrow> string + script_run_command" where
  "script_file m dir interp args name content =
     (let p = mc_join m dir name in
      case mc_write_file m p of
        Some e \<Rightarrow> Inl e
      | None \<Rightarrow> Inr \<lparr>sx_path = interp, sx_args = args @ [p], sx_file = p, sx_content = content\<rparr>)"

definition scriptCommand :: "(string \<Rightarrow> string) \<Rightarrow> machine \<Rightarrow> string \<Rightarrow> string \<Rightarrow> string \<Rightarrow> string + script_run_command" where
  "scriptCommand quote m shell dir script =
     (let windows = (mc_goos m = ''windows'') in
      if shell = ''sh'' \<or> shell = ''bash'' then
        (if windows then Inl (shell @ '' scripts need Linux or macOS'')
         else (case (if shell = ''bash'' then mc_look_path m ''bash'' else Some ''/bin/sh'') of
                 None \<Rightarrow> Inl ''bash is not installed on this machine''
               | Some interp \<Rightarrow> script_file m dir interp [] ''script.sh'' script))
      else if shell = ''powershell'' then
        (case first_found (mc_look_path m) (if windows then [[''pwsh.exe''], [''powershell.exe'']] else [[''pwsh'']]) of
           None \<Rightarrow> Inl ''PowerShell is not installed on this machine''
         | Some c \<Rightarrow> script_file m dir (hd c) [''-NoLogo'', ''-NoProfile'', ''-NonInteractive'', ''-ExecutionPolicy'', ''Bypass'', ''-File'']
             ''script.ps1''
             (if windows then [CHR 0xEF, CHR 0xBB, CHR 0xBF] @ ''[Console]::OutputEncoding = [Text.Encoding]::UTF8'' @ [CHR 0x0D, CHR 0x0A] @ script
              else script))
      else if shell = ''cmd'' then
        (if \<not> windows then Inl ''cmd scripts need Windows''
         else script_file m dir (if mc_getenv m ''ComSpec'' = [] then ''cmd.exe'' else mc_getenv m ''ComSpec'') [''/d'', ''/c'']
           ''script.cmd'' (crlf_lines (drop_cr script)))
      else Inl (''unknown shell '' @ quote shell))"

text \<open>How a command ended: at the time limit, not started, or with an exit code (negative after a signal).\<close>

datatype command_end = TimeLimit | NotStarted string | Exited int

definition script_status :: "command_end \<Rightarrow> int" where
  "script_status e =
     (case e of TimeLimit \<Rightarrow> exitTimeout | NotStarted _ \<Rightarrow> 127
      | Exited c \<Rightarrow> if c < 0 then 255 else uint (word_of_int c :: 32 word))"

text \<open>\<open>tmp\<close> is the temporary folder or the error of making it; \<open>run\<close> runs a command within a time limit.\<close>

definition runScript ::
    "(string \<Rightarrow> string) \<Rightarrow> machine \<Rightarrow> string + string \<Rightarrow> (script_run_command \<Rightarrow> duration \<Rightarrow> command_end) \<Rightarrow> script_msg \<Rightarrow> int" where
  "runScript quote m tmp run msg =
     (case tmp of
        Inl _ \<Rightarrow> 1
      | Inr dir \<Rightarrow>
          (case scriptCommand quote m (cm_shell msg) dir (cm_script msg) of
             Inl _ \<Rightarrow> 127
           | Inr c \<Rightarrow> script_status (run c (script_timeout (cm_timeout msg)))))"

section \<open>What is never done\<close>

lemma Signal_spares:
  assumes "Signal m pid signal = (e, ds)" and "d \<in> set ds"
  shows "(d = Killed pid \<or> d = Terminated pid) \<and> 1 < pid \<and> pid \<noteq> mc_pid m"
  using assms by (auto simp: Signal_def split: if_splits option.splits)

text \<open>A service command names one unit, after the options, and not the agent's own.\<close>

lemma if_chain_None: "((if \<not> a then Some x else if b then Some y else if c then Some z else None) = None) \<longleftrightarrow> a \<and> \<not> b \<and> \<not> c"
  by simp

lemma checkServiceAction_None:
  "checkServiceAction quote name action own = None \<longleftrightarrow>
     action \<in> {''start'', ''stop'', ''restart''} \<and>
     \<not> (name = [] \<or> 256 < length name \<or> HasPrefix name ''-'' \<or>
        ContainsAny name [CHR 0x00, CHR 0x0D, CHR 0x0A, CHR ''/'', CHR 0x5C, CHR ''*'', CHR ''?'', CHR ''['', CHR '']'']) \<and>
     \<not> list_ex (EqualFold name) own"
  unfolding checkServiceAction_def by (rule if_chain_None)

lemma own_service_folds: "EqualFold AgentName AgentName" "EqualFold (AgentName @ ''.service'') (AgentName @ ''.service'')"
  by code_simp+

lemma ContainsAny_mono: "set cs \<subseteq> set ds \<Longrightarrow> ContainsAny s cs \<Longrightarrow> ContainsAny s ds"
  by (auto simp: ContainsAny_def list_ex_iff)

lemma controlService_safe:
  assumes "controlService quote m name action = (e, ds)" and "d \<in> set ds"
  shows "\<exists>unit. d = Commanded [''systemctl'', ''--no-block'', action, ''--'', unit] \<and> action \<in> {''start'', ''stop'', ''restart''} \<and>
    unit \<noteq> AgentName @ ''.service'' \<and> \<not> HasPrefix unit ''-'' \<and> \<not> ContainsAny unit ''*?[]''"
proof -
  let ?unit = "if Contains name ''.'' then name else name @ ''.service''"
  have ok: "checkServiceAction quote name action [AgentName, AgentName @ ''.service''] = None"
    and d: "d = Commanded (service_command name action)"
    using assms by (auto simp: controlService_def split: option.splits)
  note c = ok [unfolded checkServiceAction_None]
  have own: "name \<noteq> AgentName" "name \<noteq> AgentName @ ''.service''" using c own_service_folds by auto
  have glob: "\<not> ContainsAny name ''*?[]''"
    using c ContainsAny_mono [of "''*?[]''" "[CHR 0x00, CHR 0x0D, CHR 0x0A, CHR ''/'', CHR 0x5C, CHR ''*'', CHR ''?'', CHR ''['', CHR '']'']" name]
    by auto
  have "\<not> HasPrefix ?unit ''-''" using c by (cases name) (auto simp: HasPrefix_def)
  moreover have "\<not> ContainsAny ?unit ''*?[]''" using glob by (auto simp: ContainsAny_def list_ex_iff)
  moreover have "?unit \<noteq> AgentName @ ''.service''" using own by (simp split: if_splits)
  ultimately show ?thesis using c unfolding d service_command_def by blast
qed

lemma set_update: "set (AList.update k v xs) \<subseteq> insert (k, v) (set xs)"
  by (induction xs) auto

text \<open>The services of the list are ordered by their names, each once.\<close>

definition by_name :: "(string \<times> service) list \<Rightarrow> bool" where
  "by_name xs \<longleftrightarrow> distinct (map fst xs) \<and> list_all (\<lambda>(k, s). sv_name s = k) xs"

lemma by_name_update: "by_name xs \<Longrightarrow> sv_name s = k \<Longrightarrow> by_name (AList.update k s xs)"
  using set_update [of k s xs] by (fastforce simp: by_name_def list_all_iff intro: distinct_update)

lemma by_name_add: "by_name xs \<Longrightarrow> by_name (add_unit xs l)" "by_name xs \<Longrightarrow> by_name (add_file xs l)"
proof -
  assume xs: "by_name xs"
  show "by_name (add_unit xs l)" using xs by (auto simp: add_unit_def Let_def intro: by_name_update)
  have "sv_name s = k" if "map_of xs k = Some s" for k s
    using xs that by (auto simp: by_name_def list_all_iff dest: map_of_SomeD)
  then show "by_name (add_file xs l)" using xs by (auto simp: add_file_def Let_def intro!: by_name_update split: option.splits)
qed

lemma foldl_keeps: "P x \<Longrightarrow> (\<And>x l. P x \<Longrightarrow> P (f x l)) \<Longrightarrow> P (foldl f x ls)"
  by (induction ls arbitrary: x) auto

lemma parseSystemd_ordered: "sorted (map sv_name (parseSystemd units files)) \<and> distinct (map sv_name (parseSystemd units files))"
proof -
  let ?xs = "foldl add_file (foldl add_unit [] (scan_lines units)) (scan_lines files)"
  have "by_name (foldl add_unit [] (scan_lines units))"
    by (rule foldl_keeps [where P = by_name]) (simp_all add: by_name_def [of "[]"] by_name_add)
  then have "by_name ?xs" by (rule foldl_keeps [where P = by_name]) (rule by_name_add)
  then have "distinct (map fst ?xs)" "map fst ?xs = map sv_name (map snd ?xs)"
    by (auto simp: by_name_def list_all_iff simp del: foldl_Cons)
  then have "distinct (map sv_name (map snd ?xs))" by metis
  then have "distinct (map sv_name (parseSystemd units files))"
    unfolding parseSystemd_def by (simp only: distinct_map distinct_sort set_sort)
  then show ?thesis by (simp add: parseSystemd_def)
qed

section \<open>Time limits\<close>

text \<open>Whatever the hub asks for, even where the product wraps around, a script has a positive limit of at most a day.\<close>

lemma script_timeout_bounded: "0 < script_timeout t \<and> script_timeout t \<le> maxScriptTimeout"
  by (simp add: script_timeout_def Let_def defaultScriptTimeout_def maxScriptTimeout_def  min_def)

lemma script_timeout_exact:
  assumes "1 \<le> t" and "t \<le> 24 * 60 * 60"
  shows "script_timeout t = t * second"
proof -
  have "sint (word_of_int (t * second) :: 64 word) = t * second"
    unfolding sint_sbintrunc' using assms by (intro signed_take_bit_int_eq_self) simp_all
  with assms show ?thesis by (simp add: script_timeout_def Let_def maxScriptTimeout_def  min_def)
qed

lemma script_status_range: "0 \<le> script_status e \<and> script_status e < 2 ^ 32"
proof (cases e)
  case (Exited c)
  have "uint (word_of_int c :: 32 word) < 2 ^ 32" using uint_lt2p [of "word_of_int c :: 32 word"] by simp
  with Exited show ?thesis by (simp add: script_status_def)
qed (simp_all add: script_status_def exitTimeout_def)

end
