(* ===== verification/Agent.thy ===== *)
theory Agent
  imports Machine Wol Interfaces
begin

text \<open>
  The agent (\<open>agent/agent.go\<close>, \<open>agent/shell.go\<close>, \<open>agent/collect/processes.go\<close>): what it announces, how it
  answers the requests of the hub, its session channels and how it reconnects.
\<close>

section \<open>Configuration\<close>

record config =
  cf_hub_url :: string
  cf_hub_key :: string
  cf_token :: string
  cf_allow_shell :: bool
  cf_disable_updates :: bool

definition features :: "config \<Rightarrow> string list" where
  "features cfg =
     [FeatureWake] @ (if cf_allow_shell cfg then [FeatureShell] else []) @ (if cf_disable_updates cfg then [] else [FeatureUpdate])"

definition clampInterval :: "int \<Rightarrow> duration" where
  "clampInterval seconds = (let seconds = (if seconds \<le> 0 then 60 else seconds) in min (max seconds 1) 3600 * second)"

section \<open>Processes\<close>

text \<open>A process as the system library sees it: the processor time before and after the sample, and what can be read of it.\<close>

record proc =
  pr_pid :: int
  pr_before :: "rat option"
  pr_after :: "rat option"
  pr_rss :: "int option"
  pr_name :: string
  pr_user :: string
  pr_created :: "int option"
  pr_cmdline :: "string option"

definition proc_entry :: "rat \<Rightarrow> rat \<Rightarrow> proc \<Rightarrow> (proc \<times> rat \<times> int) option" where
  "proc_entry elapsed cores p =
     (case (pr_before p, pr_after p) of
        (Some prev, Some t) \<Rightarrow>
          Some (p, max 0 ((t - prev) / elapsed / cores * 100), case pr_rss p of None \<Rightarrow> 0 | Some n \<Rightarrow> n)
      | _ \<Rightarrow> None)"

definition compare_procs :: "proc \<times> rat \<times> int \<Rightarrow> proc \<times> rat \<times> int \<Rightarrow> int" where
  "compare_procs a b =
     (if fst (snd b) < fst (snd a) then - 1 else if fst (snd a) < fst (snd b) then 1
      else if snd (snd b) < snd (snd a) then - 1 else if snd (snd a) < snd (snd b) then 1 else 0)"

fun command_cut :: "string \<Rightarrow> nat \<Rightarrow> nat" where
  "command_cut cmd 0 = 0"
| "command_cut cmd (Suc n) = (if \<not> RuneStart (cmd ! Suc n) then command_cut cmd n else Suc n)"

definition command_text :: "string \<Rightarrow> string" where
  "command_text cmd = (if 300 < length cmd then take (command_cut cmd 300) cmd @ [CHR 0xE2, CHR 0x80, CHR 0xA6] else cmd)"

definition proc_row :: "bool \<Rightarrow> proc \<times> rat \<times> int \<Rightarrow> process" where
  "proc_row withCommands e =
     (case e of (p, cpu, mem) \<Rightarrow>
        \<lparr>ps_pid = pr_pid p, ps_name = pr_name p, ps_user = pr_user p, ps_cpu = cpu, ps_mem = mem,
         ps_started = (case pr_created p of None \<Rightarrow> 0 | Some ms \<Rightarrow> if ms < 0 then - (- ms div 1000) else ms div 1000),
         ps_command = (if withCommands then (case pr_cmdline p of None \<Rightarrow> [] | Some c \<Rightarrow> command_text c) else [])\<rparr>)"

text \<open>
  What a request meets on the machine: its processes, network and clocks. \<open>wd_sort\<close> is \<open>slices.SortFunc\<close>, \<open>wd_quote\<close> the
  verb \<open>%q\<close>.
\<close>

record world =
  wd_machine :: machine
  wd_procs :: "string + proc list"
  wd_elapsed :: rat
  wd_cores :: rat
  wd_sort :: "(proc \<times> rat \<times> int \<Rightarrow> proc \<times> rat \<times> int \<Rightarrow> int) \<Rightarrow> (proc \<times> rat \<times> int) list \<Rightarrow> (proc \<times> rat \<times> int) list"
  wd_interfaces :: "string list option"
  wd_udp :: udp
  wd_quote :: "string \<Rightarrow> string"

definition Processes :: "world \<Rightarrow> nat \<Rightarrow> bool \<Rightarrow> string + process_list" where
  "Processes w limit withCommands =
     (case wd_procs w of
        Inl e \<Rightarrow> Inl e
      | Inr procs \<Rightarrow>
          let l = wd_sort w compare_procs (List.map_filter (proc_entry (wd_elapsed w) (wd_cores w)) procs)
          in Inr \<lparr>pl_processes = map (proc_row withCommands) (take limit l), pl_total = int (length l)\<rparr>)"

section \<open>Requests\<close>

text \<open>A request as it arrives: with its payload, with one that cannot be decoded, or of an unknown type.\<close>

datatype received = Received link_msg | Garbled string | UnknownType

definition remoteControlOff :: string where
  "remoteControlOff = ''is disabled on this machine (install the agent with --allow-shell)''"

definition action_reply :: "string option \<times> deed list \<Rightarrow> answer \<times> deed list" where
  "action_reply r = (let e = (case fst r of None \<Rightarrow> [] | Some e \<Rightarrow> e) in (Answered (e = []) (ActionReply e), snd r))"

definition process_reply :: "config \<Rightarrow> world \<Rightarrow> int \<Rightarrow> answer" where
  "process_reply cfg w limit =
     (case Processes w (nat (min (max limit 1) 100)) (cf_allow_shell cfg) of
        Inl _ \<Rightarrow> Answered False NoPayload
      | Inr l \<Rightarrow> Answered True (ProcessesReply l))"

text \<open>The answer to a request, what the agent did, and the new interval it is asked to report at.\<close>

definition handleRequest :: "config \<Rightarrow> world \<Rightarrow> received \<Rightarrow> answer \<times> deed list \<times> duration option" where
  "handleRequest cfg w req =
     (let m = wd_machine w; refused = (Answered False NoPayload, [], None);
          control = (\<lambda>what r. case action_reply (if \<not> cf_allow_shell cfg then (Some (what @ remoteControlOff), []) else r) of
                       (a, ds) \<Rightarrow> (a, ds, None)) in
      case req of
        Received (MsgProcesses limit) \<Rightarrow> (process_reply cfg w limit, [], None)
      | Received (MsgSignal msg) \<Rightarrow> control ''stopping processes '' (Signal m (sm_pid msg) (sm_signal msg))
      | Received (MsgPower action) \<Rightarrow>
          control ''rebooting and shutting down ''
            (case powerCommand (wd_quote w) m action of Inl e \<Rightarrow> (Some e, []) | Inr c \<Rightarrow> (None, [Commanded c]))
      | Received MsgServices \<Rightarrow> (Answered True (ServicesReply (listServices m)), [], None)
      | Received (MsgService msg) \<Rightarrow> control ''controlling services '' (controlService (wd_quote w) m (vm_name msg) (vm_action msg))
      | Received (MsgWake msg) \<Rightarrow>
          if \<not> IsLocalBroadcast (wd_interfaces w) (wm_broadcast msg) then refused
          else (case wol_Send (wd_udp w) (wm_macs msg) (wm_broadcast msg) of
                  (pkts, err) \<Rightarrow> (Answered (err = None) NoPayload, [Packets pkts], None))
      | Received (MsgInterval secs) \<Rightarrow>
          if secs \<le> 0 then refused else (Answered True NoPayload, [], Some (clampInterval secs))
      | Garbled ty \<Rightarrow>
          if ty = ReqProcesses then (process_reply cfg w 0, [], None)
          else if ty = ReqServices then (Answered True (ServicesReply (listServices m)), [], None)
          else refused
      | _ \<Rightarrow> refused)"

section \<open>Session channels\<close>

definition maxSessions :: int where "maxSessions = 16"

record chan =
  ch_pty :: "(int \<times> int) option"
  ch_started :: bool
  ch_shell :: "(int \<times> int) option"     \<comment> \<open>the size of the terminal of a running shell\<close>

text \<open>One request on a channel: whether it is granted, the channel unless it ends, and what was started. \<open>starts\<close> is whether
  a shell can be started.\<close>

definition serve_request :: "bool \<Rightarrow> nat \<Rightarrow> received \<Rightarrow> chan \<Rightarrow> bool \<times> chan option \<times> deed list" where
  "serve_request starts c req ch =
     (case req of
        Received (MsgPty cols rows) \<Rightarrow>
          if ch_started ch then (False, Some ch, []) else (True, Some (ch\<lparr>ch_pty := Some (cols, rows)\<rparr>), [])
      | Received (MsgResize cols rows) \<Rightarrow>
          (True, Some (if ch_shell ch \<noteq> None then ch\<lparr>ch_shell := Some (dim cols 80, dim rows 24)\<rparr> else ch), [])
      | Received MsgShell \<Rightarrow>
          (case ch_pty ch of
             Some (cols, rows) \<Rightarrow>
               if ch_started ch then (False, Some ch, [])
               else if \<not> starts then (False, None, [])
               else (True, Some (ch\<lparr>ch_started := True, ch_shell := Some (dim cols 80, dim rows 24)\<rparr>), [Shell c])
           | None \<Rightarrow> (False, Some ch, []))
      | Received (MsgSubsystem name) \<Rightarrow>
          if ch_started ch \<or> name \<noteq> SubsystemSFTP then (False, Some ch, [])
          else (True, Some (ch\<lparr>ch_started := True\<rparr>), [Transfer c])
      | Received (MsgScript msg) \<Rightarrow>
          if ch_started ch then (False, Some ch, []) else (True, Some (ch\<lparr>ch_started := True\<rparr>), [Script c msg])
      | Garbled ty \<Rightarrow> (ty = ''window-change'', Some ch, [])
      | _ \<Rightarrow> (False, Some ch, []))"

text \<open>
  The agent: the counter of sessions, the handlers that added to it with the value each saw, the channels
  that are served, what it did. Links may overlap while one is being lost, so several handlers run at once.
\<close>

record agent =
  ag_cfg :: config
  ag_sessions :: int
  ag_trying :: "(nat \<times> int) list"
  ag_channels :: "(nat \<times> chan) list"
  ag_next :: nat
  ag_interval :: "duration option"
  ag_deeds :: "deed list"

definition open_begin :: "agent \<Rightarrow> string option \<times> agent" where
  "open_begin a =
     (if \<not> cf_allow_shell (ag_cfg a)
      then (Some ''remote shell is disabled on this machine; reinstall the agent with --allow-shell to enable it'', a)
      else (None, a\<lparr>ag_sessions := ag_sessions a + 1, ag_trying := (ag_next a, ag_sessions a + 1) # ag_trying a,
                    ag_next := Suc (ag_next a)\<rparr>))"

definition open_decide :: "bool \<Rightarrow> nat \<times> int \<Rightarrow> agent \<Rightarrow> string option \<times> agent" where
  "open_decide accepted t a =
     (let a = a\<lparr>ag_trying := remove1 t (ag_trying a)\<rparr> in
      if maxSessions < snd t then (Some ''too many open sessions'', a\<lparr>ag_sessions := ag_sessions a - 1\<rparr>)
      else if \<not> accepted then (None, a\<lparr>ag_sessions := ag_sessions a - 1\<rparr>)
      else (None, a\<lparr>ag_channels := (fst t, \<lparr>ch_pty = None, ch_started = False, ch_shell = None\<rparr>) # ag_channels a\<rparr>))"

definition session_close :: "nat \<times> chan \<Rightarrow> agent \<Rightarrow> agent" where
  "session_close x a = a\<lparr>ag_channels := remove1 x (ag_channels a), ag_sessions := ag_sessions a - 1\<rparr>"

definition session_request :: "bool \<Rightarrow> received \<Rightarrow> nat \<times> chan \<Rightarrow> agent \<Rightarrow> bool \<times> agent" where
  "session_request starts req x a =
     (case serve_request starts (fst x) req (snd x) of
        (ok, None, ds) \<Rightarrow> (ok, session_close x (a\<lparr>ag_deeds := ag_deeds a @ ds\<rparr>))
      | (ok, Some ch, ds) \<Rightarrow>
          (ok, a\<lparr>ag_channels := (fst x, ch) # remove1 x (ag_channels a), ag_deeds := ag_deeds a @ ds\<rparr>))"

definition agent_request :: "world \<Rightarrow> received \<Rightarrow> agent \<Rightarrow> answer \<times> agent" where
  "agent_request w req a =
     (case handleRequest (ag_cfg a) w req of
        (ans, ds, iv) \<Rightarrow>
          (ans, a\<lparr>ag_deeds := ag_deeds a @ ds, ag_interval := (case iv of None \<Rightarrow> ag_interval a | Some d \<Rightarrow> Some d)\<rparr>))"

section \<open>Joining the hub\<close>

text \<open>The answer to hello: an error, or the reply; and the configuration afterwards, without the token once the hub
  accepted the agent.\<close>

definition agent_hello :: "string + bool \<times> hello_reply \<Rightarrow> config \<Rightarrow> (string + duration) \<times> config" where
  "agent_hello answer cfg =
     (case answer of
        Inl e \<Rightarrow> (Inl (''hello: '' @ e), cfg)
      | Inr (ok, reply) \<Rightarrow>
          if \<not> ok \<or> \<not> hr_ok reply
          then (Inl (''hub refused this agent: '' @ (if hr_error reply = [] then ''rejected'' else hr_error reply)), cfg)
          else (Inr (clampInterval (hr_interval reply)), cfg\<lparr>cf_token := []\<rparr>))"

definition agent_welcome :: "string + bool \<times> hello_reply \<Rightarrow> agent \<Rightarrow> (string + duration) \<times> agent" where
  "agent_welcome answer a = (case agent_hello answer (ag_cfg a) of (r, cfg) \<Rightarrow> (r, a\<lparr>ag_cfg := cfg\<rparr>))"

text \<open>The next interval of \<open>report\<close>: a new one takes effect at once.\<close>

definition report_interval :: "duration \<Rightarrow> agent \<Rightarrow> duration \<times> agent" where
  "report_interval interval a =
     (case ag_interval a of None \<Rightarrow> (interval, a) | Some d \<Rightarrow> (d, a\<lparr>ag_interval := None\<rparr>))"

definition minBackoff :: duration where "minBackoff = second"
definition maxBackoff :: duration where "maxBackoff = minute"

record reconnect =
  rc_backoff :: duration
  rc_last_err :: string
  rc_last_logged :: go_time

text \<open>
  One round of \<open>Run\<close> after a session that lasted some time: whether the error is logged, how long to
  wait, with the random part that was drawn, and the state of the next round.
\<close>

definition run_round :: "bool \<Rightarrow> duration \<Rightarrow> string \<Rightarrow> go_time \<Rightarrow> duration \<Rightarrow> reconnect \<Rightarrow> bool \<times> duration \<times> reconnect" where
  "run_round joined lasted err now jitter rc =
     (let rc = (if joined then rc\<lparr>rc_last_err := [], rc_backoff := (if minute < lasted then minBackoff else rc_backoff rc)\<rparr> else rc);
          logged = (err \<noteq> rc_last_err rc \<or> 10 * minute < now - rc_last_logged rc);
          rc' = (if logged then rc\<lparr>rc_last_err := err, rc_last_logged := now\<rparr> else rc)
      in (logged, rc_backoff rc' + jitter mod (rc_backoff rc' div 2 + 1), rc'\<lparr>rc_backoff := min (rc_backoff rc' * 2) maxBackoff\<rparr>))"

section \<open>The agent over time\<close>

inductive agent_step :: "agent \<Rightarrow> agent \<Rightarrow> bool" where
  agent_asked: "agent_request w req a = (ans, a') \<Longrightarrow> agent_step a a'"
| agent_opening: "open_begin a = (r, a') \<Longrightarrow> agent_step a a'"
| agent_deciding: "t \<in> set (ag_trying a) \<Longrightarrow> open_decide accepted t a = (r, a') \<Longrightarrow> agent_step a a'"
| agent_serving: "x \<in> set (ag_channels a) \<Longrightarrow> session_request starts req x a = (ok, a') \<Longrightarrow> agent_step a a'"
| agent_closing: "x \<in> set (ag_channels a) \<Longrightarrow> agent_step a (session_close x a)"
| agent_joining: "agent_welcome answer a = (r, a') \<Longrightarrow> agent_step a a'"
| agent_reporting: "report_interval interval a = (d, a') \<Longrightarrow> agent_step a a'"

definition agent_init :: "agent \<Rightarrow> bool" where
  "agent_init a \<longleftrightarrow> ag_sessions a = 0 \<and> ag_trying a = [] \<and> ag_channels a = [] \<and> ag_deeds a = [] \<and> ag_interval a = None"

section \<open>Consent and bounds\<close>

lemma features_shell: "FeatureShell \<in> set (features cfg) \<longleftrightarrow> cf_allow_shell cfg"
  by (simp add: features_def FeatureShell_def FeatureWake_def FeatureUpdate_def)

definition harmless :: "deed \<Rightarrow> bool" where
  "harmless d \<longleftrightarrow> (case d of Packets _ \<Rightarrow> True | _ \<Rightarrow> False)"

definition program :: "deed \<Rightarrow> nat option" where
  "program d = (case d of Shell c \<Rightarrow> Some c | Transfer c \<Rightarrow> Some c | Script c _ \<Rightarrow> Some c | _ \<Rightarrow> None)"

lemma Signal_program: "Signal m pid sig = (e, ds) \<Longrightarrow> list_all (\<lambda>d. program d = None) ds"
  by (auto simp: Signal_def program_def split: if_splits option.splits)

lemma controlService_program: "controlService q m n act = (e, ds) \<Longrightarrow> list_all (\<lambda>d. program d = None) ds"
  by (auto simp: controlService_def program_def split: option.splits)

lemma action_reply_deeds: "action_reply r = (ans, ds) \<Longrightarrow> ds = snd r"
  by (simp add: action_reply_def Let_def)

text \<open>Requests start no program, and without the consent of the owner they only send magic packets.\<close>

lemma handleRequest_deeds:
  assumes "handleRequest cfg w req = (ans, ds, iv)"
  shows "list_all (\<lambda>d. program d = None) ds \<and> (\<not> cf_allow_shell cfg \<longrightarrow> list_all harmless ds)"
proof (cases "\<exists>msg. req = Received msg")
  case True
  then obtain msg where req: "req = Received msg" by blast
  have S: "list_all (\<lambda>d. program d = None) (snd (Signal m p s))" for m p s using Signal_program by (metis prod.collapse)
  have C: "list_all (\<lambda>d. program d = None) (snd (controlService q m n b))" for q m n b using controlService_program by (metis prod.collapse)
  show ?thesis using assms S C unfolding req
    by (cases msg) (auto simp: handleRequest_def Let_def action_reply_def harmless_def program_def split: if_splits prod.splits sum.splits)
next
  case False
  with assms show ?thesis by (cases req) (auto simp: handleRequest_def Let_def split: if_splits)
qed

definition agent_inv :: "agent \<Rightarrow> bool" where
  "agent_inv a \<longleftrightarrow>
     ag_sessions a = int (length (ag_trying a) + length (ag_channels a)) \<and>
     length (ag_channels a) + length (filter (\<lambda>t. snd t \<le> maxSessions) (ag_trying a)) \<le> 16"

lemma length_filter_remove1:
  "t \<in> set xs \<Longrightarrow> length (filter P (remove1 t xs)) + (if P t then 1 else 0) = length (filter P xs)"
  by (induction xs) auto

lemma length_remove1_in: "x \<in> set xs \<Longrightarrow> Suc (length (remove1 x xs)) = length xs"
  by (induction xs) auto

lemma agent_inv_step:
  assumes "agent_inv a" and "agent_step a a'"
  shows "agent_inv a'"
  using assms(2,1)
proof (induction rule: agent_step.induct)
  case (agent_opening a r a')
  show ?case
  proof (cases "cf_allow_shell (ag_cfg a)")
    case True
    let ?n = "length (filter (\<lambda>t. snd t \<le> maxSessions) (ag_trying a))"
    have n: "?n \<le> length (ag_trying a)" by (rule length_filter_le)
    have "ag_sessions a = int (length (ag_trying a) + length (ag_channels a))" "length (ag_channels a) + ?n \<le> 16"
      using agent_opening.prems by (simp_all add: agent_inv_def)
    moreover from this(1) n have "ag_sessions a + 1 \<le> maxSessions \<Longrightarrow> Suc (length (ag_channels a) + ?n) \<le> 16"
      unfolding maxSessions_def by linarith
    ultimately show ?thesis using agent_opening(1) True by (auto simp: open_begin_def agent_inv_def)
  qed (use agent_opening in \<open>simp add: open_begin_def\<close>)
next
  case (agent_deciding t a accepted r a')
  with length_filter_remove1 [OF agent_deciding(1), of "\<lambda>t. snd t \<le> maxSessions"] length_remove1_in [OF agent_deciding(1)]
  show ?case by (auto simp: open_decide_def Let_def agent_inv_def split: if_splits)
next
  case (agent_serving x a starts req ok a')
  with length_remove1_in [OF agent_serving(1)] show ?case
    by (auto simp: session_request_def session_close_def agent_inv_def split: prod.splits option.splits)
next
  case (agent_closing x a)
  with length_remove1_in [OF agent_closing(1)] show ?case by (auto simp: session_close_def agent_inv_def)
qed (auto simp: agent_request_def agent_welcome_def report_interval_def agent_inv_def split: prod.splits option.splits)

text \<open>Without consent there are no sessions and no deeds but magic packets.\<close>

definition consent_inv :: "agent \<Rightarrow> bool" where
  "consent_inv a \<longleftrightarrow> (\<not> cf_allow_shell (ag_cfg a) \<longrightarrow> ag_trying a = [] \<and> ag_channels a = [] \<and> list_all harmless (ag_deeds a))"

lemma agent_hello_allow: "agent_hello answer cfg = (r, cfg') \<Longrightarrow> cf_allow_shell cfg' = cf_allow_shell cfg"
  by (auto simp: agent_hello_def split: sum.splits prod.splits if_splits)

lemma consent_step:
  assumes "consent_inv a" and "agent_step a a'"
  shows "consent_inv a' \<and> cf_allow_shell (ag_cfg a') = cf_allow_shell (ag_cfg a)"
  using assms(2,1)
proof (induction rule: agent_step.induct)
  case (agent_asked w req a ans a')
  then show ?case by (auto simp: agent_request_def consent_inv_def dest: handleRequest_deeds split: prod.splits)
next
  case (agent_joining answer a r a')
  then show ?case by (auto simp: agent_welcome_def consent_inv_def dest: agent_hello_allow split: prod.splits)
qed (auto simp: open_begin_def open_decide_def Let_def session_request_def session_close_def report_interval_def consent_inv_def
    split: prod.splits option.splits if_splits)

text \<open>A channel runs one program at most.\<close>

definition programs :: "deed list \<Rightarrow> nat list" where
  "programs ds = List.map_filter program ds"

lemma programs_simps [simp]: "programs [] = []" "programs (ds @ es) = programs ds @ programs es"
  by (simp_all add: programs_def map_filter_def)

lemma programs_none: "list_all (\<lambda>d. program d = None) ds \<Longrightarrow> programs ds = []"
  by (induction ds) (auto simp: programs_def map_filter_def)

definition program_ok :: "nat list \<Rightarrow> (nat \<times> chan) list \<Rightarrow> nat list \<Rightarrow> nat \<Rightarrow> bool" where
  "program_ok T C P n \<longleftrightarrow>
     distinct T \<and> distinct (map fst C) \<and> set T \<inter> set (map fst C) = {} \<and> distinct P \<and> set T \<inter> set P = {} \<and>
     (\<forall>c \<in> set T \<union> set (map fst C) \<union> set P. c < n) \<and> (\<forall>x \<in> set C. fst x \<in> set P \<longrightarrow> ch_started (snd x))"

definition program_inv :: "agent \<Rightarrow> bool" where
  "program_inv a \<longleftrightarrow> program_ok (map fst (ag_trying a)) (ag_channels a) (programs (ag_deeds a)) (ag_next a)"

lemma program_ok_less:
  assumes "program_ok T C P n" and "distinct T'" and "set T' \<subseteq> set T" and "distinct (map fst C')" and "set C' \<subseteq> set C"
  shows "program_ok T' C' P n"
proof -
  have "set (map fst C') \<subseteq> set (map fst C)" using assms(5) by auto
  then have "set T' \<inter> set (map fst C') = {}" "set T' \<inter> set P = {}" "\<forall>c \<in> set T' \<union> set (map fst C') \<union> set P. c < n"
    using assms(1,3) unfolding program_ok_def by blast+
  moreover have "\<forall>x \<in> set C'. fst x \<in> set P \<longrightarrow> ch_started (snd x)" "distinct P"
    using assms(1,5) unfolding program_ok_def by blast+
  ultimately show ?thesis using assms(2,4) unfolding program_ok_def by blast
qed

lemma program_ok_try: "program_ok T C P n \<Longrightarrow> program_ok (n # T) C P (Suc n)"
  by (auto simp: program_ok_def less_Suc_eq)

lemma program_ok_serve:
  "program_ok T C P n \<Longrightarrow> c \<notin> set T \<Longrightarrow> c \<notin> set (map fst C) \<Longrightarrow> c < n \<Longrightarrow> (c \<in> set P \<longrightarrow> ch_started ch) \<Longrightarrow>
     program_ok T ((c, ch) # C) P n"
  by (auto simp: program_ok_def)

lemma program_ok_run:
  "program_ok T C P n \<Longrightarrow> c \<notin> set T \<Longrightarrow> c \<notin> set (map fst C) \<Longrightarrow> c < n \<Longrightarrow> c \<notin> set P \<Longrightarrow> program_ok T C (P @ [c]) n"
  by (auto simp: program_ok_def)

lemma serve_request_cases:
  assumes "serve_request starts c req ch = (ok, res, ds)"
  shows "programs ds = [] \<and> (\<forall>ch'. res = Some ch' \<longrightarrow> ch_started ch' = ch_started ch) \<or>
    programs ds = [c] \<and> \<not> ch_started ch \<and> (\<exists>ch'. res = Some ch' \<and> ch_started ch')"
proof (cases "\<exists>msg. req = Received msg")
  case True
  then obtain msg where req: "req = Received msg" by blast
  show ?thesis using assms unfolding req
    by (cases msg) (auto simp: serve_request_def programs_def map_filter_def program_def split: if_splits option.splits)
next
  case False
  with assms show ?thesis by (cases req) (auto simp: serve_request_def)
qed

lemma remove1_pairs:
  assumes "distinct (map fst xs)" and "x \<in> set xs"
  shows "set (remove1 x xs) = set xs - {x} \<and> distinct (map fst (remove1 x xs)) \<and> fst x \<notin> fst ` set (remove1 x xs)"
  using assms
proof -
  have d: "distinct xs" using assms(1) by (simp add: distinct_map)
  then have s: "set (remove1 x xs) = set xs - {x}" by simp
  moreover have "distinct (map fst (remove1 x xs))" using assms(1) d by (auto simp: distinct_map intro: inj_on_subset)
  moreover have "fst x \<notin> fst ` set (remove1 x xs)" using assms s by (auto simp: distinct_map inj_on_def)
  ultimately show ?thesis by blast
qed

lemma program_step:
  assumes "program_inv a" and "agent_step a a'"
  shows "program_inv a'"
  using assms(2,1)
proof (induction rule: agent_step.induct)
  case (agent_asked w req a ans a')
  obtain ans' ds iv where r: "handleRequest (ag_cfg a) w req = (ans', ds, iv)" by (metis prod.exhaust)
  have "programs ds = []" using handleRequest_deeds [OF r] by (simp add: programs_none)
  with agent_asked r show ?case by (auto simp: agent_request_def program_inv_def)
next
  case (agent_opening a r a')
  then show ?case by (auto simp: open_begin_def program_inv_def intro: program_ok_try split: if_splits)
next
  case (agent_deciding t a accepted r a')
  let ?T = "map fst (remove1 t (ag_trying a))"
  have d: "distinct (map fst (ag_trying a))" "distinct (map fst (ag_channels a))" using agent_deciding.prems
    by (simp_all add: program_inv_def program_ok_def)
  note rm = remove1_pairs [OF d(1) agent_deciding(1)]
  have less: "program_ok ?T (ag_channels a) (programs (ag_deeds a)) (ag_next a)"
    using program_ok_less [OF agent_deciding.prems [unfolded program_inv_def], of ?T "ag_channels a"] rm d by auto
  moreover have "fst t \<notin> set ?T" using rm unfolding set_map by blast
  moreover have "fst t \<notin> set (map fst (ag_channels a))" "fst t < ag_next a" "fst t \<notin> set (programs (ag_deeds a))"
    using agent_deciding.prems agent_deciding(1) by (auto simp: program_inv_def program_ok_def)
  ultimately show ?case using agent_deciding(2)
    by (auto simp: open_decide_def Let_def program_inv_def intro!: program_ok_serve split: if_splits)
next
  case (agent_serving x a starts req ok a')
  let ?C = "remove1 x (ag_channels a)" and ?T = "map fst (ag_trying a)" and ?P = "programs (ag_deeds a)"
  have d: "distinct ?T" "distinct (map fst (ag_channels a))" using agent_serving.prems by (simp_all add: program_inv_def program_ok_def)
  note rm = remove1_pairs [OF d(2) agent_serving(1)]
  have less: "program_ok ?T ?C ?P (ag_next a)"
    using program_ok_less [OF agent_serving.prems [unfolded program_inv_def], of ?T ?C] rm d by auto
  have c: "fst x \<notin> set ?T" "fst x < ag_next a" "fst x \<in> set ?P \<Longrightarrow> ch_started (snd x)" "fst x \<notin> set (map fst ?C)"
    using agent_serving.prems agent_serving(1) rm unfolding program_inv_def program_ok_def set_map by blast+
  obtain ok' res ds where s: "serve_request starts (fst x) req (snd x) = (ok', res, ds)" by (metis prod.exhaust)
  from serve_request_cases [OF s] show ?case
  proof
    assume "programs ds = [] \<and> (\<forall>ch'. res = Some ch' \<longrightarrow> ch_started ch' = ch_started (snd x))"
    with agent_serving(2) s less c show ?thesis
      by (cases res) (auto simp: session_request_def session_close_def program_inv_def intro!: program_ok_serve)
  next
    assume run: "programs ds = [fst x] \<and> \<not> ch_started (snd x) \<and> (\<exists>ch'. res = Some ch' \<and> ch_started ch')"
    with c have "program_ok ?T ?C (?P @ [fst x]) (ag_next a)" by (intro program_ok_run less) auto
    with run agent_serving(2) s c show ?thesis by (auto simp: session_request_def program_inv_def intro!: program_ok_serve)
  qed
next
  case (agent_closing x a)
  have d: "distinct (map fst (ag_trying a))" "distinct (map fst (ag_channels a))" using agent_closing.prems
    by (simp_all add: program_inv_def program_ok_def)
  from program_ok_less [OF agent_closing.prems [unfolded program_inv_def] d(1)] remove1_pairs [OF d(2) agent_closing(1)]
  show ?case by (simp add: session_close_def program_inv_def)
next
  case (agent_joining answer a r a')
  then show ?case by (auto simp: agent_welcome_def program_inv_def split: prod.splits)
next
  case (agent_reporting interval a d a')
  then show ?case by (auto simp: report_interval_def program_inv_def split: option.splits)
qed

definition all_inv :: "agent \<Rightarrow> bool" where
  "all_inv a \<longleftrightarrow> agent_inv a \<and> consent_inv a \<and> program_inv a"

interpretation agent_system: invariant_system agent_init agent_step all_inv
proof
  show "agent_init a \<Longrightarrow> all_inv a" for a
    by (simp add: agent_init_def all_inv_def agent_inv_def consent_inv_def program_inv_def program_ok_def)
  show "all_inv a \<Longrightarrow> agent_step a b \<Longrightarrow> all_inv b" for a b
    using agent_inv_step consent_step program_step unfolding all_inv_def by blast
qed

lemma consent_constant: "reaches agent_step a b \<Longrightarrow> all_inv a \<Longrightarrow> cf_allow_shell (ag_cfg b) = cf_allow_shell (ag_cfg a)"
proof (induction rule: reaches.induct)
  case (reaches_step s t u)
  then have "consent_inv t" using agent_system.inv_from by (simp add: all_inv_def)
  with reaches_step consent_step show ?case by simp
qed simp

lemma handleRequest_processes:
  assumes "handleRequest cfg w req = (Answered ok (ProcessesReply l), ds, iv)"
  shows "\<exists>n \<le> 100. Processes w n (cf_allow_shell cfg) = Inr l"
proof (cases "\<exists>msg. req = Received msg")
  case True
  then obtain msg where req: "req = Received msg" by blast
  show ?thesis using assms unfolding req
    by (cases msg) (auto simp: handleRequest_def Let_def action_reply_def process_reply_def
        intro!: exI [of _ "nat (min (max _ 1) 100)"] split: if_splits prod.splits sum.splits)
next
  case False
  with assms show ?thesis
    by (cases req) (auto simp: handleRequest_def Let_def process_reply_def intro!: exI [of _ 1] split: if_splits sum.splits)
qed

lemma Processes_hides: "Processes w n False = Inr l \<Longrightarrow> list_all (\<lambda>p. ps_command p = []) (pl_processes l) \<and> length (pl_processes l) \<le> n"
  by (auto simp: Processes_def Let_def proc_row_def list_all_iff split: sum.splits)

text \<open>
  (C12) A machine whose owner did not allow remote control is not controlled, whatever a hub sends it in any
  order: no session is ever served, all the agent ever does is to send magic packets, it does not announce the
  feature, and its process lists contain no command lines.
\<close>

theorem no_control_without_consent:
  assumes "agent_init a" and "reaches agent_step a b" and "\<not> cf_allow_shell (ag_cfg a)"
  shows "ag_channels b = [] \<and> list_all harmless (ag_deeds b) \<and> FeatureShell \<notin> set (features (ag_cfg b)) \<and>
    (\<forall>w req ok l. fst (agent_request w req b) = Answered ok (ProcessesReply l) \<longrightarrow> list_all (\<lambda>p. ps_command p = []) (pl_processes l))"
proof -
  have inv: "all_inv b" and off: "\<not> cf_allow_shell (ag_cfg b)"
    using agent_system.inv_reachable assms agent_system.inv_init consent_constant by blast+
  have "list_all (\<lambda>p. ps_command p = []) (pl_processes l)"
    if "fst (agent_request w req b) = Answered ok (ProcessesReply l)" for w req ok l
  proof -
    from that obtain ds iv where "handleRequest (ag_cfg b) w req = (Answered ok (ProcessesReply l), ds, iv)"
      by (auto simp: agent_request_def split: prod.splits)
    from handleRequest_processes [OF this] off Processes_hides show ?thesis by auto
  qed
  with inv off show ?thesis by (auto simp: all_inv_def consent_inv_def features_shell)
qed

text \<open>
  (C13) However many links and handlers are at work at once, an agent serves at most sixteen sessions, and
  each session starts one program at most: a shell, a file transfer or a script.
\<close>

theorem sessions_bounded:
  assumes "agent_init a" and "reaches agent_step a b"
  shows "length (ag_channels b) \<le> 16 \<and> distinct (programs (ag_deeds b))"
  using agent_system.inv_reachable [OF assms] by (simp add: all_inv_def agent_inv_def program_inv_def program_ok_def)

section \<open>An example\<close>

definition demo_agent_of :: "bool \<Rightarrow> agent" where
  "demo_agent_of allow = \<lparr>ag_cfg = \<lparr>cf_hub_url = [], cf_hub_key = [], cf_token = [], cf_allow_shell = allow, cf_disable_updates = False\<rparr>,
     ag_sessions = 0, ag_trying = [], ag_channels = [], ag_next = 0, ag_interval = None, ag_deeds = []\<rparr>"

lemma demo_agent_init: "agent_init (demo_agent_of allow)"
  by (simp add: agent_init_def demo_agent_of_def)

theorem no_control_without_consent_witness:
  "ag_channels (snd (open_begin (demo_agent_of False))) = [] \<and>
   FeatureShell \<notin> set (features (ag_cfg (snd (open_begin (demo_agent_of False)))))"
proof -
  have "reaches agent_step (demo_agent_of False) (snd (open_begin (demo_agent_of False)))"
    by (rule reaches_single, rule agent_opening, rule prod.collapse [symmetric])
  from no_control_without_consent [OF demo_agent_init this] show ?thesis by (simp add: demo_agent_of_def)
qed

definition demo_open :: agent where
  "demo_open = snd (open_decide True (0, 1) (snd (open_begin (demo_agent_of True))))"

definition demo_script :: agent where
  "demo_script = snd (session_request True (Received (MsgScript \<lparr>cm_shell = ''sh'', cm_script = ''ls'', cm_timeout = 5\<rparr>))
     (hd (ag_channels demo_open)) demo_open)"

lemma demo_script_reached: "reaches agent_step (demo_agent_of True) demo_script"
proof -
  have "agent_step (demo_agent_of True) (snd (open_begin (demo_agent_of True)))"
    by (rule agent_opening, rule prod.collapse [symmetric])
  moreover have "agent_step (snd (open_begin (demo_agent_of True))) demo_open"
    unfolding demo_open_def
    by (rule agent_deciding [where t = "(0, 1)"], simp add: open_begin_def demo_agent_of_def, rule prod.collapse [symmetric])
  moreover have "hd (ag_channels demo_open) \<in> set (ag_channels demo_open)"
    by (simp add: demo_open_def open_begin_def demo_agent_of_def open_decide_def maxSessions_def)
  then have "agent_step demo_open demo_script" unfolding demo_script_def
    by (rule agent_serving [OF _ prod.collapse [symmetric]])
  ultimately show ?thesis by (meson reaches_refl reaches_step)
qed

theorem sessions_bounded_witness:
  "length (ag_channels demo_script) \<le> 16 \<and> distinct (programs (ag_deeds demo_script)) \<and> programs (ag_deeds demo_script) = [0]"
proof -
  have "programs (ag_deeds demo_script) = [0]" by code_simp
  with sessions_bounded [OF demo_agent_init demo_script_reached] show ?thesis by simp
qed

section \<open>Intervals and reconnecting\<close>

lemma clampInterval_bounds: "second \<le> clampInterval s \<and> clampInterval s \<le> hour"
  by (simp add: clampInterval_def Let_def)

text \<open>The agent waits between one and ninety seconds before it tries again.\<close>

lemma run_round_bounded:
  assumes "minBackoff \<le> rc_backoff rc" and "rc_backoff rc \<le> maxBackoff"
    and "run_round joined lasted err now jitter rc = (logged, wait, rc')"
  shows "second \<le> wait \<and> wait \<le> 90 * second \<and> minBackoff \<le> rc_backoff rc' \<and> rc_backoff rc' \<le> maxBackoff"
proof -
  define b where "b = (if joined \<and> minute < lasted then minBackoff else rc_backoff rc)"
  have b: "second \<le> b" "b \<le> minute" using assms(1,2) by (auto simp: b_def minBackoff_def maxBackoff_def)
  have "wait = b + jitter mod (b div 2 + 1)" "rc_backoff rc' = min (b * 2) maxBackoff"
    using assms(3) by (auto simp: run_round_def Let_def b_def)
  moreover have "0 < b div 2 + 1" using b by linarith
  from pos_mod_sign [OF this, of jitter] pos_mod_bound [OF this, of jitter]
  have "0 \<le> jitter mod (b div 2 + 1)" "jitter mod (b div 2 + 1) \<le> b div 2" by simp_all
  then have "second \<le> b + jitter mod (b div 2 + 1)" "b + jitter mod (b div 2 + 1) \<le> 90 * second" using b by linarith+
  ultimately show ?thesis using b by (auto simp: minBackoff_def maxBackoff_def)
qed

end
