(* ===== verification/Containers.thy ===== *)
theory Containers
  imports Machine "HOL-Library.Multiset"
begin

text \<open>
  Containers and batteries (\<open>agent/collect/docker.go\<close>, \<open>battery_linux.go\<close>, \<open>battery_windows.go\<close>,
  \<open>battery_darwin.go\<close>). Counters are 64-bit words. The answers of the container runtime and what the system
  libraries report are arguments.
\<close>

section \<open>Rates\<close>

type_synonym counters = "64 word \<times> 64 word"

definition rate :: "64 word \<Rightarrow> 64 word \<Rightarrow> rat \<Rightarrow> rat" where
  "rate prev cur seconds = (if cur < prev then 0 else of_int (uint (cur - prev)) / seconds)"

definition Seconds :: "duration \<Rightarrow> rat" where
  "Seconds d = of_int d / of_int second"

section \<open>The container runtime\<close>

definition maxContainers :: nat where "maxContainers = 64"

record docker_container =
  dc_id :: string
  dc_names :: "string list"
  dc_image :: string
  dc_state :: string
  dc_status :: string

record docker_stats =
  ds_cpu :: "64 word"
  ds_system :: "64 word"
  ds_usage :: "64 word"
  ds_limit :: "64 word"
  ds_stats :: "string \<rightharpoonup> 64 word"
  ds_networks :: "counters list"

record container_counters =
  cc_cpu :: "64 word"
  cc_system :: "64 word"
  cc_rx :: "64 word"
  cc_tx :: "64 word"

text \<open>The client is the socket it dials, if one was found.\<close>

record docker =
  dk_client :: "string option"
  dk_last_probe :: go_time
  dk_prev :: "string \<rightharpoonup> container_counters"
  dk_prev_time :: go_time

definition no_docker :: docker where
  "no_docker = \<lparr>dk_client = None, dk_last_probe = zero_time, dk_prev = (\<lambda>_. None), dk_prev_time = zero_time\<rparr>"

definition UserHomeDir :: "machine \<Rightarrow> string option" where
  "UserHomeDir m =
     (let home = mc_getenv m (if mc_goos m = ''windows'' then ''USERPROFILE'' else ''HOME'') in if home = [] then None else Some home)"

definition dockerSockets :: "machine \<Rightarrow> string list" where
  "dockerSockets m =
     (let h = mc_getenv m ''DOCKER_HOST'' in
      (if HasPrefix h ''unix://'' then [TrimPrefix h ''unix://''] else []) @
      [''/var/run/docker.sock'', ''/run/podman/podman.sock''] @
      (case UserHomeDir m of None \<Rightarrow> [] | Some home \<Rightarrow> [mc_join m home ''.docker/run/docker.sock'']))"

text \<open>\<open>is_socket\<close> is whether a path can be looked at and is a socket.\<close>

definition available :: "machine \<Rightarrow> (string \<Rightarrow> bool) \<Rightarrow> go_time \<Rightarrow> docker \<Rightarrow> bool \<times> docker" where
  "available m is_socket now d =
     (if mc_goos m = ''windows'' then (False, d)
      else if dk_client d \<noteq> None then (True, d)
      else if time_sub now (dk_last_probe d) < minute then (False, d)
      else let d = d\<lparr>dk_last_probe := now\<rparr> in
        (case find is_socket (dockerSockets m) of
           None \<Rightarrow> (False, d)
         | Some p \<Rightarrow> (True, d\<lparr>dk_client := Some p\<rparr>)))"

text \<open>An error of the client: whether it is \<open>os.ErrNotExist\<close>, and its text. An answer that arrived has a status and a body to decode.\<close>

type_synonym docker_error = "bool \<times> string"

datatype 'v http_answer = Failed docker_error | Response nat string "docker_error + 'v"

definition docker_get :: "string \<Rightarrow> 'v http_answer \<Rightarrow> docker_error + 'v" where
  "docker_get path ans =
     (case ans of
        Failed e \<Rightarrow> Inl e
      | Response code status body \<Rightarrow> if code \<noteq> 200 then Inl (False, ''docker API '' @ path @ '': '' @ status) else body)"

definition firstOr :: "string list \<Rightarrow> string \<Rightarrow> string" where
  "firstOr s def = (case s of [] \<Rightarrow> def | x # _ \<Rightarrow> x)"

definition shortID :: "string \<Rightarrow> string" where
  "shortID i = (if 12 < length i then take 12 i else i)"

definition plain_container :: "docker_container \<Rightarrow> container" where
  "plain_container c =
     \<lparr>ct_id = shortID (dc_id c), ct_name = TrimPrefix (firstOr (dc_names c) (dc_id c)) ''/'', ct_image = dc_image c, ct_state = dc_state c,
      ct_status = dc_status c, ct_cpu = 0, ct_mem = 0, ct_mem_limit = 0, ct_net_rx = 0, ct_net_tx = 0\<rparr>"

definition stats_counters :: "docker_stats \<Rightarrow> container_counters" where
  "stats_counters s =
     \<lparr>cc_cpu = ds_cpu s, cc_system = ds_system s, cc_rx = sum_list (map fst (ds_networks s)), cc_tx = sum_list (map snd (ds_networks s))\<rparr>"

text \<open>A missing key of a Go map reads as zero.\<close>

definition stat_of :: "docker_stats \<Rightarrow> string \<Rightarrow> 64 word" where
  "stat_of s key = (case ds_stats s key of None \<Rightarrow> 0 | Some n \<Rightarrow> n)"

definition with_stats :: "rat \<Rightarrow> container_counters option \<Rightarrow> docker_stats \<Rightarrow> container \<Rightarrow> container" where
  "with_stats elapsed prev s ct =
     (let cur = stats_counters s;
          ct = ct\<lparr>ct_mem := uint (ds_usage s - min (ds_usage s) (stat_of s ''inactive_file'' + stat_of s ''total_inactive_file'')),
                  ct_mem_limit := uint (ds_limit s)\<rparr>
      in case prev of
           Some prev \<Rightarrow>
             if 0 < elapsed then
               ct\<lparr>ct_cpu := (if cc_system prev < cc_system cur \<and> cc_cpu prev \<le> cc_cpu cur
                    then of_int (uint (cc_cpu cur - cc_cpu prev)) / of_int (uint (cc_system cur - cc_system prev)) * 100 else ct_cpu ct),
                  ct_net_rx := rate (cc_rx prev) (cc_rx cur) elapsed, ct_net_tx := rate (cc_tx prev) (cc_tx cur) elapsed\<rparr>
             else ct
         | None \<Rightarrow> ct)"

text \<open>What the runtime answers during a sample. The identifiers of containers are unique, so the statistics are a function of them.\<close>

record runtime =
  rt_is_socket :: "string \<Rightarrow> bool"
  rt_probed :: go_time
  rt_list :: "docker_container list http_answer"
  rt_now :: go_time
  rt_stats :: "string \<Rightarrow> docker_stats http_answer"

definition stats_path :: "string \<Rightarrow> string" where
  "stats_path i = ''/containers/'' @ i @ ''/stats?stream=false&one-shot=true''"

definition stats_of :: "runtime \<Rightarrow> docker_container \<Rightarrow> docker_stats option" where
  "stats_of rt c =
     (if dc_state c \<noteq> ''running'' then None
      else case docker_get (stats_path (dc_id c)) (rt_stats rt (dc_id c)) of Inl _ \<Rightarrow> None | Inr s \<Rightarrow> Some s)"

definition container_row :: "runtime \<Rightarrow> rat \<Rightarrow> docker \<Rightarrow> docker_container \<Rightarrow> container" where
  "container_row rt elapsed d c =
     (case stats_of rt c of None \<Rightarrow> plain_container c | Some s \<Rightarrow> with_stats elapsed (dk_prev d (dc_id c)) s (plain_container c))"

definition containers :: "machine \<Rightarrow> runtime \<Rightarrow> docker \<Rightarrow> container list \<times> docker" where
  "containers m rt d =
     (case available m (rt_is_socket rt) (rt_probed rt) d of
        (False, d) \<Rightarrow> ([], d)
      | (True, d) \<Rightarrow>
          (case docker_get ''/containers/json?all=true'' (rt_list rt) of
             Inl e \<Rightarrow> ([], if fst e \<or> Contains (snd e) ''connect'' then d\<lparr>dk_client := None\<rparr> else d)
           | Inr l \<Rightarrow>
               let l = take maxContainers l; elapsed = Seconds (time_sub (rt_now rt) (dk_prev_time d)) in
               (map (container_row rt elapsed d) l,
                d\<lparr>dk_prev := map_of (List.map_filter (\<lambda>c. map_option (\<lambda>s. (dc_id c, stats_counters s)) (stats_of rt c)) l),
                  dk_prev_time := rt_now rt\<rparr>)))"

section \<open>Batteries\<close>

text \<open>
  On Linux: the folder of a power supply, by its files, trimmed. \<open>float\<close> is \<open>strconv.ParseFloat\<close>; the infinities and
  \<open>NaN\<close>, which the kernel does not write, are left out.
\<close>

type_synonym power_supply = "string \<Rightarrow> string"

definition battery_weight :: "(string \<Rightarrow> rat option) \<Rightarrow> power_supply \<Rightarrow> rat" where
  "battery_weight float rd =
     (case List.map_filter (\<lambda>n. case float (rd n) of Some x \<Rightarrow> if 0 < x then Some x else None | None \<Rightarrow> None) [''energy_full'', ''charge_full''] of
        [] \<Rightarrow> 1 | w # _ \<Rightarrow> w)"

definition battery_step :: "(string \<Rightarrow> rat option) \<Rightarrow> rat \<times> rat \<times> string \<Rightarrow> power_supply \<Rightarrow> rat \<times> rat \<times> string" where
  "battery_step float acc rd =
     (case acc of (charge, weight, state) \<Rightarrow>
        if rd ''type'' \<noteq> ''Battery'' \<or> rd ''scope'' = ''Device'' \<or> rd ''present'' = ''0'' then acc
        else (case float (rd ''capacity'') of
                None \<Rightarrow> acc
              | Some percent \<Rightarrow>
                  let w = battery_weight float rd in
                  (charge + percent * w, weight + w,
                   if rd ''status'' = ''Charging'' then ''charging''
                   else if rd ''status'' = ''Discharging'' \<and> state \<noteq> ''charging'' then ''discharging'' else state)))"

definition batteryFrom :: "(string \<Rightarrow> rat option) \<Rightarrow> power_supply list \<Rightarrow> battery option" where
  "batteryFrom float dirs =
     (case foldl (battery_step float) (0, 0, ''idle'') dirs of
        (charge, weight, state) \<Rightarrow>
          if weight = 0 then None else Some \<lparr>bt_percent = min 100 (charge / weight), bt_state = state\<rparr>)"

text \<open>On Windows: \<open>SYSTEM_POWER_STATUS\<close>.\<close>

record systemPowerStatus =
  sp_ac_line :: "8 word"
  sp_flag :: "8 word"
  sp_percent :: "8 word"

unbundle bit_operations_syntax

definition windows_battery :: "systemPowerStatus option \<Rightarrow> battery option" where
  "windows_battery status =
     (case status of
        None \<Rightarrow> None
      | Some s \<Rightarrow>
          if sp_flag s AND 128 \<noteq> 0 \<or> sp_flag s = 255 \<or> 100 < sp_percent s then None
          else Some \<lparr>bt_percent = of_int (uint (sp_percent s)),
            bt_state = (if sp_flag s AND 8 \<noteq> 0 then ''charging'' else if sp_ac_line s = 0 then ''discharging'' else ''idle'')\<rparr>)"

text \<open>
  On macOS: the description of a power source, \<open>None\<close> where a key is missing. The sums are 64-bit
  integers. The whole list is \<open>None\<close> where the library cannot be loaded or gives none.
\<close>

record power_source =
  po_type :: "string option"
  po_present :: "bool option"
  po_current :: "int option"
  po_max :: "int option"
  po_charging :: "bool option"
  po_state :: "string option"

definition darwin_step :: "int \<times> int \<times> bool \<times> bool \<Rightarrow> power_source option \<Rightarrow> int \<times> int \<times> bool \<times> bool" where
  "darwin_step acc src =
     (case (acc, src) of
        ((current, capacity, charging, external), Some d) \<Rightarrow>
          let full = (case po_max d of None \<Rightarrow> 0 | Some n \<Rightarrow> n) in
          if po_type d \<noteq> Some ''InternalBattery'' \<or> po_present d = Some False \<or> full \<le> 0 then acc
          else (int64 (current + (case po_current d of None \<Rightarrow> 0 | Some n \<Rightarrow> n)), int64 (capacity + full),
                charging \<or> po_charging d = Some True, external \<or> po_state d = Some ''AC Power'')
      | _ \<Rightarrow> acc)"

definition darwin_battery :: "power_source option list option \<Rightarrow> battery option" where
  "darwin_battery srcs =
     (case srcs of
        None \<Rightarrow> None
      | Some l \<Rightarrow>
          (case foldl darwin_step (0, 0, False, False) l of
             (current, capacity, charging, external) \<Rightarrow>
               if capacity = 0 then None
               else Some \<lparr>bt_percent = min 100 (of_int current / of_int capacity * 100),
                 bt_state = (if charging then ''charging'' else if external then ''idle'' else ''discharging'')\<rparr>))"

datatype power_reading =
    Power_supplies "string \<Rightarrow> rat option" "power_supply list"
  | Power_status "systemPowerStatus option"
  | Power_sources "power_source option list option"

definition battery_of :: "power_reading \<Rightarrow> battery option" where
  "battery_of p =
     (case p of
        Power_supplies float dirs \<Rightarrow> batteryFrom float dirs
      | Power_status s \<Rightarrow> windows_battery s
      | Power_sources l \<Rightarrow> darwin_battery l)"

section \<open>What is reported is in range\<close>

lemma rate_nonneg: "0 \<le> seconds \<Longrightarrow> 0 \<le> rate prev cur seconds"
  unfolding rate_def by (simp del: of_int_uint)

definition container_ok :: "container \<Rightarrow> bool" where
  "container_ok c \<longleftrightarrow> length (ct_id c) \<le> 12 \<and> 0 \<le> ct_cpu c \<and> 0 \<le> ct_mem c \<and> 0 \<le> ct_mem_limit c \<and> 0 \<le> ct_net_rx c \<and> 0 \<le> ct_net_tx c"

lemma plain_container_ok: "container_ok (plain_container c)"
  by (simp add: container_ok_def plain_container_def shortID_def)

lemma with_stats_ok: "container_ok ct \<Longrightarrow> container_ok (with_stats elapsed prev s ct)"
  by (auto simp: container_ok_def with_stats_def Let_def rate_nonneg simp del: of_int_uint split: option.splits)

lemma container_row_ok: "container_ok (container_row rt elapsed d c)"
  by (simp add: container_row_def plain_container_ok with_stats_ok split: option.splits)

text \<open>The list of containers is bounded, and so are the counters that are kept for the next sample.\<close>

lemma containers_ok:
  assumes "containers m rt d = (cs, d')"
  shows "length cs \<le> maxContainers \<and> list_all container_ok cs"
  using assms by (auto simp: containers_def Let_def container_row_ok list_all_iff split: prod.splits bool.splits sum.splits)

lemma card_dom_map_of: "card (dom (map_of xs)) \<le> length xs"
  by (metis card_length dom_map_of_conv_image_fst length_map set_map)

lemma length_map_filter: "length (List.map_filter f xs) \<le> length xs"
  by (induction xs) (auto split: option.splits)

lemma available_prev: "available m s now d = (ok, d') \<Longrightarrow> dk_prev d' = dk_prev d"
  by (auto simp: available_def Let_def split: if_splits option.splits)

lemma containers_kept:
  assumes "containers m rt d = (cs, d')" and "card (dom (dk_prev d)) \<le> maxContainers"
  shows "card (dom (dk_prev d')) \<le> maxContainers"
proof -
  have "card (dom (map_of (List.map_filter f (take maxContainers l)))) \<le> maxContainers" for f :: "docker_container \<Rightarrow> (string \<times> container_counters) option" and l
    using card_dom_map_of [of "List.map_filter f (take maxContainers l)"] length_map_filter [of f "take maxContainers l"] by simp
  then show ?thesis using assms
    by (auto simp: containers_def Let_def dest!: available_prev split: prod.splits bool.splits sum.splits if_splits)
qed

text \<open>The sockets are looked for once a minute at most.\<close>

lemma available_probes:
  assumes "available m s now d = (ok, d')" and "dk_last_probe d' \<noteq> dk_last_probe d"
  shows "minute \<le> time_sub now (dk_last_probe d) \<and> dk_last_probe d' = now"
  using assms by (auto simp: available_def Let_def split: if_splits option.splits)

lemma battery_percent: "battery_of p = Some b \<Longrightarrow> bt_percent b \<le> 100 \<and> bt_state b \<in> {''charging'', ''discharging'', ''idle''}"
proof (cases p)
  case (Power_supplies float dirs)
  have step: "snd (snd (battery_step float acc rd)) \<in> {''charging'', ''discharging'', ''idle''}"
    if "snd (snd acc) \<in> {''charging'', ''discharging'', ''idle''}" for acc rd
    using that by (auto simp: battery_step_def Let_def split: prod.splits option.splits)
  have "snd (snd (foldl (battery_step float) acc dirs)) \<in> {''charging'', ''discharging'', ''idle''}"
    if "snd (snd acc) \<in> {''charging'', ''discharging'', ''idle''}" for acc
    using that by (induction dirs arbitrary: acc) (simp_all only: foldl.simps step)
  from this [of "(0, 0, ''idle'')"] show "battery_of p = Some b \<Longrightarrow> ?thesis"
    by (auto simp: Power_supplies battery_of_def batteryFrom_def split: prod.splits if_splits)
next
  case (Power_status s)
  have "of_int (uint w) \<le> (100 :: rat)" if "\<not> 100 < w" for w :: "8 word"
    using that by (simp add: word_less_def of_int_le_iff [of _ 100, simplified] del: of_int_uint)
  then show "battery_of p = Some b \<Longrightarrow> ?thesis"
    by (auto simp: Power_status battery_of_def windows_battery_def simp del: of_int_uint split: option.splits if_splits)
next
  case (Power_sources l)
  show "battery_of p = Some b \<Longrightarrow> ?thesis"
    by (auto simp: Power_sources battery_of_def darwin_battery_def split: option.splits prod.splits if_splits)
qed

end
