(* ===== verification/Collect.thy ===== *)
theory Collect
  imports Containers Interfaces
begin

text \<open>
  The collection of metrics (\<open>agent/collect\<close>: \<open>collect.go\<close>, \<open>filters.go\<close>, \<open>fsprobe.go\<close>): filters, rates, filesystems
  with their background probe, and the sample that puts them together. What the system library reads is an argument,
  and so is \<open>sort.Slice\<close>, which does not say how it orders equal elements.
\<close>

section \<open>Filters\<close>

record partition =
  pa_device :: string
  pa_mount :: string
  pa_type :: string

definition skipFSTypes :: "string list" where
  "skipFSTypes = [''tmpfs'', ''devtmpfs'', ''squashfs'', ''overlay'', ''iso9660'', ''ramfs'', ''nsfs'', ''fuse.snapfuse'', ''devfs'', ''autofs'', ''nullfs'']"

definition keepFilesystem :: "string \<Rightarrow> partition \<Rightarrow> bool" where
  "keepFilesystem os p \<longleftrightarrow>
     pa_type p \<notin> set skipFSTypes \<and>
     (if os = ''darwin'' then pa_mount p = ''/'' \<or> HasPrefix (pa_mount p) ''/Volumes/''
      else if os = ''linux'' then \<not> HasPrefix (pa_mount p) ''/snap/'' \<and> \<not> HasPrefix (pa_mount p) ''/boot''
      else True)"

definition virtualIfPrefixes :: "string list" where
  "virtualIfPrefixes =
     [''lo'', ''docker'', ''veth'', ''br-'', ''virbr'', ''vmnet'', ''vboxnet'', ''cni'', ''flannel'', ''cali'', ''kube'',
      ''tun'', ''tap'', ''wg'', ''tailscale'', ''zt'', ''utun'', ''awdl'', ''llw'', ''bridge'', ''anpi'', ''ap1'', ''gif'', ''stf'',
      ''Loopback'', ''vEthernet'', ''isatap'', ''Teredo'', ''Local Area Connection*'']"

definition virtualInterface :: "string \<Rightarrow> bool" where
  "virtualInterface name = list_ex (HasPrefix name) virtualIfPrefixes"

definition stackedDiskPrefixes :: "string list" where
  "stackedDiskPrefixes = [''loop'', ''ram'', ''zram'', ''dm-'', ''md'', ''sr'', ''fd'', ''nbd'']"

text \<open>\<open>sys_block\<close> is whether a name is listed in \<open>/sys/block\<close>.\<close>

definition physicalDisk :: "string \<Rightarrow> (string \<Rightarrow> bool) \<Rightarrow> string \<Rightarrow> bool" where
  "physicalDisk os sys_block name =
     (if os \<noteq> ''linux'' then True else if list_ex (HasPrefix name) stackedDiskPrefixes then False else sys_block name)"

section \<open>Network interfaces\<close>

text \<open>An interface of the system, with the networks of its addresses and whether each is link-local.\<close>

record iface =
  if_name :: string
  if_loopback :: bool
  if_mac :: "8 word list"
  if_mac_text :: string
  if_addrs :: "(string \<times> bool) list"

fun interfaces_loop :: "iface list \<Rightarrow> net_interface list \<Rightarrow> net_interface list" where
  "interfaces_loop [] out = out"
| "interfaces_loop (i # is) out =
     (let cidrs = map fst (filter (\<lambda>a. \<not> snd a) (if_addrs i)) in
      if if_loopback i \<or> length (if_mac i) \<noteq> 6 \<or> virtualInterface (if_name i) \<or> cidrs = [] then interfaces_loop is out
      else let out = out @ [\<lparr>ni_name = if_name i, ni_mac = if_mac_text i, ni_addrs = cidrs\<rparr>]
           in if length out = 16 then out else interfaces_loop is out)"

definition interfaces :: "iface list option \<Rightarrow> net_interface list" where
  "interfaces ifs = (case ifs of None \<Rightarrow> [] | Some ifs \<Rightarrow> interfaces_loop ifs [])"

section \<open>Processor time and rates\<close>

record cpu_times =
  cp_user :: rat
  cp_system :: rat
  cp_idle :: rat
  cp_nice :: rat
  cp_iowait :: rat
  cp_irq :: rat
  cp_softirq :: rat
  cp_steal :: rat
  cp_guest :: rat
  cp_guest_nice :: rat

definition cpu_total :: "string \<Rightarrow> cpu_times \<Rightarrow> rat" where
  "cpu_total os t =
     cp_user t + cp_system t + cp_idle t + cp_nice t + cp_iowait t + cp_irq t + cp_softirq t + cp_steal t +
     (if os \<noteq> ''linux'' then cp_guest t + cp_guest_nice t else 0)"

definition cpuBusy :: "string \<Rightarrow> cpu_times \<Rightarrow> cpu_times \<Rightarrow> rat" where
  "cpuBusy os a b =
     (let ta = cpu_total os a; tb = cpu_total os b;
          busyA = ta - cp_idle a - cp_iowait a; busyB = tb - cp_idle b - cp_iowait b
      in if tb \<le> ta \<or> busyB \<le> busyA then 0 else min 100 ((busyB - busyA) / (tb - ta) * 100))"

definition sum_counters :: "(string \<Rightarrow> bool) \<Rightarrow> (string \<times> counters) list option \<Rightarrow> counters" where
  "sum_counters keep stats =
     (case stats of
        None \<Rightarrow> (0, 0)
      | Some l \<Rightarrow> foldl (\<lambda>c s. if keep (fst s) then (fst c + fst (snd s), snd c + snd (snd s)) else c) (0, 0) l)"

definition netCounters :: "(string \<times> counters) list option \<Rightarrow> counters" where
  "netCounters stats = sum_counters (\<lambda>name. \<not> virtualInterface name) stats"

definition diskCounters :: "string \<Rightarrow> (string \<Rightarrow> bool) \<Rightarrow> (string \<times> counters) list option \<Rightarrow> counters" where
  "diskCounters os sys_block stats = sum_counters (physicalDisk os sys_block) stats"

section \<open>Filesystems\<close>

definition max_filesystems :: nat where "max_filesystems = 32"

record usage_stat =
  us_total :: "64 word"
  us_free :: "64 word"

definition apfs_key :: "usage_stat \<Rightarrow> string" where
  "apfs_key u = ''apfs:'' @ show_nat (unat (us_total u)) @ '':'' @ show_nat (unat (us_free u))"

definition filesystem_of :: "partition \<Rightarrow> usage_stat \<Rightarrow> filesystem" where
  "filesystem_of p u =
     \<lparr>fs_mount = pa_mount p, fs_device = pa_device p, fs_type = pa_type p,
      fs_used = (if us_free u < us_total u then uint (us_total u - us_free u) else 0), fs_total = uint (us_total u)\<rparr>"

definition fs_less :: "string \<Rightarrow> filesystem \<Rightarrow> filesystem \<Rightarrow> bool" where
  "fs_less primary a b \<longleftrightarrow>
     (if (fs_mount a = primary) \<noteq> (fs_mount b = primary) then fs_mount a = primary else fs_mount a < fs_mount b)"

text \<open>\<open>sort.SliceStable\<close> by whether a partition is the primary one.\<close>

definition primary_first :: "string \<Rightarrow> partition list \<Rightarrow> partition list" where
  "primary_first primary ps = filter (\<lambda>p. pa_mount p = primary) ps @ filter (\<lambda>p. pa_mount p \<noteq> primary) ps"

definition primaryMount :: "machine \<Rightarrow> string" where
  "primaryMount m =
     (if mc_goos m = ''windows'' then
        (if mc_getenv m ''SystemDrive'' \<noteq> [] then TrimSuffix (mc_getenv m ''SystemDrive'') [CHR 0x5C] else ''C:'')
      else ''/'')"

section \<open>The probe\<close>

text \<open>
  Calls that may hang run in the background. \<open>fp_calls\<close> are the calls that have not returned; the code
  knows them by \<open>fp_running\<close>.
\<close>

record fsProbe =
  fp_calls :: "string list"
  fp_running :: "string list"
  fp_usages :: "string \<rightharpoonup> usage_stat option"
  fp_parts :: "partition list"

definition newFSProbe :: fsProbe where
  "newFSProbe = \<lparr>fp_calls = [], fp_running = [], fp_usages = (\<lambda>_. None), fp_parts = []\<rparr>"

definition usage_key :: "string \<Rightarrow> string" where
  "usage_key mount = ''usage:'' @ mount"

definition probe_begin :: "string \<Rightarrow> fsProbe \<Rightarrow> fsProbe" where
  "probe_begin key p = (if key \<in> set (fp_running p) then p else p\<lparr>fp_running := key # fp_running p, fp_calls := key # fp_calls p\<rparr>)"

definition probe_partitions :: "partition list \<Rightarrow> fsProbe \<Rightarrow> fsProbe" where
  "probe_partitions parts p = p\<lparr>fp_parts := parts\<rparr>"

definition probe_usage :: "string \<Rightarrow> usage_stat option \<Rightarrow> fsProbe \<Rightarrow> fsProbe" where
  "probe_usage mount u p = p\<lparr>fp_usages := (fp_usages p)(mount \<mapsto> u)\<rparr>"

definition probe_end :: "string \<Rightarrow> fsProbe \<Rightarrow> fsProbe" where
  "probe_end key p = p\<lparr>fp_running := removeAll key (fp_running p), fp_calls := remove1 key (fp_calls p)\<rparr>"

definition known_usage :: "fsProbe \<Rightarrow> string \<Rightarrow> usage_stat option" where
  "known_usage p mount = (case fp_usages p mount of None \<Rightarrow> None | Some u \<Rightarrow> u)"

definition forget :: "string list \<Rightarrow> fsProbe \<Rightarrow> fsProbe" where
  "forget keep p =
     p\<lparr>fp_usages := (\<lambda>m. if m \<notin> set keep \<and> usage_key m \<notin> set (fp_running p) then None else fp_usages p m)\<rparr>"

text \<open>What a background call does while the sample goes on: it stores its result, or it ends.\<close>

datatype probe_event = Listed "partition list" | Measured string "usage_stat option" | Returned string

definition happen :: "probe_event \<Rightarrow> fsProbe \<Rightarrow> fsProbe" where
  "happen e p =
     (case e of
        Listed parts \<Rightarrow> if ''partitions'' \<in> set (fp_calls p) then probe_partitions parts p else p
      | Measured mount u \<Rightarrow> if usage_key mount \<in> set (fp_calls p) then probe_usage mount u p else p
      | Returned key \<Rightarrow> if key \<in> set (fp_calls p) then probe_end key p else p)"

text \<open>\<open>run\<close>: the call is started unless it is in flight; then whatever happens until it returns or the second is over.\<close>

definition probe_run :: "string \<Rightarrow> probe_event list \<Rightarrow> fsProbe \<Rightarrow> fsProbe" where
  "probe_run key evs p = foldl (\<lambda>p e. happen e p) (probe_begin key p) evs"

definition probe_list :: "probe_event list \<Rightarrow> fsProbe \<Rightarrow> partition list \<times> fsProbe" where
  "probe_list evs p = (let p = probe_run ''partitions'' evs p in (fp_parts p, p))"

definition probe_measure :: "string \<Rightarrow> probe_event list \<Rightarrow> fsProbe \<Rightarrow> usage_stat option \<times> fsProbe" where
  "probe_measure mount evs p = (let p = probe_run (usage_key mount) evs p in (known_usage p mount, p))"

inductive probe_step :: "fsProbe \<Rightarrow> fsProbe \<Rightarrow> bool" where
  probe_starting: "probe_step p (probe_begin key p)"
| probe_going: "probe_step p (happen e p)"
| probe_forgetting: "probe_step p (forget keep p)"

section \<open>The list of filesystems\<close>

text \<open>
  The loop over the partitions: the names seen, the mounts that were asked for and the list so far. \<open>evs n\<close> is what
  happens during the \<open>n\<close>th call of the probe.
\<close>

fun fs_loop ::
    "string \<Rightarrow> (nat \<Rightarrow> probe_event list) \<Rightarrow> nat \<Rightarrow> partition list \<Rightarrow> string list \<Rightarrow> string list \<Rightarrow> filesystem list \<Rightarrow> fsProbe \<Rightarrow>
     string list \<times> filesystem list \<times> fsProbe" where
  "fs_loop os evs n [] seen mounts out pr = (mounts, out, pr)"
| "fs_loop os evs n (p # ps) seen mounts out pr =
     (if pa_mount p = [] \<or> pa_device p \<in> set seen \<or> \<not> keepFilesystem os p then fs_loop os evs n ps seen mounts out pr
      else let mounts = pa_mount p # mounts in
        (case probe_measure (pa_mount p) (evs n) pr of
           (None, pr) \<Rightarrow> fs_loop os evs (Suc n) ps seen mounts out pr
         | (Some u, pr) \<Rightarrow>
             if us_total u = 0 then fs_loop os evs (Suc n) ps seen mounts out pr
             else if os = ''darwin'' \<and> apfs_key u \<in> set seen then fs_loop os evs (Suc n) ps seen mounts out pr
             else fs_loop os evs (Suc n) ps (pa_device p # (if os = ''darwin'' then apfs_key u # seen else seen)) mounts
                    (out @ [filesystem_of p u]) pr))"

type_synonym fs_sort = "(filesystem \<Rightarrow> filesystem \<Rightarrow> bool) \<Rightarrow> filesystem list \<Rightarrow> filesystem list"

definition filesystems :: "fs_sort \<Rightarrow> string \<Rightarrow> string \<Rightarrow> (nat \<Rightarrow> probe_event list) \<Rightarrow> fsProbe \<Rightarrow> filesystem list \<times> fsProbe" where
  "filesystems Slice os primary evs pr =
     (case probe_list (evs 0) pr of
        (parts, pr) \<Rightarrow>
          (case fs_loop os evs 1 (primary_first primary parts) [] [] [] pr of
             (mounts, out, pr) \<Rightarrow> (take max_filesystems (Slice (fs_less primary) out), forget mounts pr)))"

section \<open>A sample\<close>

record collector =
  co_primary :: string
  co_docker :: docker
  co_fs :: fsProbe
  co_time :: go_time
  co_cpu :: "cpu_times option"
  co_net :: counters
  co_disk :: counters

text \<open>What the system reports for one sample; \<open>None\<close> where reading fails.\<close>

record reading =
  re_now :: go_time
  re_cpu :: "cpu_times list option"
  re_mem :: "(64 word \<times> 64 word) option"       \<comment> \<open>total and available\<close>
  re_swap :: "(64 word \<times> 64 word) option"      \<comment> \<open>total and used\<close>
  re_probe :: "nat \<Rightarrow> probe_event list"
  re_net :: "(string \<times> counters) list option"
  re_disk :: "(string \<times> counters) list option"
  re_sys_block :: "string \<Rightarrow> bool"
  re_load :: "(rat \<times> rat \<times> rat) option"
  re_uptime :: "64 word"
  re_power :: power_reading
  re_runtime :: runtime

definition Sample :: "fs_sort \<Rightarrow> machine \<Rightarrow> reading \<Rightarrow> collector \<Rightarrow> metrics \<times> collector" where
  "Sample Slice m r c =
     (let os = mc_goos m;
          elapsed = Seconds (time_sub (re_now r) (co_time c));
          haveRates = (\<not> is_zero (co_time c) \<and> 0 < elapsed);
          times = (case re_cpu r of Some (t # _) \<Rightarrow> Some t | _ \<Rightarrow> None);
          (fss, fs) = filesystems Slice os (co_primary c) (re_probe r) (co_fs c);
          disk = find (\<lambda>f. fs_mount f = co_primary c) fss;
          netNow = netCounters (re_net r);
          diskNow = diskCounters os (re_sys_block r) (re_disk r);
          load = (if os \<noteq> ''windows'' then (case re_load r of None \<Rightarrow> (0, 0, 0) | Some l \<Rightarrow> l) else (0, 0, 0));
          (cs, dk) = containers m (re_runtime r) (co_docker c)
      in (\<lparr>mt_time = re_now r div 1000000,
           mt_cpu = (case (co_cpu c, times) of (Some a, Some b) \<Rightarrow> cpuBusy os a b | _ \<Rightarrow> 0),
           mt_mem_used = (case re_mem r of None \<Rightarrow> 0 | Some (tot, avail) \<Rightarrow> if avail < tot then uint (tot - avail) else 0),
           mt_mem_total = (case re_mem r of None \<Rightarrow> 0 | Some (tot, _) \<Rightarrow> uint tot),
           mt_swap_used = (case re_swap r of None \<Rightarrow> 0 | Some (_, used) \<Rightarrow> uint used),
           mt_swap_total = (case re_swap r of None \<Rightarrow> 0 | Some (tot, _) \<Rightarrow> uint tot),
           mt_disk_used = (case disk of None \<Rightarrow> 0 | Some f \<Rightarrow> fs_used f),
           mt_disk_total = (case disk of None \<Rightarrow> 0 | Some f \<Rightarrow> fs_total f),
           mt_disk_read = (if haveRates then rate (fst (co_disk c)) (fst diskNow) elapsed else 0),
           mt_disk_write = (if haveRates then rate (snd (co_disk c)) (snd diskNow) elapsed else 0),
           mt_net_rx = (if haveRates then rate (fst (co_net c)) (fst netNow) elapsed else 0),
           mt_net_tx = (if haveRates then rate (snd (co_net c)) (snd netNow) elapsed else 0),
           mt_load1 = fst load, mt_load5 = fst (snd load), mt_load15 = snd (snd load),
           mt_uptime = uint (re_uptime r), mt_battery = battery_of (re_power r), mt_filesystems = fss, mt_containers = cs\<rparr>,
          c\<lparr>co_docker := dk, co_fs := fs, co_time := re_now r, co_cpu := (if times = None then co_cpu c else times),
            co_net := netNow, co_disk := diskNow\<rparr>))"

text \<open>\<open>New\<close> takes a first sample for its baselines.\<close>

definition new_collector :: "fs_sort \<Rightarrow> machine \<Rightarrow> reading \<Rightarrow> collector" where
  "new_collector Slice m r =
     snd (Sample Slice m r \<lparr>co_primary = primaryMount m, co_docker = no_docker, co_fs = newFSProbe, co_time = zero_time,
       co_cpu = None, co_net = (0, 0), co_disk = (0, 0)\<rparr>)"

text \<open>The static information about the machine.\<close>

record host_reading =
  ho_info :: "(string \<times> string \<times> string \<times> string) option"   \<comment> \<open>host name, platform, its version, kernel\<close>
  ho_hostname :: string                                          \<comment> \<open>\<open>os.Hostname\<close>, empty after an error\<close>
  ho_cpu_model :: "string list option"
  ho_cores :: int
  ho_mem_total :: "64 word option"
  ho_interfaces :: "iface list option"

definition Info :: "string \<Rightarrow> string \<Rightarrow> host_reading \<Rightarrow> system_info" where
  "Info os arch r =
     (let (name, platform, ver, kernel) = (case ho_info r of None \<Rightarrow> ([], [], [], []) | Some i \<Rightarrow> i) in
      \<lparr>si_hostname = (if name = [] then ho_hostname r else name), si_os = os, si_platform = platform, si_platform_version = ver,
       si_kernel = kernel, si_arch = arch,
       si_cpu_model = (case ho_cpu_model r of Some (c # _) \<Rightarrow> TrimSpace c | _ \<Rightarrow> []), si_cores = ho_cores r,
       si_mem_total = (case ho_mem_total r of None \<Rightarrow> 0 | Some n \<Rightarrow> uint n), si_interfaces = interfaces (ho_interfaces r)\<rparr>)"

section \<open>Bounds\<close>

lemma cpuBusy_percent: "0 \<le> cpuBusy os a b \<and> cpuBusy os a b \<le> 100"
  by (auto simp: cpuBusy_def Let_def intro: divide_nonneg_pos)

lemma uint_diff_le: "(b :: 64 word) < a \<Longrightarrow> uint (a - b) \<le> uint a"
  using uint_sub_lem [of b a] by (simp add: word_less_def order.strict_implies_order)

lemma filesystem_of_fits: "0 \<le> fs_used (filesystem_of p u) \<and> fs_used (filesystem_of p u) \<le> fs_total (filesystem_of p u)"
  by (simp add: filesystem_of_def uint_diff_le)

lemma interfaces_loop_bound: "length out < 16 \<Longrightarrow> length (interfaces_loop is out) \<le> 16"
  by (induction "is" out rule: interfaces_loop.induct) (auto simp: Let_def)

lemma Info_interfaces: "length (si_interfaces (Info os arch r)) \<le> 16"
  by (auto simp: Info_def interfaces_def interfaces_loop_bound split: prod.splits option.splits)

text \<open>The loop lists every device once, with what is used within the size, and only mounts that the probe keeps.\<close>

definition fs_ok :: "string list \<Rightarrow> filesystem list \<Rightarrow> bool" where
  "fs_ok mounts out \<longleftrightarrow> distinct (map fs_device out) \<and>
     list_all (\<lambda>f. 0 \<le> fs_used f \<and> fs_used f \<le> fs_total f \<and> fs_mount f \<in> set mounts) out"

lemma fs_ok_more: "fs_ok mounts out \<Longrightarrow> fs_ok (m # mounts) out"
  by (auto simp: fs_ok_def list_all_iff)

lemma fs_ok_add:
  "fs_ok mounts out \<Longrightarrow> pa_device p \<notin> set (map fs_device out) \<Longrightarrow> fs_ok (pa_mount p # mounts) (out @ [filesystem_of p u])"
  using filesystem_of_fits [of p u] by (auto simp: fs_ok_def list_all_iff) (simp_all add: filesystem_of_def)

text \<open>A round of the loop skips the partition, asks for it in vain, or lists it.\<close>

lemma fs_loop_round:
  obtains (skip) "fs_loop os evs n (p # ps) seen mounts out pr = fs_loop os evs n ps seen mounts out pr"
    | (more) pr' where "fs_loop os evs n (p # ps) seen mounts out pr = fs_loop os evs (Suc n) ps seen (pa_mount p # mounts) out pr'"
    | (add) u seen' pr' where "pa_device p \<notin> set seen" "set seen \<subseteq> set seen'" "keepFilesystem os p" "us_total u \<noteq> 0"
        "fs_loop os evs n (p # ps) seen mounts out pr =
           fs_loop os evs (Suc n) ps (pa_device p # seen') (pa_mount p # mounts) (out @ [filesystem_of p u]) pr'"
proof (cases "pa_mount p = [] \<or> pa_device p \<in> set seen \<or> \<not> keepFilesystem os p")
  case True
  then show ?thesis using skip by simp
next
  case False
  obtain r pr' where r: "probe_measure (pa_mount p) (evs n) pr = (r, pr')" by (rule prod.exhaust)
  show ?thesis
  proof (cases r)
    case None
    with False r show ?thesis using more [of pr'] by simp
  next
    case (Some u)
    show ?thesis
    proof (cases "us_total u = 0 \<or> os = ''darwin'' \<and> apfs_key u \<in> set seen")
      case True
      with False r Some show ?thesis using more [of pr'] by (auto simp: Let_def)
    next
      case F: False
      with False r Some show ?thesis
        by (intro add [of "if os = ''darwin'' then apfs_key u # seen else seen" u pr']) (auto simp: Let_def)
    qed
  qed
qed

lemma fs_loop_ok:
  assumes "fs_ok mounts out" and "set (map fs_device out) \<subseteq> set seen" and "fs_loop os evs n ps seen mounts out pr = (mounts', out', pr')"
  shows "fs_ok mounts' out'"
  using assms
proof (induction ps arbitrary: n seen mounts out pr)
  case (Cons p ps)
  show ?case
  proof (cases rule: fs_loop_round [of os evs n p ps seen mounts out pr])
    case skip
    with Cons show ?thesis by simp
  next
    case (more pr')
    with Cons.IH [OF fs_ok_more [OF Cons.prems(1)] Cons.prems(2)] Cons.prems(3) show ?thesis by simp
  next
    case (add u seen' pr')
    have "pa_device p \<notin> set (map fs_device out)" using add(1) Cons.prems(2) by blast
    then have "fs_ok (pa_mount p # mounts) (out @ [filesystem_of p u])" by (rule fs_ok_add [OF Cons.prems(1)])
    moreover have "set (map fs_device (out @ [filesystem_of p u])) \<subseteq> set (pa_device p # seen')"
      using add(2) Cons.prems(2) by (auto simp: filesystem_of_def)
    ultimately show ?thesis using Cons.prems(3) unfolding add(5) by (rule Cons.IH)
  qed
qed simp

text \<open>\<open>sort.Slice\<close> permutes its elements and, for a strict weak order, puts them in order.\<close>

definition sort_slice :: "(('a \<Rightarrow> 'a \<Rightarrow> bool) \<Rightarrow> 'a list \<Rightarrow> 'a list) \<Rightarrow> bool" where
  "sort_slice Slice \<longleftrightarrow>
     (\<forall>lt xs. mset (Slice lt xs) = mset xs \<and>
        ((\<forall>a b. lt a b \<longrightarrow> \<not> lt b a) \<and> (\<forall>a b c. \<not> lt b a \<longrightarrow> \<not> lt c b \<longrightarrow> \<not> lt c a) \<longrightarrow>
         sorted_wrt (\<lambda>a b. \<not> lt b a) (Slice lt xs)))"

lemma sort_slice_mset: "sort_slice Slice \<Longrightarrow> mset (Slice lt xs) = mset xs"
  unfolding sort_slice_def by blast

lemma sort_slice_set: "sort_slice Slice \<Longrightarrow> set (Slice lt xs) = set xs"
  by (rule mset_eq_setD [OF sort_slice_mset])

lemma sort_slice_sorted:
  assumes "sort_slice Slice" and "\<And>a b. lt a b \<Longrightarrow> \<not> lt b a" and "\<And>a b c. \<not> lt b a \<Longrightarrow> \<not> lt c b \<Longrightarrow> \<not> lt c a"
  shows "sorted_wrt (\<lambda>a b. \<not> lt b a) (Slice lt xs)"
proof -
  have "(\<forall>a b. lt a b \<longrightarrow> \<not> lt b a) \<and> (\<forall>a b c. \<not> lt b a \<longrightarrow> \<not> lt c b \<longrightarrow> \<not> lt c a)" using assms(2,3) by iprover
  then show ?thesis using assms(1) [unfolded sort_slice_def, rule_format, of lt xs] by iprover
qed

lemma filesystems_ok:
  assumes "sort_slice Slice" and "filesystems Slice os primary evs pr = (out, pr')"
  shows "length out \<le> 32 \<and> distinct (map fs_device out) \<and> list_all (\<lambda>f. 0 \<le> fs_used f \<and> fs_used f \<le> fs_total f) out"
proof -
  obtain parts pr1 mounts xs pr2 where loop: "fs_loop os evs 1 (primary_first primary parts) [] [] [] pr1 = (mounts, xs, pr2)"
    and out: "out = take max_filesystems (Slice (fs_less primary) xs)"
    using assms(2) by (auto simp: filesystems_def split: prod.splits)
  have ok: "fs_ok mounts xs" by (rule fs_loop_ok [OF _ _ loop]) (simp_all add: fs_ok_def)
  have "mset (map fs_device (Slice (fs_less primary) xs)) = mset (map fs_device xs)" by (simp add: sort_slice_mset [OF assms(1)])
  from mset_eq_imp_distinct_iff [OF this] ok have "distinct (map fs_device (Slice (fs_less primary) xs))" by (simp add: fs_ok_def)
  then have "distinct (map fs_device out)" by (simp add: out take_map [symmetric])
  moreover have "length out \<le> 32" by (simp add: out max_filesystems_def)
  moreover have "set out \<subseteq> set xs" unfolding out using sort_slice_set [OF assms(1), of "fs_less primary" xs] by (auto dest: in_set_takeD)
  ultimately show ?thesis using ok unfolding fs_ok_def list_all_iff by blast
qed

text \<open>Cutting the list does not lose the primary filesystem: it is sorted to the front.\<close>

lemma first_order:
  fixes x y z p :: "'a :: linorder"
  defines "lt \<equiv> \<lambda>x y. if (x = p) \<noteq> (y = p) then x = p else x < y"
  shows "lt x y \<Longrightarrow> \<not> lt y x" "\<not> lt y x \<Longrightarrow> \<not> lt z y \<Longrightarrow> \<not> lt z x"
  unfolding lt_def by (cases "x = p"; cases "y = p"; cases "z = p"; simp)+

lemma fs_less_order:
  "fs_less p a b \<Longrightarrow> \<not> fs_less p b a" "\<not> fs_less p b a \<Longrightarrow> \<not> fs_less p c b \<Longrightarrow> \<not> fs_less p c a"
  unfolding fs_less_def by (fact first_order)+

lemma primary_kept:
  assumes "sort_slice Slice" and "f \<in> set xs" "fs_mount f = primary"
  obtains g where "g \<in> set (take max_filesystems (Slice (fs_less primary) xs))" "fs_mount g = primary"
proof -
  let ?l = "Slice (fs_less primary) xs"
  have s: "sorted_wrt (\<lambda>a b. \<not> fs_less primary b a) ?l" by (rule sort_slice_sorted [OF assms(1) fs_less_order])
  have f: "f \<in> set ?l" using assms(2) by (simp add: sort_slice_set [OF assms(1)])
  then obtain g l where l: "?l = g # l" by (cases ?l) auto
  have "fs_mount g = primary"
  proof (rule ccontr)
    assume g: "fs_mount g \<noteq> primary"
    then have "f \<in> set l" using f l assms(3) by auto
    with s l have "\<not> fs_less primary f g" by auto
    with g assms(3) show False by (simp add: fs_less_def)
  qed
  then show ?thesis using that [of g] l by (simp add: max_filesystems_def)
qed

section \<open>Samples are well formed\<close>

definition sample_ok :: "metrics \<Rightarrow> bool" where
  "sample_ok m \<longleftrightarrow>
     0 \<le> mt_cpu m \<and> mt_cpu m \<le> 100 \<and>
     0 \<le> mt_mem_used m \<and> mt_mem_used m \<le> mt_mem_total m \<and> 0 \<le> mt_swap_used m \<and> 0 \<le> mt_swap_total m \<and>
     0 \<le> mt_disk_used m \<and> mt_disk_used m \<le> mt_disk_total m \<and>
     0 \<le> mt_net_rx m \<and> 0 \<le> mt_net_tx m \<and> 0 \<le> mt_disk_read m \<and> 0 \<le> mt_disk_write m \<and> 0 \<le> mt_uptime m \<and>
     (case mt_battery m of None \<Rightarrow> True | Some b \<Rightarrow> bt_percent b \<le> 100 \<and> bt_state b \<in> {''charging'', ''discharging'', ''idle''}) \<and>
     length (mt_filesystems m) \<le> 32 \<and> distinct (map fs_device (mt_filesystems m)) \<and>
     list_all (\<lambda>f. 0 \<le> fs_used f \<and> fs_used f \<le> fs_total f) (mt_filesystems m) \<and>
     length (mt_containers m) \<le> 64 \<and> list_all container_ok (mt_containers m)"

lemma Sample_ok:
  assumes "sort_slice Slice" and "Sample Slice m r c = (x, c')"
  shows "sample_ok x"
proof -
  obtain fss fs where fs: "filesystems Slice (mc_goos m) (co_primary c) (re_probe r) (co_fs c) = (fss, fs)" by (rule prod.exhaust)
  obtain cs dk where cs: "containers m (re_runtime r) (co_docker c) = (cs, dk)" by (rule prod.exhaust)
  have x: "x = fst (Sample Slice m r c)" using assms(2) by simp
  note F = filesystems_ok [OF assms(1) fs]
  have disk: "0 \<le> fs_used f \<and> fs_used f \<le> fs_total f" if "find P fss = Some f" for P f
    using F find_SomeD [OF that] by (auto simp: list_all_iff)
  have mem: "0 \<le> mt_mem_used x \<and> mt_mem_used x \<le> mt_mem_total x"
    by (simp add: x Sample_def Let_def fs cs uint_diff_le split: option.splits)
  have dsk: "0 \<le> mt_disk_used x \<and> mt_disk_used x \<le> mt_disk_total x"
    using disk by (simp add: x Sample_def Let_def fs cs split: option.splits)
  have cpu: "0 \<le> mt_cpu x \<and> mt_cpu x \<le> 100"
    using cpuBusy_percent by (simp add: x Sample_def Let_def fs cs split: option.splits)
  have rates: "0 \<le> mt_net_rx x \<and> 0 \<le> mt_net_tx x \<and> 0 \<le> mt_disk_read x \<and> 0 \<le> mt_disk_write x"
    by (simp add: x Sample_def Let_def fs cs rate_nonneg)
  have rest: "0 \<le> mt_swap_used x \<and> 0 \<le> mt_swap_total x \<and> 0 \<le> mt_uptime x \<and> mt_battery x = battery_of (re_power r) \<and>
      mt_filesystems x = fss \<and> mt_containers x = cs"
    by (simp add: x Sample_def Let_def fs cs split: option.splits)
  have bat: "case mt_battery x of None \<Rightarrow> True | Some b \<Rightarrow> bt_percent b \<le> 100 \<and> bt_state b \<in> {''charging'', ''discharging'', ''idle''}"
    using battery_percent rest by (auto split: option.splits)
  show ?thesis unfolding sample_ok_def
    using mem dsk cpu rates rest bat F containers_ok [OF cs] by (simp add: maxContainers_def)
qed

section \<open>One call at a time\<close>

definition probe_inv :: "fsProbe \<Rightarrow> bool" where
  "probe_inv p \<longleftrightarrow> distinct (fp_calls p) \<and> set (fp_calls p) = set (fp_running p)"

interpretation fs_probe: invariant_system "\<lambda>p. p = newFSProbe" probe_step probe_inv
proof
  show "p = newFSProbe \<Longrightarrow> probe_inv p" for p by (simp add: probe_inv_def newFSProbe_def)
  show "probe_inv p \<Longrightarrow> probe_step p q \<Longrightarrow> probe_inv q" for p q
    by (erule probe_step.cases)
      (auto simp: probe_inv_def probe_begin_def happen_def probe_partitions_def probe_usage_def probe_end_def forget_def
        split: probe_event.splits)
qed

text \<open>A sample only takes steps of the probe.\<close>

lemma probe_run_reaches: "reaches probe_step p (probe_run key evs p)"
proof -
  have "reaches probe_step q (foldl (\<lambda>p e. happen e p) q evs)" for q
  proof (induction evs arbitrary: q)
    case Nil
    show ?case by (simp add: reaches_refl)
  next
    case (Cons e evs)
    show ?case using reaches_trans [OF reaches_single [where step = probe_step, OF probe_going] Cons.IH] by simp
  qed
  from reaches_trans [OF reaches_single [where step = probe_step, OF probe_starting] this] show ?thesis unfolding probe_run_def .
qed

lemma fs_loop_reaches: "fs_loop os evs n ps seen mounts out pr = (mounts', out', pr') \<Longrightarrow> reaches probe_step pr pr'"
proof (induction ps arbitrary: n seen mounts out pr)
  case Nil
  then show ?case by (simp add: reaches_refl)
next
  case (Cons p ps)
  show ?case
  proof (cases "pa_mount p = [] \<or> pa_device p \<in> set seen \<or> \<not> keepFilesystem os p")
    case True
    with Cons show ?thesis by simp
  next
    case False
    let ?pr = "probe_run (usage_key (pa_mount p)) (evs n) pr"
    from False Cons.prems obtain s o' where "fs_loop os evs (Suc n) ps s (pa_mount p # mounts) o' ?pr = (mounts', out', pr')"
      by (auto simp: Let_def probe_measure_def split: option.splits if_splits)
    from Cons.IH [OF this] show ?thesis by (rule reaches_trans [OF probe_run_reaches])
  qed
qed

lemma filesystems_reaches:
  assumes "filesystems Slice os primary evs pr = (out, pr')"
  shows "reaches probe_step pr pr'"
proof -
  obtain mounts xs pr2 where loop: "fs_loop os evs 1 (primary_first primary (fst (probe_list (evs 0) pr))) [] [] [] (probe_run ''partitions'' (evs 0) pr) = (mounts, xs, pr2)"
    and pr': "pr' = forget mounts pr2"
    using assms by (auto simp: filesystems_def probe_list_def Let_def split: prod.splits)
  from reaches_step [OF reaches_trans [OF probe_run_reaches fs_loop_reaches [OF loop]] probe_forgetting] show ?thesis unfolding pr' .
qed

section \<open>The collector over time\<close>

definition collector_ok :: "machine \<Rightarrow> collector \<Rightarrow> bool" where
  "collector_ok m c \<longleftrightarrow>
     co_primary c = primaryMount m \<and> probe_inv (co_fs c) \<and> card (dom (dk_prev (co_docker c))) \<le> maxContainers"

lemma Sample_keeps:
  assumes "collector_ok m c" and "Sample Slice m r c = (x, c')"
  shows "collector_ok m c'"
proof -
  obtain fss fs where fs: "filesystems Slice (mc_goos m) (co_primary c) (re_probe r) (co_fs c) = (fss, fs)" by (rule prod.exhaust)
  obtain cs dk where cs: "containers m (re_runtime r) (co_docker c) = (cs, dk)" by (rule prod.exhaust)
  have "co_primary c' = co_primary c \<and> co_fs c' = fs \<and> co_docker c' = dk"
    using assms(2) by (auto simp: Sample_def Let_def fs cs)
  moreover have "probe_inv fs" using fs_probe.inv_from [OF filesystems_reaches [OF fs]] assms(1) by (simp add: collector_ok_def)
  moreover have "card (dom (dk_prev dk)) \<le> maxContainers" using containers_kept [OF cs] assms(1) by (simp add: collector_ok_def)
  ultimately show ?thesis using assms(1) by (simp add: collector_ok_def)
qed

text \<open>The collector after a number of samples.\<close>

definition sample_all :: "fs_sort \<Rightarrow> machine \<Rightarrow> reading list \<Rightarrow> collector \<Rightarrow> collector" where
  "sample_all Slice m rs c = foldl (\<lambda>c r. snd (Sample Slice m r c)) c rs"

lemma sample_all_keeps: "collector_ok m c \<Longrightarrow> collector_ok m (sample_all Slice m rs c)"
  unfolding sample_all_def by (induction rs arbitrary: c) (simp_all add: Sample_keeps [OF _ prod.collapse [symmetric]])

lemma new_collector_ok: "collector_ok m (new_collector Slice m r)"
  unfolding new_collector_def
  by (rule Sample_keeps [OF _ prod.collapse [symmetric]]) (simp add: collector_ok_def newFSProbe_def probe_inv_def no_docker_def)

text \<open>
  (C7) Well-formed samples: after any number of samples, whatever the system reports and however slow its filesystems are,
  the next sample is well formed. Percentages are within 100, what is used is within the size, rates are not
  negative, at most 32 filesystems are listed with every device once, and at most 64 containers. The collector keeps its invariant: no call to a
  filesystem is in flight twice, and the counters it keeps of containers are bounded.
\<close>

theorem sample_well_formed:
  assumes "sort_slice Slice" and "Sample Slice m r (sample_all Slice m rs (new_collector Slice m r0)) = (x, c)"
  shows "sample_ok x \<and> collector_ok m c"
  using Sample_ok [OF assms] Sample_keeps [OF sample_all_keeps [OF new_collector_ok] assms(2)] by blast

text \<open>Insertion sort, which is what \<open>sort.Slice\<close> does to short slices.\<close>

fun insert_by :: "('a \<Rightarrow> 'a \<Rightarrow> bool) \<Rightarrow> 'a \<Rightarrow> 'a list \<Rightarrow> 'a list" where
  "insert_by lt x [] = [x]"
| "insert_by lt x (y # ys) = (if lt y x then y # insert_by lt x ys else x # y # ys)"

definition insertion_sort :: "('a \<Rightarrow> 'a \<Rightarrow> bool) \<Rightarrow> 'a list \<Rightarrow> 'a list" where
  "insertion_sort lt xs = foldr (insert_by lt) xs []"

lemma mset_insert_by: "mset (insert_by lt x xs) = add_mset x (mset xs)"
  by (induction xs) auto

lemma set_insert_by: "set (insert_by lt x xs) = insert x (set xs)"
  by (induction xs) auto

lemma sorted_insert_by:
  assumes asym: "\<And>a b. lt a b \<Longrightarrow> \<not> lt b a" and weak: "\<And>a b c. \<not> lt b a \<Longrightarrow> \<not> lt c b \<Longrightarrow> \<not> lt c a"
  shows "sorted_wrt (\<lambda>a b. \<not> lt b a) xs \<Longrightarrow> sorted_wrt (\<lambda>a b. \<not> lt b a) (insert_by lt x xs)"
proof (induction xs)
  case (Cons y ys)
  then show ?case by (cases "lt y x") (auto simp: set_insert_by dest: asym weak)
qed simp

lemma sort_slice_insertion: "sort_slice insertion_sort"
proof -
  have "mset (insertion_sort lt xs) = mset xs" for lt :: "'a \<Rightarrow> 'a \<Rightarrow> bool" and xs
    unfolding insertion_sort_def by (induction xs) (simp_all add: mset_insert_by)
  moreover have "sorted_wrt (\<lambda>a b. \<not> lt b a) (insertion_sort lt xs)"
    if "\<forall>a b. lt a b \<longrightarrow> \<not> lt b a" "\<forall>a b c. \<not> lt b a \<longrightarrow> \<not> lt c b \<longrightarrow> \<not> lt c a" for lt :: "'a \<Rightarrow> 'a \<Rightarrow> bool" and xs
    unfolding insertion_sort_def
  proof (induction xs)
    case (Cons x xs)
    show ?case unfolding foldr_Cons comp_apply by (rule sorted_insert_by [OF _ _ Cons.IH]) (use that in blast)+
  qed simp
  ultimately show ?thesis unfolding sort_slice_def by blast
qed

text \<open>A machine with a disk and a share that does not answer, sampled every two seconds.\<close>

definition demo_host :: machine where
  "demo_host =
     \<lparr>mc_goos = ''linux'', mc_pid = 1, mc_look_path = (\<lambda>_. None), mc_systemd = False, mc_find_process = (\<lambda>_. None), mc_kill = (\<lambda>_. None),
      mc_terminate = (\<lambda>_. None), mc_command = (\<lambda>_. ([], [], None)), mc_getenv = (\<lambda>_. []), mc_environ = [], mc_executable = (\<lambda>_. False),
      mc_is_dir = (\<lambda>_. False), mc_user = None, mc_join = (\<lambda>a b. a @ ''/'' @ b), mc_write_file = (\<lambda>_. None)\<rparr>"

definition demo_probe :: "nat \<Rightarrow> probe_event list" where
  "demo_probe n =
     (if n = 0 then
        [Listed [\<lparr>pa_device = ''nas:/share'', pa_mount = ''/mnt'', pa_type = ''nfs''\<rparr>, \<lparr>pa_device = ''/dev/sda1'', pa_mount = ''/'', pa_type = ''ext4''\<rparr>],
         Returned ''partitions'']
      else if n = 1 then [Measured ''/'' (Some \<lparr>us_total = 1000, us_free = 400\<rparr>), Returned (usage_key ''/'')]
      else [])"

definition demo_reading :: "int \<Rightarrow> reading" where
  "demo_reading n =
     \<lparr>re_now = n * 2 * second,
      re_cpu = Some [\<lparr>cp_user = of_int n, cp_system = 0, cp_idle = of_int n, cp_nice = 0, cp_iowait = 0, cp_irq = 0, cp_softirq = 0, cp_steal = 0, cp_guest = 0, cp_guest_nice = 0\<rparr>],
      re_mem = Some (800, 300), re_swap = None, re_probe = demo_probe,
      re_net = Some [(''eth0'', (word_of_int (n * 1000), 0)), (''docker0'', (77, 77))], re_disk = None, re_sys_block = (\<lambda>_. True), re_load = None,
      re_uptime = word_of_int n, re_power = Power_status None,
      re_runtime = \<lparr>rt_is_socket = (\<lambda>_. False), rt_probed = n * 2 * second, rt_list = Failed (True, []), rt_now = n * 2 * second, rt_stats = (\<lambda>_. Failed (True, []))\<rparr>\<rparr>"

definition demo_sample :: "metrics \<times> collector" where
  "demo_sample = Sample insertion_sort demo_host (demo_reading 2) (new_collector insertion_sort demo_host (demo_reading 1))"

lemma demo_sample_values:
  "mt_cpu (fst demo_sample) = 50 \<and> mt_net_rx (fst demo_sample) = 500 \<and> mt_disk_used (fst demo_sample) = 600 \<and>
   map fs_mount (mt_filesystems (fst demo_sample)) = [''/''] \<and> fp_calls (co_fs (snd demo_sample)) = [usage_key ''/mnt'']"
  by code_simp

theorem sample_well_formed_witness:
  "sample_ok (fst demo_sample) \<and> collector_ok demo_host (snd demo_sample) \<and>
   mt_cpu (fst demo_sample) = 50 \<and> mt_net_rx (fst demo_sample) = 500 \<and> mt_disk_used (fst demo_sample) = 600 \<and>
   map fs_mount (mt_filesystems (fst demo_sample)) = [''/''] \<and> fp_calls (co_fs (snd demo_sample)) = [usage_key ''/mnt'']"
proof -
  have "Sample insertion_sort demo_host (demo_reading 2) (sample_all insertion_sort demo_host [] (new_collector insertion_sort demo_host (demo_reading 1))) =
      (fst demo_sample, snd demo_sample)"
    by (simp add: sample_all_def demo_sample_def)
  from sample_well_formed [OF sort_slice_insertion this] demo_sample_values show ?thesis by blast
qed

end
