(* ===== verification/Folder.thy ===== *)
theory Folder
  imports Prelude
begin

text \<open>
  The folder in which a program keeps its files, as the functions of \<open>os\<close> see it, and the identities that are kept there
  (\<open>sshkey/sshkey.go\<close>). Every call may fail, as a list of faults says; a write that fails may leave a part of its data behind.
  A crash is a fault after which nothing else is done. The key library is an argument.
\<close>

section \<open>Errors and faults\<close>

datatype os_error = ErrNotExist | ErrPermission | OtherError string

text \<open>An error value: \<open>errors.New\<close>, an error of the system, or one that wraps another (\<open>%w\<close>).\<close>

datatype go_error = ErrorText string | OsError os_error | Wrapped string go_error

fun error_is :: "os_error \<Rightarrow> go_error \<Rightarrow> bool" where
  "error_is e (ErrorText _) = False"
| "error_is e (OsError e') = (e = e')"
| "error_is e (Wrapped _ err) = error_is e err"

text \<open>
  What can go wrong beyond the state of the folder: a call is refused or fails, maybe after writing some bytes. It does not claim that
  a file is missing which is there.
\<close>

datatype failure = Denied | Trouble string

datatype io_fault = Works | Fails failure | Breaks nat failure

definition failure_error :: "failure \<Rightarrow> go_error" where
  "failure_error f = OsError (case f of Denied \<Rightarrow> ErrPermission | Trouble s \<Rightarrow> OtherError s)"

lemma failure_not_missing [simp]: "\<not> error_is ErrNotExist (failure_error f)"
  by (cases f) (simp_all add: failure_error_def)

record folder =
  fd_exists :: bool
  fd_files :: "(string \<times> string) list"
  fd_restricted :: bool
  fd_faults :: "io_fault list"

type_synonym 'a io = "folder \<Rightarrow> (go_error + 'a) \<times> folder"

definition bind_io :: "'a io \<Rightarrow> ('a \<Rightarrow> 'b io) \<Rightarrow> 'b io" where
  "bind_io m f d = (case m d of (Inl e, d) \<Rightarrow> (Inl e, d) | (Inr x, d) \<Rightarrow> f x d)"

definition return_io :: "'a \<Rightarrow> 'a io" where
  "return_io x d = (Inr x, d)"

definition fail_io :: "go_error \<Rightarrow> 'a io" where
  "fail_io e d = (Inl e, d)"

definition lift_io :: "go_error + 'a \<Rightarrow> 'a io" where
  "lift_io r d = (r, d)"

text \<open>\<open>fmt.Errorf\<close> with \<open>%w\<close>.\<close>

definition wrap_io :: "string \<Rightarrow> 'a io \<Rightarrow> 'a io" where
  "wrap_io s m d = (case m d of (Inl e, d) \<Rightarrow> (Inl (Wrapped s e), d) | x \<Rightarrow> x)"

section \<open>System calls\<close>

definition file_names :: "folder \<Rightarrow> string list" where
  "file_names d = map fst (fd_files d)"

definition content :: "folder \<Rightarrow> string \<Rightarrow> string option" where
  "content d name = map_of (fd_files d) name"

definition put_file :: "string \<Rightarrow> string \<Rightarrow> folder \<Rightarrow> folder" where
  "put_file name data d = d\<lparr>fd_files := (name, data) # filter (\<lambda>f. fst f \<noteq> name) (fd_files d)\<rparr>"

definition drop_file :: "string \<Rightarrow> folder \<Rightarrow> folder" where
  "drop_file name d = d\<lparr>fd_files := filter (\<lambda>f. fst f \<noteq> name) (fd_files d)\<rparr>"

text \<open>A call meets the next fault; \<open>broken n\<close> is what is left behind when it breaks off.\<close>

definition syscall :: "(nat \<Rightarrow> folder \<Rightarrow> folder) \<Rightarrow> 'a io \<Rightarrow> 'a io" where
  "syscall broken m d =
     (case fd_faults d of
        [] \<Rightarrow> m d
      | x # xs \<Rightarrow>
          let d = d\<lparr>fd_faults := xs\<rparr> in
          (case x of Works \<Rightarrow> m d | Fails e \<Rightarrow> (Inl (failure_error e), d) | Breaks n e \<Rightarrow> (Inl (failure_error e), broken n d)))"

abbreviation whole :: "nat \<Rightarrow> folder \<Rightarrow> folder" where "whole \<equiv> \<lambda>_ d. d"

definition ReadFile :: "string \<Rightarrow> string io" where
  "ReadFile name = syscall whole (\<lambda>d. case content d name of None \<Rightarrow> (Inl (OsError ErrNotExist), d) | Some s \<Rightarrow> (Inr s, d))"

definition ReadDir :: "string list io" where
  "ReadDir = syscall whole (\<lambda>d. if fd_exists d then (Inr (file_names d), d) else (Inl (OsError ErrNotExist), d))"

definition MkdirAll :: "unit io" where
  "MkdirAll = syscall whole (\<lambda>d. (Inr (), d\<lparr>fd_exists := True\<rparr>))"

definition WriteFile :: "string \<Rightarrow> string \<Rightarrow> unit io" where
  "WriteFile name data =
     syscall (\<lambda>n d. if fd_exists d then put_file name (take n data) d else d)
       (\<lambda>d. if fd_exists d then (Inr (), put_file name data d) else (Inl (OsError ErrNotExist), d))"

definition Rename :: "string \<Rightarrow> string \<Rightarrow> unit io" where
  "Rename old new =
     syscall whole (\<lambda>d. case content d old of
       None \<Rightarrow> (Inl (OsError ErrNotExist), d)
     | Some data \<Rightarrow> (Inr (), put_file new data (if old = new then d else drop_file old d)))"

definition Remove :: "string \<Rightarrow> unit io" where
  "Remove name =
     syscall whole (\<lambda>d. case content d name of None \<Rightarrow> (Inl (OsError ErrNotExist), d) | Some _ \<Rightarrow> (Inr (), drop_file name d))"

text \<open>\<open>os.Remove\<close> of the folder itself: only an empty folder can be removed.\<close>

definition RemoveDir :: "unit io" where
  "RemoveDir =
     syscall whole (\<lambda>d. if \<not> fd_exists d then (Inl (OsError ErrNotExist), d)
       else if fd_files d \<noteq> [] then (Inl (OsError (OtherError ''directory not empty'')), d)
       else (Inr (), d\<lparr>fd_exists := False\<rparr>))"

text \<open>\<open>restrictDir\<close>: \<open>chmod 0700\<close>, or the access list for SYSTEM and administrators on Windows.\<close>

definition restrictDir :: "unit io" where
  "restrictDir = syscall whole (\<lambda>d. (Inr (), d\<lparr>fd_restricted := True\<rparr>))"

section \<open>Replacing a file\<close>

text \<open>Data is written to a temporary file, which is then moved into place.\<close>

definition tmp_name :: "string \<Rightarrow> string" where
  "tmp_name name = name @ ''.tmp''"

definition replace_whole :: "string \<Rightarrow> string \<Rightarrow> unit io" where
  "replace_whole name data = bind_io (WriteFile (tmp_name name) data) (\<lambda>_. Rename (tmp_name name) name)"

lemma tmp_name_neq [simp]: "tmp_name name \<noteq> name" "name \<noteq> tmp_name name"
  by (simp_all add: tmp_name_def)

lemma map_of_filter_neq: "map_of (filter (\<lambda>f. fst f \<noteq> n) xs) m = (if m = n then None else map_of xs m)"
  by (induction xs) auto

lemma content_put [simp]: "content (put_file n data d) m = (if m = n then Some data else content d m)"
  by (simp add: content_def put_file_def map_of_filter_neq)

lemma content_drop [simp]: "content (drop_file n d) m = (if m = n then None else content d m)"
  by (simp add: content_def drop_file_def map_of_filter_neq)

lemma put_drop_simps [simp]:
  "fd_exists (put_file n data d) = fd_exists d" "fd_restricted (put_file n data d) = fd_restricted d" "fd_faults (put_file n data d) = fd_faults d"
  "fd_exists (drop_file n d) = fd_exists d" "fd_restricted (drop_file n d) = fd_restricted d" "fd_faults (drop_file n d) = fd_faults d"
  by (simp_all add: put_file_def drop_file_def)

lemma content_faults [simp]: "content (d\<lparr>fd_faults := fs\<rparr>) = content d" "content (d\<lparr>fd_exists := x\<rparr>) = content d" "content (d\<lparr>fd_restricted := y\<rparr>) = content d"
  by (simp_all add: content_def fun_eq_iff)

lemma in_file_names: "n \<in> set (file_names d) \<longleftrightarrow> content d n \<noteq> None"
  by (simp add: file_names_def content_def map_of_eq_None_iff)

text \<open>What a call can do: one rule for all of them.\<close>

lemma syscall_cases:
  assumes "syscall broken m d = (r, d')"
  obtains (works) fs where "m (d\<lparr>fd_faults := fs\<rparr>) = (r, d')"
    | (fails) e fs where "r = Inl (failure_error e)" "d' = d\<lparr>fd_faults := fs\<rparr>"
    | (breaks) e n fs where "r = Inl (failure_error e)" "d' = broken n (d\<lparr>fd_faults := fs\<rparr>)"
proof (cases "fd_faults d")
  case Nil
  then have "d\<lparr>fd_faults := []\<rparr> = d" by (cases d) simp
  moreover have "m d = (r, d')" using Nil assms by (simp add: syscall_def)
  ultimately show ?thesis by (intro works [of "[]"]) (simp only:)
next
  case (Cons x xs)
  with assms show ?thesis
    by (cases x) (auto simp: syscall_def Let_def intro: works fails breaks)
qed

lemma bind_ioE:
  assumes "bind_io m f d = (r, d')"
  obtains (left) e where "m d = (Inl e, d')" "r = Inl e"
    | (right) x d1 where "m d = (Inr x, d1)" "f x d1 = (r, d')"
  using assms by (auto simp: bind_io_def split: prod.splits sum.splits)

text \<open>Successful computations, step by step.\<close>

lemma bind_io_Inr: "bind_io m f d = (Inr x, d') \<longleftrightarrow> (\<exists>y d1. m d = (Inr y, d1) \<and> f y d1 = (Inr x, d'))"
  by (auto simp: bind_io_def split: prod.splits sum.splits)

lemma wrap_io_Inr: "wrap_io s m d = (Inr x, d') \<longleftrightarrow> m d = (Inr x, d')"
  by (auto simp: wrap_io_def split: prod.splits sum.splits)

lemma return_io_Inr: "return_io y d = (Inr x, d') \<longleftrightarrow> y = x \<and> d = d'"
  by (auto simp: return_io_def)

lemma fail_io_Inr: "fail_io e d \<noteq> (Inr x, d')"
  by (simp add: fail_io_def)

lemma lift_io_Inr: "lift_io r d = (Inr x, d') \<longleftrightarrow> r = Inr x \<and> d = d'"
  by (simp add: lift_io_def)

lemmas io_Inr = bind_io_Inr wrap_io_Inr return_io_Inr fail_io_Inr lift_io_Inr

text \<open>What a call may change: a set of files, and whether the folder stays.\<close>

definition touches :: "string set \<Rightarrow> 'a io \<Rightarrow> bool" where
  "touches N m \<longleftrightarrow> (\<forall>d r d'. m d = (r, d') \<longrightarrow> (\<forall>n. n \<notin> N \<longrightarrow> content d' n = content d n))"

lemma touchesD: "touches N m \<Longrightarrow> m d = (r, d') \<Longrightarrow> n \<notin> N \<Longrightarrow> content d' n = content d n"
  unfolding touches_def by blast

lemma touches_syscall:
  assumes "\<And>d r d' n. m d = (r, d') \<Longrightarrow> n \<notin> N \<Longrightarrow> content d' n = content d n"
    and "\<And>k d n. n \<notin> N \<Longrightarrow> content (broken k d) n = content d n"
  shows "touches N (syscall broken m)"
  unfolding touches_def
proof (intro allI impI)
  fix d d' n and r :: "go_error + 'a"
  assume "syscall broken m d = (r, d')" "n \<notin> N"
  then show "content d' n = content d n"
    by (cases rule: syscall_cases) (use assms in \<open>fastforce\<close>)+
qed

lemma touches_bind:
  assumes "touches N m" and "\<And>x. touches N (f x)"
  shows "touches N (bind_io m f)"
  unfolding touches_def
proof (intro allI impI)
  fix d d' n and r :: "go_error + 'b"
  assume "bind_io m f d = (r, d')" "n \<notin> N"
  then show "content d' n = content d n"
    by (cases rule: bind_ioE) (simp_all add: touchesD [OF assms(1)] touchesD [OF assms(2)])
qed

lemma touches_mono: "touches M m \<Longrightarrow> M \<subseteq> N \<Longrightarrow> touches N m"
  unfolding touches_def by blast

lemma touches_calls:
  "touches N (return_io x)" "touches N (fail_io e)" "touches {} (ReadFile name)" "touches {} ReadDir" "touches {} MkdirAll"
  "touches {name} (WriteFile name data)" "touches {old, new} (Rename old new)" "touches {name} (Remove name)" "touches {} RemoveDir" "touches {} restrictDir"
  by (auto simp: touches_def return_io_def fail_io_def ReadFile_def ReadDir_def MkdirAll_def WriteFile_def Rename_def Remove_def RemoveDir_def restrictDir_def
      split: option.splits if_splits prod.splits elim!: syscall_cases)

text \<open>Replacing is all or nothing, whatever fails, and touches only the file and its temporary one.\<close>

lemma replace_whole_atomic:
  assumes "replace_whole name data d = (r, d')"
  shows "content d' name = (case r of Inl _ \<Rightarrow> content d name | Inr _ \<Rightarrow> Some data)"
    and "n \<noteq> name \<Longrightarrow> n \<noteq> tmp_name name \<Longrightarrow> content d' n = content d n"
    and "r = Inr () \<Longrightarrow> content d' (tmp_name name) = None"
    and "fd_exists d' = fd_exists d" and "fd_restricted d' = fd_restricted d"
  using assms
  by (auto simp: replace_whole_def WriteFile_def Rename_def elim!: bind_ioE syscall_cases split: option.splits if_splits)

section \<open>Identities\<close>

text \<open>
  The key library: reading and writing private keys, the key that is generated, public keys as lines of
  \<open>authorized_keys\<close> with the algorithm of each.
\<close>

record 'k key_library =
  kl_parse :: "string \<Rightarrow> go_error + 'k"
  kl_generate :: "go_error + 'k"
  kl_marshal :: "'k \<Rightarrow> go_error + string"
  kl_authorized :: "'k \<Rightarrow> string"
  kl_parse_public :: "string \<Rightarrow> go_error + 'k"
  kl_type :: "'k \<Rightarrow> string"

definition LoadOrCreate :: "'k key_library \<Rightarrow> string \<Rightarrow> 'k io" where
  "LoadOrCreate kl name d =
     (case ReadFile name d of
        (Inr data, d) \<Rightarrow> (kl_parse kl data, d)
      | (Inl err, d) \<Rightarrow>
          if \<not> error_is ErrNotExist err then (Inl err, d)
          else
            bind_io (lift_io (kl_generate kl)) (\<lambda>priv.
            bind_io (lift_io (kl_marshal kl priv)) (\<lambda>block.
            bind_io MkdirAll (\<lambda>_.
            bind_io (replace_whole name block) (\<lambda>_.
            return_io priv)))) d)"

definition AuthorizedKey :: "'k key_library \<Rightarrow> 'k \<Rightarrow> string" where
  "AuthorizedKey kl k = TrimSpace (kl_authorized kl k)"

definition ParseAuthorizedKey :: "'k key_library \<Rightarrow> string \<Rightarrow> go_error + 'k" where
  "ParseAuthorizedKey kl s =
     (case kl_parse_public kl (TrimSpace s) of
        Inl e \<Rightarrow> Inl e
      | Inr k \<Rightarrow> if kl_type kl k \<noteq> ''ssh-ed25519'' then Inl (ErrorText ''key must be ssh-ed25519'') else Inr k)"

lemma ReadFile_eq:
  "fd_faults d = [] \<Longrightarrow> ReadFile name d = (case content d name of None \<Rightarrow> (Inl (OsError ErrNotExist), d) | Some s \<Rightarrow> (Inr s, d))"
  by (simp add: ReadFile_def syscall_def)

lemma LoadOrCreate_read: "fd_faults d = [] \<Longrightarrow> content d name = Some data \<Longrightarrow> LoadOrCreate kl name d = (kl_parse kl data, d)"
  by (simp add: LoadOrCreate_def ReadFile_eq)

lemma ReadFile_cases:
  assumes "ReadFile name d = (r, d')"
  obtains fs where "d' = d\<lparr>fd_faults := fs\<rparr>"
    "case r of Inr s \<Rightarrow> content d name = Some s | Inl e \<Rightarrow> error_is ErrNotExist e \<longrightarrow> content d name = None"
  using assms unfolding ReadFile_def by (cases rule: syscall_cases) (auto split: option.splits)

text \<open>A key is read, or nothing happened to the file, or a new key was written.\<close>

lemma LoadOrCreate_cases:
  assumes "LoadOrCreate kl name d = (r, d')"
  obtains (loaded) data where "r = kl_parse kl data" "content d name = Some data" "content d' name = Some data"
    | (failed) e where "r = Inl e" "content d' name = content d name"
    | (created) k block where "r = Inr k" "kl_marshal kl k = Inr block" "content d name = None" "content d' name = Some block"
proof -
  obtain x d1 where rd: "ReadFile name d = (x, d1)" by (rule prod.exhaust)
  obtain fs where d1: "d1 = d\<lparr>fd_faults := fs\<rparr>"
    and x: "case x of Inr s \<Rightarrow> content d name = Some s | Inl e \<Rightarrow> error_is ErrNotExist e \<longrightarrow> content d name = None"
    by (rule ReadFile_cases [OF rd])
  show ?thesis
  proof (cases x)
    case (Inr data)
    with assms rd x d1 show ?thesis by (intro loaded [of data]) (auto simp: LoadOrCreate_def)
  next
    case (Inl err)
    show ?thesis
    proof (cases "error_is ErrNotExist err")
      case False
      with assms rd d1 Inl show ?thesis by (intro failed [of err]) (auto simp: LoadOrCreate_def)
    next
      case True
      with assms rd Inl have "bind_io (lift_io (kl_generate kl)) (\<lambda>priv. bind_io (lift_io (kl_marshal kl priv)) (\<lambda>block.
          bind_io MkdirAll (\<lambda>_. bind_io (replace_whole name block) (\<lambda>_. return_io priv)))) d1 = (r, d')"
        by (simp add: LoadOrCreate_def)
      then have "(\<exists>e. r = Inl e \<and> content d' name = content d name) \<or>
          (\<exists>k block. r = Inr k \<and> kl_marshal kl k = Inr block \<and> content d' name = Some block)" unfolding d1
        by (auto simp: lift_io_def return_io_def MkdirAll_def elim!: bind_ioE syscall_cases dest!: replace_whole_atomic(1)) metis+
      then show ?thesis using True Inl x by (auto intro: failed created)
    qed
  qed
qed

text \<open>
  (C10) Identities are kept: a key that exists is never overwritten, whatever fails. A key that was returned is the one that is read at
  every later start, in any state of the folder in which its file is unchanged; a file is never left with a part of a
  key. The library reads back the keys it wrote.
\<close>

theorem identity_stable:
  assumes "LoadOrCreate kl name d = (r, d')"
    and "\<And>k block. kl_marshal kl k = Inr block \<Longrightarrow> kl_parse kl block = Inr k"
  shows "(content d name \<noteq> None \<longrightarrow> content d' name = content d name) \<and>
    (case r of
       Inl _ \<Rightarrow> content d' name = content d name
     | Inr k \<Rightarrow> (\<forall>d2 g. content d2 name = content d' name \<and> fd_faults d2 = [] \<longrightarrow>
         LoadOrCreate (kl\<lparr>kl_generate := g\<rparr>) name d2 = (Inr k, d2)))"
proof (cases rule: LoadOrCreate_cases [OF assms(1)])
  case (1 data)
  then show ?thesis by (auto simp: LoadOrCreate_read split: sum.splits)
next
  case (2 e)
  then show ?thesis by simp
next
  case (3 k block)
  then show ?thesis using assms(2) by (simp add: LoadOrCreate_read)
qed

text \<open>Keys are numbers here, written with a prefix.\<close>

definition demo_keys :: "string \<Rightarrow> string key_library" where
  "demo_keys new =
     \<lparr>kl_parse = (\<lambda>s. if HasPrefix s ''KEY '' then Inr (drop 4 s) else Inl (ErrorText ''bad key'')), kl_generate = Inr new,
      kl_marshal = (\<lambda>k. Inr (''KEY '' @ k)), kl_authorized = (\<lambda>k. ''ssh-ed25519 '' @ k), kl_parse_public = (\<lambda>s. Inr (drop 12 s)), kl_type = (\<lambda>_. ''ssh-ed25519'')\<rparr>"

definition demo_folder :: folder where
  "demo_folder = \<lparr>fd_exists = False, fd_files = [], fd_restricted = False, fd_faults = [Works, Works, Breaks 2 Denied]\<rparr>"

lemma demo_keys_read_back: "kl_marshal (demo_keys new) k = Inr block \<Longrightarrow> kl_parse (demo_keys new) block = Inr k"
  by (auto simp: demo_keys_def HasPrefix_def)

text \<open>The first start cannot write the key and leaves a part of it in the temporary file; the second one creates it, and the third reads it.\<close>

theorem identity_stable_witness:
  "let d1 = snd (LoadOrCreate (demo_keys ''7'') ''hub'' demo_folder); (r, d2) = LoadOrCreate (demo_keys ''8'') ''hub'' d1 in
   content d1 ''hub'' = None \<and> content d1 ''hub.tmp'' = Some ''KE'' \<and> r = Inr ''8'' \<and>
   LoadOrCreate (demo_keys ''9'') ''hub'' d2 = (Inr ''8'', d2)"
proof -
  let ?d1 = "snd (LoadOrCreate (demo_keys ''7'') ''hub'' demo_folder)"
  let ?d2 = "\<lparr>fd_exists = True, fd_files = [(''hub'', ''KEY 8'')], fd_restricted = False, fd_faults = []\<rparr>"
  have d2: "LoadOrCreate (demo_keys ''8'') ''hub'' ?d1 = (Inr ''8'', ?d2)" by code_simp
  have k: "(demo_keys ''8'')\<lparr>kl_generate := Inr ''9''\<rparr> = demo_keys ''9''" by (simp add: demo_keys_def)
  from identity_stable [OF d2 demo_keys_read_back] have "LoadOrCreate (demo_keys ''9'') ''hub'' ?d2 = (Inr ''8'', ?d2)"
    by (auto simp: k [symmetric])
  moreover have "content ?d1 ''hub'' = None \<and> content ?d1 ''hub.tmp'' = Some ''KE''" by code_simp
  ultimately show ?thesis by (simp add: d2)
qed

end
