(* ===== verification/AgentSetup.thy ===== *)
theory AgentSetup
  imports Agent Folder
begin

text \<open>
  How an agent is installed, started and removed (\<open>agent/config.go\<close>, \<open>cmd/agent/main.go\<close>, and \<open>New\<close>, \<open>handshake\<close>, \<open>report\<close> and
  \<open>wsURL\<close> of \<open>agent/agent.go\<close>): its configuration and key in a folder, the service and the log file. \<open>url.Parse\<close>, the encoding of
  the configuration, the key library and the service manager are arguments.
\<close>

section \<open>Where the files are\<close>

text \<open>The path of the configuration, its folder and the name of the file in it.\<close>

record place =
  pl_path :: string
  pl_dir :: string
  pl_name :: string

definition DefaultConfigPath :: "machine \<Rightarrow> string" where
  "DefaultConfigPath m =
     (let dir = (if mc_goos m = ''windows'' then
                   mc_join m (if mc_getenv m ''ProgramData'' = [] then ''C:'' @ [CHR 0x5C] @ ''ProgramData'' else mc_getenv m ''ProgramData'') AgentName
                 else if mc_goos m = ''darwin'' then mc_join m ''/Library/Application Support'' AgentName
                 else mc_join m ''/etc'' AgentName)
      in mc_join m dir ''agent.json'')"

definition key_file :: string where "key_file = ''agent_ed25519''"

definition ownFiles :: "place \<Rightarrow> string list" where
  "ownFiles pl = [pl_name pl, tmp_name (pl_name pl), key_file, tmp_name key_file, ''agent.log'', ''agent.log.1'']"

definition DedicatedDir :: "place \<Rightarrow> bool io" where
  "DedicatedDir pl d =
     (case ReadDir d of
        (Inl e, d) \<Rightarrow> if error_is ErrNotExist e then (Inr True, d) else (Inl e, d)
      | (Inr entries, d) \<Rightarrow> (Inr (list_all (\<lambda>n. n \<in> set (ownFiles pl)) entries), d))"

section \<open>The configuration\<close>

record url_parts =
  ul_scheme :: string
  ul_host :: string
  ul_path :: string

text \<open>What the configuration relies on: \<open>url.Parse\<close>, \<open>%q\<close>, and JSON both ways.\<close>

record codec =
  cd_url :: "string \<Rightarrow> url_parts option"
  cd_quote :: "string \<Rightarrow> string"
  cd_marshal :: "config \<Rightarrow> go_error + string"
  cd_unmarshal :: "string \<Rightarrow> go_error + config"

definition Validate :: "codec \<Rightarrow> 'k key_library \<Rightarrow> config \<Rightarrow> go_error option" where
  "Validate cd kl c =
     (case cd_url cd (cf_hub_url c) of
        Some u \<Rightarrow>
          if (ul_scheme u \<noteq> ''http'' \<and> ul_scheme u \<noteq> ''https'') \<or> ul_host u = []
          then Some (ErrorText (''hub URL must look like http(s)://host:port, got '' @ cd_quote cd (cf_hub_url c)))
          else (case ParseAuthorizedKey kl (cf_hub_key c) of Inl e \<Rightarrow> Some (Wrapped ''invalid hub key: '' e) | Inr _ \<Rightarrow> None)
      | None \<Rightarrow> Some (ErrorText (''hub URL must look like http(s)://host:port, got '' @ cd_quote cd (cf_hub_url c))))"

definition valid_config :: "codec \<Rightarrow> 'k key_library \<Rightarrow> config \<Rightarrow> config io" where
  "valid_config cd kl c = (case Validate cd kl c of Some e \<Rightarrow> fail_io e | None \<Rightarrow> return_io c)"

definition LoadConfig :: "codec \<Rightarrow> 'k key_library \<Rightarrow> place \<Rightarrow> config io" where
  "LoadConfig cd kl pl =
     bind_io (ReadFile (pl_name pl)) (\<lambda>data.
     bind_io (wrap_io (''parse '' @ pl_path pl @ '': '') (lift_io (cd_unmarshal cd data))) (\<lambda>c.
     valid_config cd kl c))"

definition NewConfig :: "codec \<Rightarrow> 'k key_library \<Rightarrow> string \<Rightarrow> string \<Rightarrow> string \<Rightarrow> bool \<Rightarrow> config io" where
  "NewConfig cd kl hubURL hubKey token allowShell =
     valid_config cd kl \<lparr>cf_hub_url = hubURL, cf_hub_key = hubKey, cf_token = token, cf_allow_shell = allowShell, cf_disable_updates = False\<rparr>"

definition Save :: "codec \<Rightarrow> place \<Rightarrow> config \<Rightarrow> unit io" where
  "Save cd pl c =
     bind_io MkdirAll (\<lambda>_.
     bind_io (DedicatedDir pl) (\<lambda>dedicated.
     bind_io (if dedicated then wrap_io (''restrict permissions on '' @ pl_dir pl @ '': '') restrictDir else return_io ()) (\<lambda>_.
     bind_io (lift_io (cd_marshal cd c)) (\<lambda>data.
     replace_whole (pl_name pl) (data @ [CHR 0x0A])))))"

fun remove_all :: "string list \<Rightarrow> unit io" where
  "remove_all [] d = (Inr (), d)"
| "remove_all (n # ns) d =
     (case Remove n d of
        (Inl e, d) \<Rightarrow> if error_is ErrNotExist e then remove_all ns d else (Inl e, d)
      | (Inr _, d) \<Rightarrow> remove_all ns d)"

definition PurgeConfig :: "place \<Rightarrow> unit io" where
  "PurgeConfig pl =
     bind_io (remove_all (ownFiles pl)) (\<lambda>_ d.
       case RemoveDir d of
         (Inr _, d) \<Rightarrow> (Inr (), d)
       | (Inl e, d) \<Rightarrow>
           if error_is ErrNotExist e then (Inr (), d)
           else (case ReadDir d of (Inr (_ # _), d) \<Rightarrow> (Inr (), d) | (_, d) \<Rightarrow> (Inl e, d)))"

section \<open>The agent\<close>

definition agent_New :: "'k key_library \<Rightarrow> config \<Rightarrow> ('k \<times> 'k) io" where
  "agent_New kl c =
     bind_io (wrap_io ''hub key: '' (lift_io (ParseAuthorizedKey kl (cf_hub_key c)))) (\<lambda>hubKey.
     bind_io (wrap_io ''agent key: '' (LoadOrCreate kl key_file)) (\<lambda>signer.
     return_io (hubKey, signer)))"

text \<open>The key a hub may authenticate with; \<open>wire\<close> is the encoding of a public key.\<close>

definition PublicKeyCallback :: "('k \<Rightarrow> string) \<Rightarrow> 'k \<Rightarrow> 'k \<Rightarrow> go_error option" where
  "PublicKeyCallback wire hubKey key = (if wire key = wire hubKey then None else Some (ErrorText ''unexpected hub key''))"

definition wsURL :: "codec \<Rightarrow> config \<Rightarrow> url_parts option" where
  "wsURL cd c =
     map_option (\<lambda>u. u\<lparr>ul_scheme := (if ul_scheme u = ''https'' then ''wss'' else ''ws''), ul_path := TrimSuffix (ul_path u) ''/'' @ AgentPath\<rparr>)
       (cd_url cd (cf_hub_url c))"

text \<open>\<open>report\<close>: for each sample, how sending it went, and what ended the wait after it.\<close>

datatype wake_up = Closed | Tick | NewInterval duration

fun report :: "duration \<Rightarrow> ((string + bool) \<times> wake_up) list \<Rightarrow> string option \<times> duration" where
  "report interval [] = (None, interval)"
| "report interval ((sent, w) # evs) =
     (case sent of
        Inl e \<Rightarrow> (Some (''send metrics: '' @ e), interval)
      | Inr ok \<Rightarrow>
          if \<not> ok then (Some ''hub rejected metrics'', interval)
          else (case w of
                  Closed \<Rightarrow> (Some ''connection closed'', interval)
                | Tick \<Rightarrow> report interval evs
                | NewInterval i \<Rightarrow> report i evs))"

text \<open>One connection: how dialling and the handshake went, the answer to hello, and the reports. The configuration without the token is saved.\<close>

definition agent_session ::
    "codec \<Rightarrow> place \<Rightarrow> string option \<Rightarrow> string option \<Rightarrow> string + bool \<times> hello_reply \<Rightarrow> ((string + bool) \<times> wake_up) list \<Rightarrow> config \<Rightarrow> folder \<Rightarrow>
     (bool \<times> string option) \<times> config \<times> folder" where
  "agent_session cd pl dial shake answer evs c d =
     (case dial of
        Some e \<Rightarrow> ((False, Some (''dial: '' @ e)), c, d)
      | None \<Rightarrow>
          (case shake of
             Some e \<Rightarrow> ((False, Some (''ssh handshake failed (does the hub key in the config match the hub?): '' @ e)), c, d)
           | None \<Rightarrow>
               (case agent_hello answer c of
                  (Inl e, c) \<Rightarrow> ((False, Some e), c, d)
                | (Inr interval, c') \<Rightarrow>
                    ((True, fst (report interval evs)), c', if cf_token c = [] then d else snd (Save cd pl c' d)))))"

section \<open>Installing and removing the service\<close>

datatype svc_status = NotInstalled | StatusError | StatusKnown

record manager =
  mg_admin :: "go_error option"          \<comment> \<open>\<open>requireAdmin\<close>\<close>
  mg_new :: "go_error option"
  mg_status :: svc_status
  mg_uninstall :: "go_error option"
  mg_status_after :: svc_status
  mg_install :: "go_error option"
  mg_start :: "go_error option"

datatype svc_deed = StopService | UninstallService | InstallService "string list" | StartService

text \<open>\<open>serviceConfig\<close>: the arguments with which the service runs the agent.\<close>

definition service_arguments :: "place \<Rightarrow> string list" where
  "service_arguments pl = [''run'', ''--config'', pl_path pl]"

definition remove_previous :: "manager \<Rightarrow> go_error option \<times> svc_deed list" where
  "remove_previous mg =
     (if mg_status mg = NotInstalled then (None, [])
      else (case mg_uninstall mg of
              Some e \<Rightarrow> (if mg_status mg = StatusKnown then Some (Wrapped ''remove previous service: '' e) else None, [StopService, UninstallService])
            | None \<Rightarrow> (None, [StopService, UninstallService])))"

definition install_service :: "manager \<Rightarrow> place \<Rightarrow> go_error option \<times> svc_deed list" where
  "install_service mg pl =
     (case mg_new mg of
        Some e \<Rightarrow> (Some e, [])
      | None \<Rightarrow>
          (case remove_previous mg of
             (Some e, ds) \<Rightarrow> (Some e, ds)
           | (None, ds) \<Rightarrow>
               let ds = ds @ [InstallService (service_arguments pl)] in
               (case mg_install mg of
                  Some e \<Rightarrow> (Some (Wrapped ''install service: '' e), ds)
                | None \<Rightarrow> (case mg_start mg of Some e \<Rightarrow> (Some (Wrapped ''start service: '' e), ds @ [StartService]) | None \<Rightarrow> (None, ds @ [StartService])))))"

record install_options =
  io_hub :: string
  io_key :: string
  io_token :: string
  io_allow_shell :: bool
  io_no_updates :: bool

definition admin_only :: "manager \<Rightarrow> unit io" where
  "admin_only mg = (case mg_admin mg of Some e \<Rightarrow> fail_io e | None \<Rightarrow> return_io ())"

text \<open>The part of \<open>cmdInstall\<close> before the service manager is asked: the configuration and the key.\<close>

definition shared_folder :: "place \<Rightarrow> string \<Rightarrow> go_error" where
  "shared_folder pl dflt =
     ErrorText (pl_dir pl @ '' holds other files; give the agent'' @ [CHR 0x27] @ ''s config a folder of its own, e.g. '' @ dflt)"

definition write_files :: "codec \<Rightarrow> 'k key_library \<Rightarrow> place \<Rightarrow> config \<Rightarrow> (config \<times> 'k) io" where
  "write_files cd kl pl c =
     bind_io (wrap_io ''write config: '' (Save cd pl c)) (\<lambda>_.
     bind_io (wrap_io ''create agent key: '' (LoadOrCreate kl key_file)) (\<lambda>signer.
     return_io (c, signer)))"

definition prepare :: "codec \<Rightarrow> 'k key_library \<Rightarrow> manager \<Rightarrow> string \<Rightarrow> place \<Rightarrow> install_options \<Rightarrow> (config \<times> 'k) io" where
  "prepare cd kl mg dflt pl opts =
     bind_io (admin_only mg) (\<lambda>_.
     bind_io (NewConfig cd kl (io_hub opts) (io_key opts) (io_token opts) (io_allow_shell opts)) (\<lambda>c.
     bind_io (DedicatedDir pl) (\<lambda>ok.
     if \<not> ok then fail_io (shared_folder pl dflt) else write_files cd kl pl (c\<lparr>cf_disable_updates := io_no_updates opts\<rparr>))))"

definition cmdInstall ::
    "codec \<Rightarrow> 'k key_library \<Rightarrow> manager \<Rightarrow> string \<Rightarrow> place \<Rightarrow> install_options \<Rightarrow> folder \<Rightarrow> (go_error + config \<times> 'k) \<times> svc_deed list \<times> folder" where
  "cmdInstall cd kl mg dflt pl opts d =
     (case prepare cd kl mg dflt pl opts d of
        (Inl e, d) \<Rightarrow> (Inl e, [], d)
      | (Inr x, d) \<Rightarrow> (case install_service mg pl of (Some e, ds) \<Rightarrow> (Inl e, ds, d) | (None, ds) \<Rightarrow> (Inr x, ds, d)))"

text \<open>What the command prints about remote control and updates.\<close>

definition install_summary :: "config \<Rightarrow> string \<times> string" where
  "install_summary c =
     (if cf_allow_shell c then ''enabled'' else ''disabled (reinstall with --allow-shell to enable)'',
      if cf_disable_updates c then ''disabled'' else ''signed updates from the hub'')"

definition cmdUninstall :: "manager \<Rightarrow> place \<Rightarrow> bool \<Rightarrow> folder \<Rightarrow> (go_error + unit) \<times> svc_deed list \<times> folder" where
  "cmdUninstall mg pl purge d =
     (case mg_admin mg of
        Some e \<Rightarrow> (Inl e, [], d)
      | None \<Rightarrow>
          (case mg_new mg of
             Some e \<Rightarrow> (Inl e, [], d)
           | None \<Rightarrow>
               (case mg_uninstall mg of
                  Some e \<Rightarrow>
                    if mg_status_after mg \<noteq> NotInstalled then (Inl (Wrapped ''remove service: '' e), [StopService, UninstallService], d)
                    else if purge then (case PurgeConfig pl d of (r, d) \<Rightarrow> (r, [StopService, UninstallService], d))
                    else (Inr (), [StopService, UninstallService], d)
                | None \<Rightarrow>
                    if purge then (case PurgeConfig pl d of (r, d) \<Rightarrow> (r, [StopService, UninstallService], d))
                    else (Inr (), [StopService, UninstallService], d))))"

text \<open>\<open>program.Start\<close>: the keys the agent runs with.\<close>

definition program_Start :: "codec \<Rightarrow> 'k key_library \<Rightarrow> place \<Rightarrow> (config \<times> 'k \<times> 'k) io" where
  "program_Start cd kl pl =
     bind_io (LoadConfig cd kl pl) (\<lambda>c. bind_io (agent_New kl c) (\<lambda>keys. return_io (c, keys)))"

section \<open>The log file\<close>

definition maxLogSize :: nat where "maxLogSize = 5 * 2 ^ 20"

definition previous_log :: "string \<Rightarrow> string" where "previous_log path = path @ ''.1''"

definition newLogger_path :: "machine \<Rightarrow> bool \<Rightarrow> place \<Rightarrow> string option" where
  "newLogger_path m interactive pl =
     (if mc_goos m \<noteq> ''linux'' \<and> \<not> interactive then
        Some (if mc_goos m = ''darwin'' then mc_join m ''/Library/Logs'' (AgentName @ ''.log'') else mc_join m (pl_dir pl) ''agent.log'')
      else None)"

text \<open>The open file, if any, and the size the program has in mind.\<close>

record logFile =
  lf_open :: bool
  lf_size :: nat

definition Append :: "string \<Rightarrow> string \<Rightarrow> folder \<Rightarrow> (nat \<times> go_error option) \<times> folder" where
  "Append path p d =
     (let old = (case content d path of None \<Rightarrow> [] | Some s \<Rightarrow> s) in
      case fd_faults d of
        [] \<Rightarrow> ((length p, None), put_file path (old @ p) d)
      | x # xs \<Rightarrow>
          let d = d\<lparr>fd_faults := xs\<rparr> in
          (case x of
             Works \<Rightarrow> ((length p, None), put_file path (old @ p) d)
           | Fails e \<Rightarrow> ((0, Some (failure_error e)), d)
           | Breaks n e \<Rightarrow> ((min n (length p), Some (failure_error e)), put_file path (old @ take n p) d)))"

text \<open>\<open>OpenFile\<close> with \<open>O_CREATE\<close> and \<open>O_APPEND\<close>.\<close>

definition OpenAppend :: "string \<Rightarrow> unit io" where
  "OpenAppend path =
     syscall whole (\<lambda>d. if \<not> fd_exists d then (Inl (OsError ErrNotExist), d)
       else (Inr (), case content d path of None \<Rightarrow> put_file path [] d | Some _ \<Rightarrow> d))"

definition log_open :: "string \<Rightarrow> logFile \<Rightarrow> folder \<Rightarrow> (go_error + unit) \<times> logFile \<times> folder" where
  "log_open path l d =
     (case OpenAppend path d of
        (Inl e, d) \<Rightarrow> (Inl e, l, d)
      | (Inr _, d) \<Rightarrow> (Inr (), \<lparr>lf_open = True, lf_size = (case content d path of None \<Rightarrow> 0 | Some s \<Rightarrow> length s)\<rparr>, d))"

definition openLogFile :: "string \<Rightarrow> folder \<Rightarrow> (go_error + unit) \<times> logFile \<times> folder" where
  "openLogFile path d =
     (let d = (case content d path of Some s \<Rightarrow> if maxLogSize < length s then snd (Rename path (previous_log path) d) else d | None \<Rightarrow> d)
      in log_open path \<lparr>lf_open = False, lf_size = 0\<rparr> d)"

definition log_Write :: "string \<Rightarrow> string \<Rightarrow> logFile \<Rightarrow> folder \<Rightarrow> (nat \<times> go_error option) \<times> logFile \<times> folder" where
  "log_Write path p l d =
     (case (if maxLogSize < lf_size l + length p
            then log_open path (l\<lparr>lf_open := False\<rparr>) (snd (Rename path (previous_log path) d)) else (Inr (), l, d)) of
        (Inl e, l, d) \<Rightarrow> ((0, Some e), l, d)
      | (Inr _, l, d) \<Rightarrow>
          if \<not> lf_open l then ((0, Some (ErrorText ''file already closed'')), l, d)
          else (case Append path p d of ((n, err), d) \<Rightarrow> ((n, err), l\<lparr>lf_size := lf_size l + n\<rparr>, d)))"

section \<open>Removing the files\<close>

lemma touches_remove_all: "touches (set ns) (remove_all ns)"
proof (induction ns)
  case Nil
  show ?case by (simp add: touches_def)
next
  case (Cons n ns)
  have "content d' m = content d m" if run: "remove_all (n # ns) d = (r, d')" and m: "m \<notin> set (n # ns)" for d r d' m
  proof -
    obtain x d1 where x: "Remove n d = (x, d1)" by (rule prod.exhaust)
    have "content d1 m = content d m" using touchesD [OF touches_calls(8) x] m by simp
    moreover have "remove_all ns d1 = (r, d') \<or> d' = d1" using run x by (auto split: sum.splits if_splits)
    moreover have "m \<notin> set ns" using m by simp
    ultimately show ?thesis using touchesD [OF Cons.IH] by metis
  qed
  then show ?case unfolding touches_def by blast
qed

lemma Remove_effect:
  assumes "Remove n d = (r, d')"
  shows "fd_exists d' = fd_exists d" and "content d m = None \<Longrightarrow> content d' m = None"
    and "r = Inr x \<or> (\<exists>e. r = Inl e \<and> error_is ErrNotExist e) \<Longrightarrow> content d' n = None"
  using assms unfolding Remove_def by (auto elim!: syscall_cases split: option.splits if_splits)

lemma remove_all_effect:
  assumes "remove_all ns d = (r, d')"
  shows "fd_exists d' = fd_exists d \<and> (\<forall>m. content d m = None \<longrightarrow> content d' m = None) \<and> (r = Inr () \<longrightarrow> (\<forall>n\<in>set ns. content d' n = None))"
  using assms
proof (induction ns arbitrary: d)
  case (Cons n ns)
  obtain x d1 where x: "Remove n d = (x, d1)" by (rule prod.exhaust)
  note eff = Remove_effect [OF x]
  show ?case
  proof (cases "\<exists>e. x = Inl e \<and> \<not> error_is ErrNotExist e")
    case True
    with Cons.prems x eff(1,2) show ?thesis by auto
  next
    case False
    then have gone: "content d1 n = None" using eff(3) by (cases x) auto
    from False Cons.prems x have "remove_all ns d1 = (r, d')" by (auto split: sum.splits if_splits)
    from Cons.IH [OF this] eff(1,2) gone show ?thesis by auto
  qed
qed simp

lemma RemoveDir_effect:
  assumes "RemoveDir d = (r, d')"
  shows "content d' = content d" and "fd_exists d \<Longrightarrow> \<not> fd_exists d' \<Longrightarrow> fd_files d = []"
  using assms unfolding RemoveDir_def by (auto elim!: syscall_cases split: if_splits)

lemma ReadDir_effect: "ReadDir d = (r, d') \<Longrightarrow> content d' = content d \<and> fd_exists d' = fd_exists d"
  unfolding ReadDir_def by (auto elim!: syscall_cases split: if_splits)

lemma PurgeConfig_steps:
  assumes "PurgeConfig pl d = (r, d')"
  obtains x d1 where "remove_all (ownFiles pl) d = (x, d1)" "content d' = content d1"
    "fd_exists d1 \<and> \<not> fd_exists d' \<longrightarrow> fd_files d1 = []" "r = Inr () \<longrightarrow> x = Inr ()"
proof -
  obtain x d1 where x: "remove_all (ownFiles pl) d = (x, d1)" by (rule prod.exhaust)
  show ?thesis
  proof (cases x)
    case (Inl e)
    with assms x show ?thesis by (intro that [OF x]) (auto simp: PurgeConfig_def bind_io_def)
  next
    case (Inr u)
    obtain y d2 where y: "RemoveDir d1 = (y, d2)" by (rule prod.exhaust)
    obtain z d3 where z: "ReadDir d2 = (z, d3)" by (rule prod.exhaust)
    have "d' = d2 \<or> d' = d3"
      using assms x Inr y z by (auto simp: PurgeConfig_def bind_io_def split: sum.splits if_splits list.splits)
    then show ?thesis using RemoveDir_effect [OF y] ReadDir_effect [OF z] Inr by (intro that [OF x]) auto
  qed
qed

text \<open>
  (C9) Removing the agent's files: whatever fails, only the agent's own files are deleted, and the folder only if it held nothing else. When
  the command succeeds, none of them is left: neither the configuration with its token nor the key.
\<close>

theorem purge_only_own_files:
  assumes "PurgeConfig pl d = (r, d')"
  shows "(\<forall>n. n \<notin> set (ownFiles pl) \<longrightarrow> content d' n = content d n) \<and>
    (fd_exists d \<and> \<not> fd_exists d' \<longrightarrow> set (file_names d) \<subseteq> set (ownFiles pl)) \<and>
    (r = Inr () \<longrightarrow> (\<forall>n\<in>set (ownFiles pl). content d' n = None))"
proof -
  obtain x d1 where x: "remove_all (ownFiles pl) d = (x, d1)" and d': "content d' = content d1"
    and gone: "fd_exists d1 \<and> \<not> fd_exists d' \<longrightarrow> fd_files d1 = []" and ok: "r = Inr () \<longrightarrow> x = Inr ()"
    by (rule PurgeConfig_steps [OF assms])
  note eff = remove_all_effect [OF x]
  have keep: "content d1 n = content d n" if "n \<notin> set (ownFiles pl)" for n
    using touchesD [OF touches_remove_all x that] .
  have "n \<in> set (ownFiles pl)" if "fd_files d1 = []" "n \<in> set (file_names d)" for n
    using that keep [of n] by (cases "n \<in> set (ownFiles pl)") (auto simp: in_file_names content_def)
  with d' gone ok eff keep show ?thesis by auto
qed

text \<open>A shared folder: the note of somebody else stays, and so does the folder.\<close>

definition demo_place :: place where
  "demo_place = \<lparr>pl_path = ''/etc/lotse-agent/agent.json'', pl_dir = ''/etc/lotse-agent'', pl_name = ''agent.json''\<rparr>"

definition demo_shared :: folder where
  "demo_shared = \<lparr>fd_exists = True, fd_files = [(''agent.json'', ''{}''), (''agent_ed25519'', ''k''), (''note'', ''mine'')], fd_restricted = False, fd_faults = []\<rparr>"

theorem purge_only_own_files_witness:
  "content (snd (PurgeConfig demo_place demo_shared)) ''note'' = Some ''mine'' \<and>
   content (snd (PurgeConfig demo_place demo_shared)) ''agent_ed25519'' = None \<and> fd_exists (snd (PurgeConfig demo_place demo_shared))"
proof -
  let ?r = "fst (PurgeConfig demo_place demo_shared)" and ?d = "snd (PurgeConfig demo_place demo_shared)"
  have run: "PurgeConfig demo_place demo_shared = (?r, ?d)" by simp
  have own: "''note'' \<notin> set (ownFiles demo_place)" "''agent_ed25519'' \<in> set (ownFiles demo_place)" "''note'' \<in> set (file_names demo_shared)"
    "content demo_shared ''note'' = Some ''mine''" "fd_exists demo_shared" and ok: "?r = Inr ()"
    by code_simp+
  note P = purge_only_own_files [OF run]
  have "content ?d ''note'' = Some ''mine''" using conjunct1 [OF P] own(1,4) by simp
  moreover have "content ?d ''agent_ed25519'' = None" using P ok own(2) by blast
  moreover have "fd_exists ?d" using P own(1,3,5) by blast
  ultimately show ?thesis by (intro conjI)
qed

section \<open>Saving the configuration\<close>

lemma MkdirAll_effect: "MkdirAll d = (r, d') \<Longrightarrow> \<exists>fs. d' = (case r of Inl _ \<Rightarrow> d\<lparr>fd_faults := fs\<rparr> | Inr _ \<Rightarrow> d\<lparr>fd_faults := fs, fd_exists := True\<rparr>)"
  unfolding MkdirAll_def by (auto elim!: syscall_cases)

lemma restrictDir_effect: "restrictDir d = (r, d') \<Longrightarrow> \<exists>fs. d' = (case r of Inl _ \<Rightarrow> d\<lparr>fd_faults := fs\<rparr> | Inr _ \<Rightarrow> d\<lparr>fd_faults := fs, fd_restricted := True\<rparr>)"
  unfolding restrictDir_def by (auto elim!: syscall_cases)

lemma wrap_io_effect: "wrap_io s m d = (r, d') \<Longrightarrow> \<exists>r0. m d = (r0, d') \<and> r = (case r0 of Inl e \<Rightarrow> Inl (Wrapped s e) | Inr x \<Rightarrow> Inr x)"
  by (auto simp: wrap_io_def split: prod.splits sum.splits)

lemma ReadDir_names: "ReadDir d = (r, d') \<Longrightarrow> \<exists>fs. d' = d\<lparr>fd_faults := fs\<rparr> \<and> (r = Inr ns \<longrightarrow> ns = file_names d) \<and>
    (\<forall>e. r = Inl e \<and> error_is ErrNotExist e \<longrightarrow> \<not> fd_exists d)"
  unfolding ReadDir_def by (auto simp: file_names_def elim!: syscall_cases split: if_splits)

lemma DedicatedDir_effect:
  assumes "DedicatedDir pl d = (r, d')"
  obtains fs where "d' = d\<lparr>fd_faults := fs\<rparr>" "\<forall>b. r = Inr b \<and> fd_exists d \<longrightarrow> (b \<longleftrightarrow> set (file_names d) \<subseteq> set (ownFiles pl))"
proof -
  obtain x d1 where x: "ReadDir d = (x, d1)" by (rule prod.exhaust)
  obtain fs where fs: "d1 = d\<lparr>fd_faults := fs\<rparr>" using ReadDir_names [OF x] by blast
  show ?thesis
  proof (cases x)
    case (Inl e)
    with ReadDir_names [OF x] assms x fs show ?thesis by (intro that [of fs]) (auto simp: DedicatedDir_def split: if_splits)
  next
    case (Inr ns)
    with ReadDir_names [OF x, of ns] assms x fs show ?thesis by (intro that [of fs]) (auto simp: DedicatedDir_def list_all_iff)
  qed
qed

lemma restrict_part:
  assumes "(if ded then wrap_io s restrictDir else return_io ()) d = (r, d')"
  shows "content d' = content d \<and> fd_exists d' = fd_exists d \<and> fd_restricted d' = (if isl r then fd_restricted d else ded \<or> fd_restricted d)"
proof (cases ded)
  case False
  with assms show ?thesis by (auto simp: return_io_def)
next
  case True
  with assms obtain r0 where r0: "restrictDir d = (r0, d')" "isl r = isl r0"
    by (auto simp: wrap_io_def split: prod.splits sum.splits)
  obtain fs where "d' = (case r0 of Inl _ \<Rightarrow> d\<lparr>fd_faults := fs\<rparr> | Inr _ \<Rightarrow> d\<lparr>fd_faults := fs, fd_restricted := True\<rparr>)"
    using restrictDir_effect [OF r0(1)] by blast
  with True r0(2) show ?thesis by (cases r0) simp_all
qed

text \<open>Saving restricts the folder only if it holds nothing else, and then replaces the file.\<close>

lemma Save_steps:
  assumes "Save cd pl c d = (r, d')"
  obtains (failed) e where "r = Inl e" "content d' = content d" "fd_restricted d' \<noteq> fd_restricted d \<longrightarrow> set (file_names d) \<subseteq> set (ownFiles pl)"
    | (replaced) data d1 where "cd_marshal cd c = Inr data" "replace_whole (pl_name pl) (data @ [CHR 0x0A]) d1 = (r, d')" "content d1 = content d"
        "fd_exists d1" "fd_restricted d1 = (set (file_names d) \<subseteq> set (ownFiles pl) \<or> fd_restricted d)"
  using assms unfolding Save_def
proof (cases rule: bind_ioE)
  case (left e)
  with MkdirAll_effect [of d "Inl e" d'] show ?thesis by (intro failed) auto
next
  case (right u d1)
  then obtain fs where d1: "d1 = d\<lparr>fd_faults := fs, fd_exists := True\<rparr>" using MkdirAll_effect [of d "Inr u" d1] by auto
  have names: "file_names d1 = file_names d" by (simp add: d1 file_names_def)
  from right(2) show ?thesis
  proof (cases rule: bind_ioE)
    case (left e)
    then obtain fs' where "d' = d1\<lparr>fd_faults := fs'\<rparr>" by (elim DedicatedDir_effect)
    with left d1 show ?thesis by (intro failed) auto
  next
    case (right ded d2)
    obtain fs' where d2: "d2 = d1\<lparr>fd_faults := fs'\<rparr>"
      and "\<forall>b. (Inr ded :: go_error + bool) = Inr b \<and> fd_exists d1 \<longrightarrow> (b \<longleftrightarrow> set (file_names d1) \<subseteq> set (ownFiles pl))"
      by (rule DedicatedDir_effect [OF right(1)])
    then have ded: "ded \<longleftrightarrow> set (file_names d) \<subseteq> set (ownFiles pl)" using names by (simp add: d1)
    from right(2) show ?thesis
    proof (cases rule: bind_ioE)
      case (left e)
      with restrict_part [OF left(1)] d1 d2 show ?thesis by (intro failed [of e]) simp_all
    next
      case (right v d3)
      have d3: "content d3 = content d" "fd_exists d3" "fd_restricted d3 = (ded \<or> fd_restricted d)"
        using restrict_part [OF right(1)] by (simp_all add: d1 d2)
      from right(2) show ?thesis
      proof (cases rule: bind_ioE)
        case (left e)
        then have "d' = d3" by (simp add: lift_io_def)
        with left d3 ded show ?thesis by (intro failed [of e]) auto
      next
        case (right data d4)
        then have "d4 = d3" "cd_marshal cd c = Inr data" by (simp_all add: lift_io_def)
        with right(2) d3 ded show ?thesis by (intro replaced [of data d3]) simp_all
      qed
    qed
  qed
qed

lemma Save_effect:
  assumes "Save cd pl c d = (r, d')"
  shows "(\<forall>n. n \<noteq> pl_name pl \<and> n \<noteq> tmp_name (pl_name pl) \<longrightarrow> content d' n = content d n) \<and>
    (case r of
       Inl _ \<Rightarrow> content d' (pl_name pl) = content d (pl_name pl)
     | Inr _ \<Rightarrow> (\<exists>data. cd_marshal cd c = Inr data \<and> content d' (pl_name pl) = Some (data @ [CHR 0x0A])) \<and> fd_exists d' \<and>
         fd_restricted d' = (set (file_names d) \<subseteq> set (ownFiles pl) \<or> fd_restricted d)) \<and>
    (fd_restricted d' \<noteq> fd_restricted d \<longrightarrow> set (file_names d) \<subseteq> set (ownFiles pl))"
proof (cases rule: Save_steps [OF assms])
  case (1 e)
  then show ?thesis by simp
next
  case (2 data d1)
  note R = replace_whole_atomic [OF 2(2)]
  have "content d' n = content d n" if "n \<noteq> pl_name pl" "n \<noteq> tmp_name (pl_name pl)" for n using R(2) [OF that] 2(3) by simp
  with R(1,4,5) 2 show ?thesis by (cases r) auto
qed

section \<open>From installing to running\<close>

text \<open>What the configuration and the keys rely on: what was written is read back.\<close>

definition reads_back :: "codec \<Rightarrow> 'k key_library \<Rightarrow> bool" where
  "reads_back cd kl \<longleftrightarrow>
     (\<forall>c data. cd_marshal cd c = Inr data \<longrightarrow> cd_unmarshal cd (data @ [CHR 0x0A]) = Inr c) \<and>
     (\<forall>k block. kl_marshal kl k = Inr block \<longrightarrow> kl_parse kl block = Inr k)"

lemma Validate_updates: "Validate cd kl (c\<lparr>cf_disable_updates := b\<rparr>) = Validate cd kl c"
  by (cases c) (simp add: Validate_def cong: option.case_cong sum.case_cong if_cong)

lemma prepare_steps:
  assumes "prepare cd kl mg dflt pl opts d = (Inr (c, k), d')"
  obtains d1 d2 where "mg_admin mg = None"
    "c = \<lparr>cf_hub_url = io_hub opts, cf_hub_key = io_key opts, cf_token = io_token opts, cf_allow_shell = io_allow_shell opts, cf_disable_updates = io_no_updates opts\<rparr>"
    "Validate cd kl c = None" "DedicatedDir pl d = (Inr True, d1)" "Save cd pl c d1 = (Inr (), d2)" "LoadOrCreate kl key_file d2 = (Inr k, d')"
proof -
  from assms obtain u da c0 d0 ok d1 where adm: "admin_only mg d = (Inr u, da)"
    and c0: "NewConfig cd kl (io_hub opts) (io_key opts) (io_token opts) (io_allow_shell opts) da = (Inr c0, d0)"
    and ok: "DedicatedDir pl d0 = (Inr ok, d1)"
    and rest: "(if \<not> ok then fail_io (shared_folder pl dflt) else write_files cd kl pl (c0\<lparr>cf_disable_updates := io_no_updates opts\<rparr>)) d1 = (Inr (c, k), d')"
    unfolding prepare_def bind_io_Inr by blast
  have adm': "mg_admin mg = None" "da = d" using adm by (cases "mg_admin mg"; simp add: admin_only_def io_Inr)+
  have ok': ok using rest by (cases ok) (simp_all add: fail_io_Inr)
  have v: "Validate cd kl c0 = None" "d0 = d"
    "c0 = \<lparr>cf_hub_url = io_hub opts, cf_hub_key = io_key opts, cf_token = io_token opts, cf_allow_shell = io_allow_shell opts, cf_disable_updates = False\<rparr>"
    using c0 adm'(2) unfolding NewConfig_def valid_config_def by (auto simp: io_Inr split: option.splits)
  from rest ok' obtain d2 where c: "c = c0\<lparr>cf_disable_updates := io_no_updates opts\<rparr>"
    and save: "Save cd pl c d1 = (Inr (), d2)" and key: "LoadOrCreate kl key_file d2 = (Inr k, d')"
    by (auto simp: write_files_def io_Inr)
  have "Validate cd kl c = None" using v(1) by (simp add: c Validate_updates)
  moreover have "DedicatedDir pl d = (Inr True, d1)" using ok ok' v(2) by simp
  moreover have "c = \<lparr>cf_hub_url = io_hub opts, cf_hub_key = io_key opts, cf_token = io_token opts, cf_allow_shell = io_allow_shell opts,
      cf_disable_updates = io_no_updates opts\<rparr>" by (simp add: c v(3))
  ultimately show ?thesis using adm'(1) save key by (intro that [of d1 d2])
qed

lemma LoadOrCreate_frame:
  assumes "LoadOrCreate kl name d = (r, d')"
  shows "n \<noteq> name \<Longrightarrow> n \<noteq> tmp_name name \<Longrightarrow> content d' n = content d n" and "fd_restricted d' = fd_restricted d"
proof -
  obtain x d1 where rd: "ReadFile name d = (x, d1)" by (rule prod.exhaust)
  obtain fs where d1: "d1 = d\<lparr>fd_faults := fs\<rparr>" by (rule ReadFile_cases [OF rd])
  have "d' = d1 \<or> (\<exists>u d2 d3 block. MkdirAll d1 = (u, d2) \<and> (d' = d2 \<or> replace_whole name block d2 = (d3, d')))"
    using assms rd unfolding LoadOrCreate_def
    by (auto simp: lift_io_def return_io_def elim!: bind_ioE split: sum.splits if_splits)
  moreover have "content d2 = content d1 \<and> fd_restricted d2 = fd_restricted d1" if "MkdirAll d1 = (u, d2)" for u d2
    using MkdirAll_effect [OF that] by (cases u) auto
  ultimately have "(\<forall>n. n \<noteq> name \<and> n \<noteq> tmp_name name \<longrightarrow> content d' n = content d1 n) \<and> fd_restricted d' = fd_restricted d1"
    using replace_whole_atomic(2,5) by metis
  then show "n \<noteq> name \<Longrightarrow> n \<noteq> tmp_name name \<Longrightarrow> content d' n = content d n" "fd_restricted d' = fd_restricted d" by (simp_all add: d1)
qed

lemma LoadOrCreate_again:
  assumes "LoadOrCreate kl name d = (Inr k, d')" and "\<And>k block. kl_marshal kl k = Inr block \<Longrightarrow> kl_parse kl block = Inr k"
    and "content d2 = content d'" "fd_faults d2 = []"
  shows "LoadOrCreate (kl\<lparr>kl_generate := g\<rparr>) name d2 = (Inr k, d2)"
proof -
  obtain data where "content d' name = Some data" "kl_parse kl data = Inr k"
    using assms(2) by (cases rule: LoadOrCreate_cases [OF assms(1)]) auto
  then show ?thesis using assms(3,4) by (simp add: LoadOrCreate_read)
qed

lemma ParseAuthorizedKey_generate: "ParseAuthorizedKey (kl\<lparr>kl_generate := g\<rparr>) s = ParseAuthorizedKey kl s"
  by (simp add: ParseAuthorizedKey_def cong: sum.case_cong)

lemma Validate_generate: "Validate cd (kl\<lparr>kl_generate := g\<rparr>) c = Validate cd kl c"
  by (simp add: Validate_def ParseAuthorizedKey_generate cong: option.case_cong if_cong)

lemma LoadConfig_reads:
  assumes "content d (pl_name pl) = Some data" "fd_faults d = []" "cd_unmarshal cd data = Inr c" "Validate cd kl c = None"
  shows "LoadConfig cd kl pl d = (Inr c, d)"
  using assms by (simp add: LoadConfig_def bind_io_def ReadFile_eq wrap_io_def lift_io_def valid_config_def return_io_def)

lemma install_service_ends: "install_service mg pl = (None, ds) \<Longrightarrow> \<exists>ds0. ds = ds0 @ [InstallService (service_arguments pl), StartService]"
  by (auto simp: install_service_def Let_def split: option.splits prod.splits)

text \<open>
  (C8) From installing to running: when the installation succeeds, the folder held nothing but the agent's files and is restricted, the
  service was installed for this configuration and started last, and every later start from the files reads
  exactly what was asked for: the consent to remote control and to updates as given, and the same key.
\<close>

theorem installed_agent_starts:
  assumes "cmdInstall cd kl mg dflt pl opts d = (Inr (c, k), ds, d')" and "reads_back cd kl"
    and "fd_exists d \<or> fd_files d = []" and "pl_name pl \<noteq> key_file" "pl_name pl \<noteq> tmp_name key_file"
    and "content d2 = content d'" "fd_faults d2 = []"
  shows "set (file_names d) \<subseteq> set (ownFiles pl) \<and> fd_restricted d' \<and>
    cf_allow_shell c = io_allow_shell opts \<and> cf_disable_updates c = io_no_updates opts \<and>
    (\<exists>ds0. ds = ds0 @ [InstallService (service_arguments pl), StartService]) \<and>
    (\<exists>hubKey. ParseAuthorizedKey kl (io_key opts) = Inr hubKey \<and> program_Start cd (kl\<lparr>kl_generate := g\<rparr>) pl d2 = (Inr (c, hubKey, k), d2))"
proof -
  obtain x d0 where pre: "prepare cd kl mg dflt pl opts d = (Inr (c, k), d')" and svc: "install_service mg pl = (None, ds)"
    using assms(1) by (auto simp: cmdInstall_def split: prod.splits sum.splits option.splits)
  obtain d1 d3 where c: "c = \<lparr>cf_hub_url = io_hub opts, cf_hub_key = io_key opts, cf_token = io_token opts, cf_allow_shell = io_allow_shell opts,
      cf_disable_updates = io_no_updates opts\<rparr>"
    and valid: "Validate cd kl c = None" and ded: "DedicatedDir pl d = (Inr True, d1)" and save: "Save cd pl c d1 = (Inr (), d3)"
    and key: "LoadOrCreate kl key_file d3 = (Inr k, d')"
    by (rule prepare_steps [OF pre])
  obtain fs where d1: "d1 = d\<lparr>fd_faults := fs\<rparr>"
    and own: "\<forall>b. (Inr True :: go_error + bool) = Inr b \<and> fd_exists d \<longrightarrow> (b \<longleftrightarrow> set (file_names d) \<subseteq> set (ownFiles pl))"
    by (rule DedicatedDir_effect [OF ded])
  have own': "set (file_names d) \<subseteq> set (ownFiles pl)" using own assms(3) by (auto simp: file_names_def)
  have names: "file_names d1 = file_names d" by (simp add: d1 file_names_def)
  obtain data where data: "cd_marshal cd c = Inr data" "content d3 (pl_name pl) = Some (data @ [CHR 0x0A])" and "fd_restricted d3"
    using Save_effect [OF save] own' by (auto simp: names)
  then have "content d' (pl_name pl) = Some (data @ [CHR 0x0A])" and restr: "fd_restricted d'"
    using LoadOrCreate_frame [OF key] assms(4,5) by simp_all
  then have "LoadConfig cd (kl\<lparr>kl_generate := g\<rparr>) pl d2 = (Inr c, d2)"
    using assms(2,6,7) valid data(1) by (intro LoadConfig_reads) (auto simp: reads_back_def Validate_generate)
  moreover obtain hubKey where hk: "ParseAuthorizedKey kl (io_key opts) = Inr hubKey"
    using valid by (auto simp: c Validate_def split: option.splits if_splits sum.splits)
  moreover have "LoadOrCreate (kl\<lparr>kl_generate := g\<rparr>) key_file d2 = (Inr k, d2)"
    using LoadOrCreate_again [OF key] assms(2,6,7) by (simp add: reads_back_def)
  ultimately have "program_Start cd (kl\<lparr>kl_generate := g\<rparr>) pl d2 = (Inr (c, hubKey, k), d2)"
    by (simp add: program_Start_def agent_New_def bind_io_def wrap_io_def lift_io_def return_io_def ParseAuthorizedKey_generate c)
  with hk own' restr install_service_ends [OF svc] show ?thesis by (simp add: c)
qed

text \<open>An installation with the consent to remote control but not to updates, over an older agent.\<close>

definition demo_options :: install_options where
  "demo_options = \<lparr>io_hub = ''https://hub'', io_key = ''ssh-ed25519 7'', io_token = ''t'', io_allow_shell = True, io_no_updates = True\<rparr>"

definition demo_config :: config where
  "demo_config = \<lparr>cf_hub_url = ''https://hub'', cf_hub_key = ''ssh-ed25519 7'', cf_token = ''t'', cf_allow_shell = True, cf_disable_updates = True\<rparr>"

definition demo_codec :: codec where
  "demo_codec =
     \<lparr>cd_url = (\<lambda>s. Some \<lparr>ul_scheme = ''https'', ul_host = s, ul_path = ''/''\<rparr>), cd_quote = (\<lambda>s. s),
      cd_marshal = (\<lambda>c. if c = demo_config then Inr ''{}'' else Inl (ErrorText ''unsupported'')), cd_unmarshal = (\<lambda>s. Inr demo_config)\<rparr>"

definition demo_manager :: manager where
  "demo_manager = \<lparr>mg_admin = None, mg_new = None, mg_status = StatusKnown, mg_uninstall = None, mg_status_after = NotInstalled, mg_install = None, mg_start = None\<rparr>"

definition demo_old :: folder where
  "demo_old = \<lparr>fd_exists = True, fd_files = [(''agent.json'', ''old''), (''agent_ed25519'', ''KEY 3'')], fd_restricted = False, fd_faults = []\<rparr>"

abbreviation demo_installed :: "(go_error + config \<times> string) \<times> svc_deed list \<times> folder" where
  "demo_installed \<equiv> cmdInstall demo_codec (demo_keys ''8'') demo_manager [] demo_place demo_options demo_old"

lemma demo_reads_back: "reads_back demo_codec (demo_keys new)"
  using demo_keys_read_back by (auto simp: reads_back_def demo_codec_def split: if_splits)

theorem installed_agent_starts_witness:
  "\<exists>ds d. demo_installed = (Inr (demo_config, ''3''), ds, d) \<and> fd_restricted d \<and>
     program_Start demo_codec (demo_keys ''9'') demo_place d = (Inr (demo_config, ''7'', ''3''), d)"
proof -
  let ?ds = "[StopService, UninstallService, InstallService [''run'', ''--config'', ''/etc/lotse-agent/agent.json''], StartService]"
  let ?d = "\<lparr>fd_exists = True, fd_files = [(''agent.json'', ''{}'' @ [CHR 0x0A]), (''agent_ed25519'', ''KEY 3'')], fd_restricted = True, fd_faults = []\<rparr>"
  have run: "demo_installed = (Inr (demo_config, ''3''), ?ds, ?d)" by code_simp
  have pl: "fd_exists demo_old \<or> fd_files demo_old = []" "pl_name demo_place \<noteq> key_file" "pl_name demo_place \<noteq> tmp_name key_file" by code_simp+
  have k: "(demo_keys ''8'')\<lparr>kl_generate := Inr ''9''\<rparr> = demo_keys ''9''" by (simp add: demo_keys_def)
  have hk: "ParseAuthorizedKey (demo_keys ''8'') (io_key demo_options) = Inr ''7''" by code_simp
  from installed_agent_starts [OF run demo_reads_back pl, of ?d "Inr ''9''"] k hk
  have "fd_restricted ?d \<and> program_Start demo_codec (demo_keys ''9'') demo_place ?d = (Inr (demo_config, ''7'', ''3''), ?d)" by auto
  with run show ?thesis by blast
qed

section \<open>The log is bounded\<close>

text \<open>While no call fails: the size is the one of the file, and neither the log nor the previous one exceeds the limit.\<close>

definition log_ok :: "string \<Rightarrow> logFile \<Rightarrow> folder \<Rightarrow> bool" where
  "log_ok path l d \<longleftrightarrow>
     lf_open l \<and> fd_exists d \<and> fd_faults d = [] \<and> map_option length (content d path) = Some (lf_size l) \<and> lf_size l \<le> maxLogSize \<and>
     (case content d (previous_log path) of None \<Rightarrow> True | Some s \<Rightarrow> length s \<le> maxLogSize)"

lemma previous_log_neq [simp]: "previous_log path \<noteq> path" "path \<noteq> previous_log path"
  by (simp_all add: previous_log_def)

lemma log_Write_bounded:
  assumes "log_ok path l d" and "length p \<le> maxLogSize" and "log_Write path p l d = (r, l', d')"
  shows "log_ok path l' d' \<and> r = (length p, None) \<and> (\<forall>n. n \<noteq> path \<and> n \<noteq> previous_log path \<longrightarrow> content d' n = content d n)"
proof -
  obtain s where s: "content d path = Some s" "lf_size l = length s" using assms(1) by (auto simp: log_ok_def)
  show ?thesis
  proof (cases "maxLogSize < lf_size l + length p")
    case False
    with assms s show ?thesis by (auto simp: log_Write_def log_ok_def Append_def Let_def)
  next
    case True
    with assms s show ?thesis
      by (auto simp: log_Write_def log_ok_def Append_def Let_def log_open_def OpenAppend_def syscall_def Rename_def)
  qed
qed

end
