(* ===== verification/Routes.thy ===== *)
theory Routes
  imports Sessions Paths
begin

text \<open>
  The HTTP front of the hub (\<open>Handler\<close>, \<open>securityHeaders\<close> and \<open>sameOrigin\<close> of \<open>hub/api.go\<close>, \<open>hub/static.go\<close>): the table of
  routes with the role each needs, and how a request finds its handler. The router is \<open>http.ServeMux\<close> of the standard library, whose
  patterns are matched literal first, then wildcard, then subtree. What the handlers do is an argument: the other
  theories model them. \<open>url.Parse\<close> of an origin is an argument as well.
\<close>

section \<open>The table of routes\<close>

datatype (plugins only: code) handler =
    GetHealth | GetSetup | PostSetup | PostLogin | PostLoginPasskeyOptions | PostLogout | GetMe | PostPassword
    | PostTOTPSetup | PostTOTPEnable | PostTOTPDisable | GetPasskeys | PostPasskey | PostPasskeyOptions | PatchPasskey
    | DeletePasskey | PostElevate | GetAudit | HandleEvents | GetSystems | GetSystem | GetMetrics | GetProcesses
    | GetServices | GetAlerts | GetAlertRules | GetNotifiers | PatchSystem | HandleShell | PostWake | PostPower
    | PostService | PostSignal | GetFiles | DownloadFile | PutFile | PostFileAction | GetScripts | SaveScript
    | DeleteScript | GetRuns | PostRun | GetRun | GetRunEvents | PostRunCancel | DeleteSystem | PostAgentUpdate
    | PostEnroll | SaveAlertRule | DeleteAlertRule | SaveNotifier | TestNotifier | DeleteNotifier | GetUsers | PostUser
    | PatchUser | DeleteUser | ApiNotFound | HandleAgent | GetInstallScript | GetAgentBinary | Static

datatype access = Public | SignedIn | Role string

definition routes :: "(string \<times> access \<times> handler) list" where
  "routes =
     [(''GET /api/health'', Public, GetHealth),
      (''GET /api/setup'', Public, GetSetup),
      (''POST /api/setup'', Public, PostSetup),
      (''POST /api/login'', Public, PostLogin),
      (''POST /api/login/passkey-options'', Public, PostLoginPasskeyOptions),
      (''POST /api/logout'', Public, PostLogout),
      (''GET /api/me'', Role RoleViewer, GetMe),
      (''POST /api/me/password'', Role RoleViewer, PostPassword),
      (''POST /api/me/totp/setup'', Role RoleViewer, PostTOTPSetup),
      (''POST /api/me/totp/enable'', Role RoleViewer, PostTOTPEnable),
      (''POST /api/me/totp/disable'', Role RoleViewer, PostTOTPDisable),
      (''GET /api/me/passkeys'', Role RoleViewer, GetPasskeys),
      (''POST /api/me/passkeys'', Role RoleViewer, PostPasskey),
      (''POST /api/me/passkeys/options'', Role RoleViewer, PostPasskeyOptions),
      (''PATCH /api/me/passkeys/{id}'', Role RoleViewer, PatchPasskey),
      (''DELETE /api/me/passkeys/{id}'', Role RoleViewer, DeletePasskey),
      (''POST /api/elevate'', Role RoleViewer, PostElevate),
      (''GET /api/audit'', Role RoleViewer, GetAudit),
      (''GET /api/events'', Role RoleViewer, HandleEvents),
      (''GET /api/systems'', Role RoleViewer, GetSystems),
      (''GET /api/systems/{id}'', Role RoleViewer, GetSystem),
      (''GET /api/systems/{id}/metrics'', Role RoleViewer, GetMetrics),
      (''GET /api/systems/{id}/processes'', Role RoleViewer, GetProcesses),
      (''GET /api/systems/{id}/services'', Role RoleViewer, GetServices),
      (''GET /api/alerts'', Role RoleViewer, GetAlerts),
      (''GET /api/alert-rules'', Role RoleViewer, GetAlertRules),
      (''GET /api/notifiers'', Role RoleViewer, GetNotifiers),
      (''PATCH /api/systems/{id}'', Role RoleOperator, PatchSystem),
      (''GET /api/systems/{id}/shell'', SignedIn, HandleShell),
      (''POST /api/systems/{id}/wake'', Role RoleOperator, PostWake),
      (''POST /api/systems/{id}/power'', Role RoleOperator, PostPower),
      (''POST /api/systems/{id}/services'', Role RoleOperator, PostService),
      (''POST /api/systems/{id}/processes/{pid}/signal'', Role RoleOperator, PostSignal),
      (''GET /api/systems/{id}/files'', Role RoleOperator, GetFiles),
      (''GET /api/systems/{id}/files/download'', Role RoleOperator, DownloadFile),
      (''PUT /api/systems/{id}/files'', Role RoleOperator, PutFile),
      (''POST /api/systems/{id}/files'', Role RoleOperator, PostFileAction),
      (''GET /api/scripts'', Role RoleOperator, GetScripts),
      (''POST /api/scripts'', Role RoleOperator, SaveScript),
      (''PUT /api/scripts/{id}'', Role RoleOperator, SaveScript),
      (''DELETE /api/scripts/{id}'', Role RoleOperator, DeleteScript),
      (''GET /api/runs'', Role RoleOperator, GetRuns),
      (''POST /api/runs'', Role RoleOperator, PostRun),
      (''GET /api/runs/{id}'', Role RoleOperator, GetRun),
      (''GET /api/runs/{id}/events'', Role RoleOperator, GetRunEvents),
      (''POST /api/runs/{id}/cancel'', Role RoleOperator, PostRunCancel),
      (''DELETE /api/systems/{id}'', Role RoleAdmin, DeleteSystem),
      (''POST /api/systems/{id}/update'', Role RoleAdmin, PostAgentUpdate),
      (''POST /api/enroll'', Role RoleAdmin, PostEnroll),
      (''POST /api/alert-rules'', Role RoleAdmin, SaveAlertRule),
      (''PUT /api/alert-rules/{id}'', Role RoleAdmin, SaveAlertRule),
      (''DELETE /api/alert-rules/{id}'', Role RoleAdmin, DeleteAlertRule),
      (''POST /api/notifiers'', Role RoleAdmin, SaveNotifier),
      (''POST /api/notifiers/test'', Role RoleAdmin, TestNotifier),
      (''PUT /api/notifiers/{id}'', Role RoleAdmin, SaveNotifier),
      (''DELETE /api/notifiers/{id}'', Role RoleAdmin, DeleteNotifier),
      (''GET /api/users'', Role RoleAdmin, GetUsers),
      (''POST /api/users'', Role RoleAdmin, PostUser),
      (''PATCH /api/users/{id}'', Role RoleAdmin, PatchUser),
      (''DELETE /api/users/{id}'', Role RoleAdmin, DeleteUser),
      (''/api/'', Public, ApiNotFound),
      (''GET '' @ AgentPath, Public, HandleAgent),
      (''GET /install.sh'', Public, GetInstallScript),
      (''GET /install.ps1'', Public, GetInstallScript),
      (''GET /download/{file}'', Public, GetAgentBinary),
      (''/'', Public, Static)]"

section \<open>Patterns\<close>

text \<open>A pattern: the method, empty for any, and its segments. A pattern that ends in a slash has the whole subtree.\<close>

datatype pseg = Lit string | Wild string | Subtree

definition is_wild :: "pseg \<Rightarrow> bool" where
  "is_wild q = (case q of Wild _ \<Rightarrow> True | _ \<Rightarrow> False)"

definition parse_seg :: "string \<Rightarrow> pseg" where
  "parse_seg s = (if s = [] then Subtree else if HasPrefix s ''{'' then Wild (butlast (tl s)) else Lit s)"

definition parsePattern :: "string \<Rightarrow> string \<times> pseg list" where
  "parsePattern p =
     (case Cut (CHR '' '') p of
        (a, b, True) \<Rightarrow> (a, map parse_seg (tl (Split slash b)))
      | (_, _, False) \<Rightarrow> ([], map parse_seg (tl (Split slash p))))"

fun unhex :: "char \<Rightarrow> nat option" where
  "unhex c =
     (if 48 \<le> byte c \<and> byte c \<le> 57 then Some (byte c - 48)
      else if 97 \<le> byte c \<and> byte c \<le> 102 then Some (byte c - 87)
      else if 65 \<le> byte c \<and> byte c \<le> 70 then Some (byte c - 55) else None)"

fun unescape :: "string \<Rightarrow> string option" where
  "unescape [] = Some []"
| "unescape (c # s) =
     (if c = CHR ''%'' then
        (case s of
           a # b # s' \<Rightarrow> (case (unhex a, unhex b) of (Some x, Some y) \<Rightarrow> map_option (Cons (char_of (16 * x + y))) (unescape s') | _ \<Rightarrow> None)
         | _ \<Rightarrow> None)
      else map_option (Cons c) (unescape s))"

definition pathUnescape :: "string \<Rightarrow> string" where
  "pathUnescape s = (case unescape s of None \<Rightarrow> s | Some u \<Rightarrow> u)"

text \<open>The segments of a path, as \<open>firstSegment\<close> reads them one by one: a final slash is the segment \<open>/\<close>.\<close>

definition segments :: "string \<Rightarrow> string list" where
  "segments p =
     (if p = [] then []
      else let ss = tl (Split slash p) in
        if last (Split slash p) = [] then map pathUnescape (butlast ss) @ [[slash]] else map pathUnescape ss)"

text \<open>A node of the tree is the list of what is left of the patterns that lead to it.\<close>

type_synonym 'r route_node = "(pseg list \<times> 'r) list"

definition below :: "(pseg \<Rightarrow> bool) \<Rightarrow> 'r route_node \<Rightarrow> 'r route_node" where
  "below P n = List.map_filter (\<lambda>(ps, r). case ps of [] \<Rightarrow> None | q # qs \<Rightarrow> if P q then Some (qs, r) else None) n"

definition leaf :: "'r route_node \<Rightarrow> 'r option" where
  "leaf n = map_option snd (find (\<lambda>(ps, r). ps = []) n)"

fun matchPath :: "'r route_node \<Rightarrow> string list \<Rightarrow> string list \<Rightarrow> ('r \<times> string list) option" where
  "matchPath n [] matches = map_option (\<lambda>r. (r, matches)) (leaf n)"
| "matchPath n (seg # rest) matches =
     (case matchPath (below (\<lambda>q. q = Lit seg) n) rest matches of
        Some m \<Rightarrow> Some m
      | None \<Rightarrow>
          (case (if seg = [slash] then None else matchPath (below is_wild n) rest (matches @ [seg])) of
             Some m \<Rightarrow> Some m
           | None \<Rightarrow> map_option (\<lambda>r. (r, matches)) (leaf (below (\<lambda>q. q = Subtree) n))))"

section \<open>The router\<close>

type_synonym route = "(string \<times> pseg list) \<times> access \<times> handler"

definition mux :: "route list" where
  "mux = map (\<lambda>(p, a, x). (parsePattern p, a, x)) routes"

definition method_node :: "string \<Rightarrow> route list \<Rightarrow> route route_node" where
  "method_node meth rs = map (\<lambda>r. (snd (fst r), r)) (filter (\<lambda>r. fst (fst r) = meth) rs)"

definition matchMethodAndPath :: "route list \<Rightarrow> string \<Rightarrow> string \<Rightarrow> (route \<times> string list) option" where
  "matchMethodAndPath rs meth path =
     (case matchPath (method_node meth rs) (segments path) [] of
        Some m \<Rightarrow> Some m
      | None \<Rightarrow>
          (case (if meth = ''HEAD'' then matchPath (method_node ''GET'' rs) (segments path) [] else None) of
             Some m \<Rightarrow> Some m
           | None \<Rightarrow> matchPath (method_node [] rs) (segments path) []))"

definition exactMatch :: "(route \<times> string list) option \<Rightarrow> string \<Rightarrow> bool" where
  "exactMatch n path =
     (case n of
        None \<Rightarrow> False
      | Some (r, _) \<Rightarrow>
          let ps = snd (fst r) in
          if last ps \<noteq> Subtree then True
          else if path \<noteq> [] \<and> last path \<noteq> slash then False
          else length ps = length (filter (\<lambda>c. c = slash) path))"

definition cleanPath :: "string \<Rightarrow> string" where
  "cleanPath p =
     (if p = [] then [slash]
      else let p = (if hd p \<noteq> slash then slash # p else p); np = Clean p
           in if last p = slash \<and> np \<noteq> [slash] then np @ [slash] else np)"

definition slash_redirect :: "route list \<Rightarrow> string \<Rightarrow> string \<Rightarrow> bool" where
  "slash_redirect rs meth path \<longleftrightarrow>
     \<not> exactMatch (matchMethodAndPath rs meth path) path \<and> path \<noteq> [] \<and> last path \<noteq> slash \<and>
     exactMatch (matchMethodAndPath rs meth (path @ [slash])) (path @ [slash])"

datatype found = Found route "string list" | RedirectTo string | NoRoute

definition findHandler :: "route list \<Rightarrow> string \<Rightarrow> string \<Rightarrow> found" where
  "findHandler rs meth epath =
     (let path = (if meth = ''CONNECT'' then epath else cleanPath epath) in
      if slash_redirect rs meth path then RedirectTo (cleanPath epath @ [slash])
      else if path \<noteq> epath then RedirectTo path
      else (case matchMethodAndPath rs meth path of None \<Rightarrow> NoRoute | Some (r, matches) \<Rightarrow> Found r matches))"

section \<open>Serving a request\<close>

record hub_request =
  rm_request :: request
  rm_method :: string
  rm_path :: string      \<comment> \<open>the escaped path\<close>
  rm_star :: bool        \<comment> \<open>the request is for \<open>*\<close>\<close>

definition securityHeaders :: "(string \<times> string) list" where
  "securityHeaders =
     [(''X-Content-Type-Options'', ''nosniff''), (''Referrer-Policy'', ''same-origin''), (''X-Frame-Options'', ''DENY''),
      (''Content-Security-Policy'',
       ''default-src '' @ [CHR 0x27] @ ''self'' @ [CHR 0x27] @ ''; style-src '' @ [CHR 0x27] @ ''self'' @ [CHR 0x27] @ '' '' @ [CHR 0x27] @ ''unsafe-inline'' @ [CHR 0x27] @
       ''; img-src '' @ [CHR 0x27] @ ''self'' @ [CHR 0x27] @ '' data:; connect-src '' @ [CHR 0x27] @ ''self'' @ [CHR 0x27] @
       ''; frame-ancestors '' @ [CHR 0x27] @ ''none'' @ [CHR 0x27] @ ''; base-uri '' @ [CHR 0x27] @ ''self'' @ [CHR 0x27] @
       ''; form-action '' @ [CHR 0x27] @ ''self'' @ [CHR 0x27])]"

definition sameOrigin :: "(string \<Rightarrow> string option) \<Rightarrow> string \<Rightarrow> request \<Rightarrow> bool" where
  "sameOrigin origin_host meth r \<longleftrightarrow>
     (if meth \<in> {''GET'', ''HEAD'', ''OPTIONS''} then True
      else if rq_origin r \<noteq> [] then origin_host (rq_origin r) = Some (rq_host r) else True)"

datatype 'a served = Replied "'a reply" | Redirected string | NotFoundPage | StarRefused

text \<open>What a handler does with a request, the values of the wildcards of its path and the session, if its route needs one.\<close>

type_synonym 'a action = "handler \<Rightarrow> request \<Rightarrow> string list \<Rightarrow> session option \<Rightarrow> 'a reply hub_op"

definition guarded :: "env \<Rightarrow> request \<Rightarrow> access \<Rightarrow> (session option \<Rightarrow> 'a reply hub_op) \<Rightarrow> 'a reply hub_op" where
  "guarded ev r a f =
     (case a of
        Public \<Rightarrow> f None
      | SignedIn \<Rightarrow> requireUser ev r (\<lambda>s. f (Some s))
      | Role role \<Rightarrow> requireRole ev r role (\<lambda>s. f (Some s)))"

definition serve_mux :: "env \<Rightarrow> hub_request \<Rightarrow> request \<Rightarrow> 'a action \<Rightarrow> 'a served hub_op" where
  "serve_mux ev q r act =
     (if rm_star q then return StarRefused
      else (case findHandler mux (rm_method q) (rm_path q) of
              NoRoute \<Rightarrow> return NotFoundPage
            | RedirectTo p \<Rightarrow> return (Redirected p)
            | Found (_, a, x) vals \<Rightarrow> do { rep \<leftarrow> guarded ev r a (act x r vals); return (Replied rep) }))"

text \<open>The whole handler: the headers of the answer, and the answer.\<close>

definition Handler ::
    "(string \<Rightarrow> string option) \<Rightarrow> ip_prefix list \<Rightarrow> env \<Rightarrow> hub_request \<Rightarrow> 'a action \<Rightarrow> ((string \<times> string) list \<times> 'a served) hub_op" where
  "Handler origin_host proxies ev q act =
     (let r = realIP proxies (rm_request q) in
      if \<not> sameOrigin origin_host (rm_method q) r
      then return (securityHeaders, Replied (WriteError 403 ''cross-origin request refused''))
      else do { out \<leftarrow> serve_mux ev q r act; return (securityHeaders, out) })"

section \<open>The web interface\<close>

text \<open>
  \<open>static\<close>: \<open>is_file\<close> is whether the embedded files have a file (no folder) of this name, \<open>index\<close> whether they have the start page. The path is
  the decoded one.
\<close>

datatype page = FileServer "(string \<times> string) list" | Index "(string \<times> string) list" | PageError nat string

definition static :: "(string \<Rightarrow> bool) \<Rightarrow> bool \<Rightarrow> string \<Rightarrow> string \<Rightarrow> page" where
  "static is_file index meth path =
     (if meth \<noteq> ''GET'' \<and> meth \<noteq> ''HEAD'' then PageError 405 ''method not allowed''
      else if HasPrefix path ''/assets/'' then FileServer [(''Cache-Control'', ''public, max-age=31536000, immutable'')]
      else let p = TrimPrefix (Clean path) ''/'' in
        if p \<noteq> [] \<and> p \<noteq> ''index.html'' \<and> is_file p then FileServer []
        else if \<not> index
        then PageError 503 (''The web UI is not part of this build. Run '' @ [CHR 0x60] @ ''npm run build'' @ [CHR 0x60] @ '' in web/ and rebuild the hub.'')
        else Index [(''Content-Type'', ''text/html; charset=utf-8''), (''Cache-Control'', ''no-cache'')])"

section \<open>The roles as documented\<close>

text \<open>
  What the README gives to each role, and what it calls a write. A terminal is for operators too; its route
  only asks for a session, since a missing role is reported on the socket.
\<close>

definition administration :: "handler list" where
  "administration =
     [GetUsers, PostUser, PatchUser, DeleteUser, PostEnroll, DeleteSystem, SaveAlertRule, DeleteAlertRule,
      SaveNotifier, TestNotifier, DeleteNotifier, PostAgentUpdate]"

definition operation :: "handler list" where
  "operation =
     [GetFiles, DownloadFile, PutFile, PostFileAction, GetScripts, SaveScript, DeleteScript, GetRuns, GetRun, GetRunEvents, PostRun, PostRunCancel,
      PostSignal, PostService, PostPower, PostWake, PatchSystem]"

definition no_session :: "handler list" where
  "no_session =
     [GetHealth, GetSetup, PostSetup, PostLogin, PostLoginPasskeyOptions, PostLogout, ApiNotFound, HandleAgent, GetInstallScript, GetAgentBinary, Static]"

definition documented :: "handler \<Rightarrow> access" where
  "documented x =
     (if x \<in> set no_session then Public else if x \<in> set administration then Role RoleAdmin
      else if x \<in> set operation then Role RoleOperator else if x = HandleShell then SignedIn else Role RoleViewer)"

definition writes :: "handler \<Rightarrow> bool" where
  "writes x \<longleftrightarrow>
     x \<in> set [PostSetup, PostLogin, PostLogout, PostPassword, PostTOTPSetup, PostTOTPEnable, PostTOTPDisable, PostPasskey, PatchPasskey, DeletePasskey, PostElevate,
       PatchSystem, PostWake, PostPower, PostService, PostSignal, PutFile, PostFileAction, SaveScript, DeleteScript, PostRun, PostRunCancel,
       DeleteSystem, PostAgentUpdate, PostEnroll, SaveAlertRule, DeleteAlertRule, SaveNotifier, TestNotifier, DeleteNotifier, PostUser, PatchUser, DeleteUser]"

text \<open>The table agrees with the documentation, and no write can be asked for with a method that passes the origin check.\<close>

lemma routes_documented:
  "list_all (\<lambda>((meth, ps), a, x). a = documented x \<and> (writes x \<longrightarrow> meth \<notin> set [[], ''GET'', ''HEAD'', ''OPTIONS'']) \<and> ps \<noteq> []) mux"
  by code_simp

section \<open>What the router finds\<close>

lemma leaf_SomeD: "leaf n = Some r \<Longrightarrow> r \<in> snd ` set n"
  by (auto simp: leaf_def dest!: find_SomeD) (metis image_eqI snd_conv)

lemma below_subset: "snd ` set (below P n) \<subseteq> snd ` set n"
  by (force simp: below_def List.map_filter_def split: list.splits if_splits)

lemma matchPath_SomeD: "matchPath n segs ms = Some (r, ms') \<Longrightarrow> r \<in> snd ` set n"
proof (induction n segs ms rule: matchPath.induct)
  case (1 n ms)
  then show ?case by (auto dest: leaf_SomeD)
next
  case (2 n seg rest ms)
  note sub = below_subset [of "\<lambda>q. q = Lit seg" n] below_subset [of is_wild n] below_subset [of "\<lambda>q. q = Subtree" n]
  show ?case
  proof (cases "matchPath (below (\<lambda>q. q = Lit seg) n) rest ms")
    case (Some m)
    with 2 sub show ?thesis by auto
  next
    case lit: None
    show ?thesis
    proof (cases "seg = [slash] \<or> matchPath (below is_wild n) rest (ms @ [seg]) = None")
      case True
      then have "(if seg = [slash] then None else matchPath (below is_wild n) rest (ms @ [seg])) = None" by auto
      with 2 lit sub show ?thesis by (auto dest!: leaf_SomeD)
    next
      case False
      with 2 lit sub show ?thesis by auto
    qed
  qed
qed

lemma method_node_SomeD:
  assumes "matchPath (method_node meth rs) segs ms = Some (r, ms')"
  shows "r \<in> set rs \<and> fst (fst r) = meth"
  using matchPath_SomeD [OF assms] by (auto simp: method_node_def)

definition fits :: "string \<Rightarrow> route list \<Rightarrow> route \<Rightarrow> bool" where
  "fits meth rs r \<longleftrightarrow> r \<in> set rs \<and> (fst (fst r) = meth \<or> fst (fst r) = [] \<or> meth = ''HEAD'' \<and> fst (fst r) = ''GET'')"

lemma match_SomeD:
  assumes "matchMethodAndPath rs meth path = Some (r, ms)"
  shows "fits meth rs r"
proof -
  let ?m = "\<lambda>x. matchPath (method_node x rs) (segments path) []"
  consider "?m meth = Some (r, ms)" | "meth = ''HEAD''" "?m ''GET'' = Some (r, ms)" | "?m [] = Some (r, ms)"
    using assms unfolding matchMethodAndPath_def by (cases "?m meth"; cases "meth = ''HEAD''"; cases "?m ''GET''") simp_all
  then show ?thesis by cases (auto simp: fits_def dest: method_node_SomeD)
qed

lemma findHandler_FoundD:
  assumes "findHandler rs meth path = Found r vals"
  shows "fits meth rs r"
proof -
  obtain path' where "matchMethodAndPath rs meth path' = Some (r, vals)"
    using assms unfolding findHandler_def by (auto simp: Let_def split: if_splits option.splits)
  then show ?thesis by (rule match_SomeD)
qed

text \<open>A request that finds a write has a method whose origin is checked.\<close>

lemma found_documented:
  assumes "findHandler mux meth path = Found (p, a, x) vals"
  shows "a = documented x" and "writes x \<Longrightarrow> meth \<notin> {''GET'', ''HEAD'', ''OPTIONS''}"
proof -
  from findHandler_FoundD [OF assms] have r: "(p, a, x) \<in> set mux"
    and meth: "fst p = meth \<or> fst p = [] \<or> meth = ''HEAD'' \<and> fst p = ''GET''" by (auto simp: fits_def)
  obtain meth' ps where p: "p = (meth', ps)" by (rule prod.exhaust)
  from r routes_documented have doc: "a = documented x \<and> (writes x \<longrightarrow> fst p \<notin> set [[], ''GET'', ''HEAD'', ''OPTIONS''])"
    unfolding list_all_iff p by auto
  then show "a = documented x" by simp
  show "meth \<notin> {''GET'', ''HEAD'', ''OPTIONS''}" if "writes x" using doc that meth by auto
qed

text \<open>No route hides another: with a number in the place of its wildcards, the search of its method arrives at each.\<close>

definition example_segments :: "pseg list \<Rightarrow> string list" where
  "example_segments ps = map (\<lambda>p. case p of Lit s \<Rightarrow> s | Wild _ \<Rightarrow> ''7'' | Subtree \<Rightarrow> [slash]) ps"

definition found_in :: "route list \<Rightarrow> route \<Rightarrow> bool" where
  "found_in rs r =
     (case matchPath (method_node (fst (fst r)) rs) (example_segments (snd (fst r))) [] of
        None \<Rightarrow> False | Some (r', vals) \<Rightarrow> snd r' = snd r \<and> list_all (\<lambda>v. v = ''7'') vals)"

lemma every_route_found: "(let rs = mux in list_all (found_in rs) rs)"
  by code_simp

section \<open>Access control\<close>

text \<open>The session a handler was given: none where the documentation asks for none, otherwise a live one whose role is enough.\<close>

definition live_session :: "env \<Rightarrow> request \<Rightarrow> store \<Rightarrow> session \<Rightarrow> bool" where
  "live_session ev r st s \<longleftrightarrow>
     rq_cookie r \<noteq> [] \<and> ss_user s \<in> set (st_users st) \<and>
     list_ex (\<lambda>row. se_token row = hashToken ev (rq_cookie r) \<and> unix_of (ev_now ev) < se_expires row \<and> se_user row = u_id (ss_user s)) (st_sessions st)"

definition entitled :: "env \<Rightarrow> request \<Rightarrow> store \<Rightarrow> access \<Rightarrow> session option \<Rightarrow> bool" where
  "entitled ev r st a s =
     (case a of
        Public \<Rightarrow> s = None
      | SignedIn \<Rightarrow> (case s of None \<Rightarrow> False | Some s \<Rightarrow> live_session ev r st s)
      | Role role \<Rightarrow> (case s of None \<Rightarrow> False | Some s \<Rightarrow> live_session ev r st s \<and> roleRank role \<le> roleRank (u_role (ss_user s))))"

definition same_data :: "hub \<Rightarrow> hub \<Rightarrow> bool" where
  "same_data h h' \<longleftrightarrow> h' = h \<or> h' = h\<lparr>hb_store := tick (hb_store h)\<rparr>"

lemma same_data_refl [simp]: "same_data h h"
  by (simp add: same_data_def)

lemma requireUser_cases:
  assumes "run_state (requireUser ev r f) h = (rep, h')"
  obtains (refused) code msg where "rep = WriteError code msg" "same_data h h'"
    | (passed) s where "run_state (f s) (h\<lparr>hb_store := tick (hb_store h)\<rparr>) = (rep, h')" "live_session ev r (hb_store h) s"
proof (cases "rq_cookie r = []")
  case True
  with assms show ?thesis by (intro refused) (auto simp: requireUser_def)
next
  case False
  let ?x = "session_lookup (ev_now ev) (hashToken ev (rq_cookie r)) (tick (hb_store h))"
  show ?thesis
  proof (cases "fault (hb_store h) \<or> ?x = None")
    case True
    with False assms show ?thesis
      by (intro refused) (cases "fault (hb_store h)"; auto simp: requireUser_def Session_def query_row_tick same_data_def)+
  next
    case lookup: False
    then obtain s where s: "?x = Some s" by blast
    from session_lookup_SomeD [OF s] False have "live_session ev r (hb_store h) s" by (auto simp: live_session_def list_ex_iff)
    with s lookup False assms show ?thesis by (intro passed) (auto simp: requireUser_def Session_def query_row_tick)
  qed
qed

text \<open>What a gate lets through.\<close>

lemma guarded_cases:
  assumes "run_state (guarded ev r a f) h = (rep, h')"
  obtains (refused) code msg where "rep = WriteError code msg" "same_data h h'"
    | (passed) s h1 where "run_state (f s) h1 = (rep, h')" "same_data h h1" "entitled ev r (hb_store h) a s"
proof (cases a)
  case Public
  with assms show ?thesis by (intro passed [of None h]) (simp_all add: guarded_def entitled_def)
next
  case SignedIn
  with assms have "run_state (requireUser ev r (\<lambda>s. f (Some s))) h = (rep, h')" by (simp add: guarded_def)
  then show ?thesis
    by (cases rule: requireUser_cases) (use SignedIn in \<open>auto simp: entitled_def same_data_def intro: refused passed\<close>)
next
  case (Role role)
  with assms have "run_state (requireUser ev r (\<lambda>s. if \<not> Can (ss_user s) role
      then return (WriteError 403 (''your role ('' @ u_role (ss_user s) @ '') does not allow this'')) else f (Some s))) h = (rep, h')"
    by (simp add: guarded_def requireRole_def)
  then show ?thesis
  proof (cases rule: requireUser_cases)
    case (refused code msg)
    then show ?thesis by (rule that(1))
  next
    case (passed s)
    show ?thesis
    proof (cases "Can (ss_user s) role")
      case True
      with passed Role show ?thesis
        by (intro that(2) [of "Some s" "h\<lparr>hb_store := tick (hb_store h)\<rparr>"]) (auto simp: entitled_def same_data_def Can_def RoleIncludes_def)
    next
      case False
      with passed show ?thesis by (intro that(1)) (auto simp: same_data_def)
    qed
  qed
qed

text \<open>
  (C6) Access control of the whole hub: whatever a request asks for, either no handler runs and nothing changes, or the handler that runs was given
  what the documentation of the roles asks for: nothing for signing in, setting up, agents and downloads, and a live session
  with at least the documented role for everything else. A handler that changes something runs only
  if the request names no origin or the origin of the hub itself.
\<close>

theorem every_request_authorized:
  assumes "run_state (Handler origin_host proxies ev q act) h = ((hdrs, out), h')"
  defines "r \<equiv> realIP proxies (rm_request q)"
  shows "hdrs = securityHeaders \<and>
    (same_data h h' \<and> (\<forall>x. out = Replied x \<longrightarrow> (\<exists>code msg. x = WriteError code msg)) \<or>
     (\<exists>x vals s rep h1. out = Replied rep \<and> run_state (act x r vals s) h1 = (rep, h') \<and> same_data h h1 \<and>
        entitled ev r (hb_store h) (documented x) s \<and>
        (writes x \<longrightarrow> rq_origin r = [] \<or> origin_host (rq_origin r) = Some (rq_host r))))"
proof (cases "sameOrigin origin_host (rm_method q) r")
  case False
  with assms show ?thesis by (auto simp: Handler_def Let_def)
next
  case origin: True
  with assms(1) have hdrs: "hdrs = securityHeaders" and out: "run_state (serve_mux ev q r act) h = (out, h')"
    by (auto simp: Handler_def Let_def r_def split: prod.splits)
  show ?thesis
  proof (cases "\<exists>p a x vals. \<not> rm_star q \<and> findHandler mux (rm_method q) (rm_path q) = Found (p, a, x) vals")
    case False
    with out have "h' = h \<and> (\<forall>x. out \<noteq> Replied x)" by (auto simp: serve_mux_def split: found.splits if_splits)
    with hdrs show ?thesis by simp
  next
    case True
    then obtain p a x vals where f: "\<not> rm_star q" "findHandler mux (rm_method q) (rm_path q) = Found (p, a, x) vals" by blast
    obtain rep where rep: "out = Replied rep" "run_state (guarded ev r a (act x r vals)) h = (rep, h')"
      using out f by (auto simp: serve_mux_def split: prod.splits)
    note doc = found_documented [OF f(2)]
    have ok: "writes x \<longrightarrow> rq_origin r = [] \<or> origin_host (rq_origin r) = Some (rq_host r)"
      using origin doc(2) by (auto simp: sameOrigin_def split: if_splits)
    from rep(2) show ?thesis
    proof (cases rule: guarded_cases)
      case (refused code msg)
      with hdrs rep(1) show ?thesis by simp
    next
      case (passed s h1)
      with hdrs rep(1) ok doc(1) show ?thesis by blast
    qed
  qed
qed

definition demo_call :: "string \<Rightarrow> string \<Rightarrow> hub_request" where
  "demo_call meth path = \<lparr>rm_request = demo_request\<lparr>rq_cookie := ''tok''\<rparr>, rm_method = meth, rm_path = path, rm_star = False\<rparr>"

definition demo_action :: "handler action" where
  "demo_action x r vals s = return (WriteJSON 200 x)"

abbreviation demo_run :: "string \<Rightarrow> string \<Rightarrow> ((string \<times> string) list \<times> handler served) \<times> hub" where
  "demo_run meth path \<equiv> run_state (Handler (\<lambda>_. Some (rq_host demo_request)) [] (demo_env 0 []) (demo_call meth path) demo_action) demo_hub"

lemma demo_route_runs:
  "snd (fst (demo_run ''DELETE'' ''/api/users/7'')) = Replied (WriteJSON 200 DeleteUser)"
  "snd (fst (demo_run ''GET'' ''/api/users/7'')) = Replied (WriteJSON 200 ApiNotFound)"
  "snd (fst (demo_run ''GET'' ''/api/../api/me'')) = Redirected ''/api/me''"
  by code_simp+

theorem every_request_authorized_witness:
  "\<exists>s. entitled (demo_env 0 []) (demo_request\<lparr>rq_cookie := ''tok''\<rparr>) (hb_store demo_hub) (Role RoleAdmin) (Some s) \<and>
     snd (fst (demo_run ''DELETE'' ''/api/users/7'')) = Replied (WriteJSON 200 DeleteUser)"
proof -
  have x: "x = DeleteUser" if "run_state (demo_action x r vals s) h = (WriteJSON 200 DeleteUser, h')" for x r vals s h h'
    using that by (simp add: demo_action_def)
  have r: "realIP [] (rm_request (demo_call ''DELETE'' ''/api/users/7'')) = demo_request\<lparr>rq_cookie := ''tok''\<rparr>"
    by (simp add: realIP_def demo_call_def)
  have d: "documented DeleteUser = Role RoleAdmin" by code_simp
  obtain hdrs h' where run: "demo_run ''DELETE'' ''/api/users/7'' = ((hdrs, Replied (WriteJSON 200 DeleteUser)), h')"
    using demo_route_runs(1) by (metis prod.collapse)
  from every_request_authorized [OF run]
  obtain y vals s h1 where "run_state (demo_action y (demo_request\<lparr>rq_cookie := ''tok''\<rparr>) vals s) h1 = (WriteJSON 200 DeleteUser, h')"
    "entitled (demo_env 0 []) (demo_request\<lparr>rq_cookie := ''tok''\<rparr>) (hb_store demo_hub) (documented y) s"
    unfolding r by blast
  with x [of y] d have "entitled (demo_env 0 []) (demo_request\<lparr>rq_cookie := ''tok''\<rparr>) (hb_store demo_hub) (Role RoleAdmin) s" by metis
  then show ?thesis unfolding demo_route_runs(1) by (cases s) (auto simp: entitled_def)
qed

end
