(* ===== verification/Spec2Isabelle.thy ===== *)
theory Spec2Isabelle
  imports SelfUpdate RunOutput Login AlertApi AlertProps Accounts Charts Install Wake Files Runs Agent Collect AgentSetup Routes
begin

text \<open>
  Lotse watches and controls machines. An agent on each machine connects to the hub over a
  WebSocket that carries SSH, reports metrics and carries out requests; users reach the hub with a browser. This
  development models the hub (\<open>src/internal/hub\<close>), its database (\<open>src/internal/hub/store\<close>), the
  agent (\<open>src/internal/agent\<close>) and the packages they share (\<open>protocol\<close>, \<open>update\<close>, \<open>wol\<close>, \<open>version\<close>), and proves what makes
  them correct.

  \<^bold>\<open>Conventions.\<close> A Go string is a \<open>string\<close> of bytes, an integer an \<open>int\<close> except where it may wrap around, where it
  is a word; a time is a number of nanoseconds; a \<open>float64\<close> is an exact rational number. The database is a record of tables, each a
  list of rows; a statement is a function on it that may fail, as a list of faults says, so every error path of a
  handler is a branch of the model. A handler is a computation in the state monad on the record \<open>hub\<close>, with the locks of
  the code as the borders of its steps. A reply is a value of \<open>reply\<close>. What the hub sends to agents is recorded in \<open>hb_sent\<close>, and the
  agents answer through an argument. Goroutines that run on their own are entries of \<open>hb_tasks\<close> or steps of a relation. The order in which Go
  ranges over a map, the time, random bytes, cryptography, the network, JSON of clients and the rendering of numbers are arguments; where a
  theorem relies on them it says so as a hypothesis, and its witness gives a concrete instance.

  \<^bold>\<open>Library.\<close> \<open>Prelude\<close> has time, strings, UTF-8 and the lemmas on lists that the components share; \<open>Interfaces\<close>
  the locales for what components rely on, with \<open>reaches\<close> and \<open>invariant_system\<close> for step relations; \<open>Encoding\<close> and
  \<open>Crypto\<close> base64, hex and the record of cryptographic functions; \<open>Netip\<close> addresses and prefixes; \<open>Paths\<close> the paths of Go.

  \<^bold>\<open>Updates.\<close> \<open>Update\<close> models versions and signed manifests (\<open>update/update.go\<close>), \<open>SelfUpdate\<close> which updates the hub
  offers (\<open>hub/agentupdate.go\<close>) and how the agent checks and installs one (\<open>agent/update.go\<close>): the signed message is unambiguous, an
  installation is all or nothing, only one runs at a time, and no sequence of updates goes back to an older release.
  \<open>Install\<close> models the install commands and the downloads (\<open>hub/install.go\<close>): the shell reads the words back that were meant.

  \<^bold>\<open>Database.\<close> \<open>Protocol\<close> has the messages, \<open>Store\<close> and \<open>MetricStore\<close> the tables and every method of \<open>hub/store\<close>;
  \<open>StoreInv\<close> shows that keys, references and roles stay consistent under any statements and failures and that there is always an
  administrator. Rolling up metrics is idempotent and complete.

  \<^bold>\<open>Signing in.\<close> \<open>Proxy\<close> finds the address of a client behind proxies (\<open>hub/proxy.go\<close>), \<open>Limiter\<close> limits attempts, \<open>HubState\<close>
  has the state of the hub, the activity log and the tracked connections, \<open>Sessions\<close>, \<open>Passkeys\<close>, \<open>WebAuthn\<close>, \<open>Login\<close> and
  \<open>Accounts\<close> the handlers of \<open>hub/auth.go\<close>, \<open>hub/passkeys.go\<close>, \<open>hub/webauthn.go\<close> and \<open>hub/users.go\<close>: a session needs the right
  credentials, a code or challenge is used once, changes of passwords sign out, and account changes need a recent confirmation.

  \<^bold>\<open>Alerts.\<close> \<open>AlertEngine\<close>, \<open>AlertProps\<close>, \<open>AlertSync\<close>, \<open>Notify\<close> and \<open>AlertApi\<close> model \<open>hub/alerts.go\<close> and \<open>hub/notify.go\<close>: a step of
  the engine refines a machine of four phases, alerts are raised and resolved after the right time, agree with the
  database across restarts, and secrets are neither shown nor sent in the clear.

  \<^bold>\<open>Systems.\<close> \<open>LiveState\<close>, \<open>Viewers\<close>, \<open>Gateway\<close> and \<open>Charts\<close> model \<open>hub/state.go\<close>, \<open>hub/broker.go\<close>, \<open>hub/gateway.go\<close> and
  \<open>hub/api.go\<close>: samples become averages of minutes, agents are admitted only with a known key or a token, and a deleted
  system does not come back, in any interleaving.

  \<^bold>\<open>Remote control.\<close> \<open>Control\<close> models requests over the link, power, services, processes, updates and terminals
  (\<open>protocol/request.go\<close>, \<open>hub/control.go\<close>, \<open>hub/processes.go\<close>, \<open>hub/agentupdate.go\<close>, \<open>hub/shell.go\<close>); \<open>only_sends\<close> says, along the structure of
  a handler, which messages it can send. \<open>Wol\<close> and \<open>Wake\<close> model waking (\<open>wol/wol.go\<close>, \<open>hub/wake.go\<close>), \<open>Files\<close> file transfer
  (\<open>hub/files.go\<close>) over an SFTP client that is an argument, \<open>RunOutput\<close> and \<open>Runs\<close> scripts (\<open>hub/scripts.go\<close>). A run is a relation
  of steps with one worker per system; \<open>work\<close> is the number of steps it still has to make, at most six for each system and one for
  the end. The end of the reading loop is a step that is always possible, since the code closes the channel
  when the time limit has passed.

  \<^bold>\<open>Agent.\<close> \<open>Machine\<close> models what the agent does to its machine (\<open>agent/power.go\<close>, \<open>agent/services.go\<close>, \<open>agent/services_linux.go\<close>,
  \<open>agent/script.go\<close>, \<open>agent/shell.go\<close>, \<open>agent/collect/processes.go\<close>), with the operating system as a record of its answers and the deeds of the
  agent as a list; \<open>Agent\<close> models requests, session channels, hello and reconnecting (\<open>agent/agent.go\<close>, \<open>agent/shell.go\<close>). Without the
  consent of its owner a machine is not controlled whatever a hub sends; sessions are bounded and start one program each.
  \<open>Containers\<close> and \<open>Collect\<close> model what an agent measures (\<open>agent/collect\<close>): containers, batteries, filters, rates, and the probe that
  keeps a filesystem that hangs from holding up the samples, with the calls in the background as events that may happen at any time. Every
  sample is well formed, and a call that hangs is not made twice.

  \<open>Folder\<close> models a folder under the calls of \<open>os\<close>, each of which may fail or break off half way, and identities on top
  of it (\<open>sshkey/sshkey.go\<close>): a key is never overwritten. \<open>AgentSetup\<close> models the configuration, the service and the log
  (\<open>agent/config.go\<close>, \<open>cmd/agent/main.go\<close>) and a connection from dialling to the reports (\<open>agent/agent.go\<close>): an installed agent starts with what its
  owner chose, and removing it deletes nothing else. In these theories a path is a folder and a name in it.

  \<^bold>\<open>Routes.\<close> \<open>Routes\<close> models \<open>Handler\<close>, the origin check and the security headers of \<open>hub/api.go\<close>, the router of the standard
  library they rely on, and which page is served (\<open>hub/static.go\<close>). The handlers are an argument there. Whatever a request asks for, a handler runs
  only with the session and role that the README asks for.

  This theory joins the two sides: what the hub sends, and what agents announce.

  \<^bold>\<open>Not modelled.\<close> The SSH, WebSocket, SFTP, Docker and system libraries are outside the sources and are used through arguments. Starting the hub
  (\<open>ConfigFromEnv\<close>, \<open>New\<close>, \<open>openData\<close>, \<open>Run\<close> and the loop of the maintenance in \<open>hub/hub.go\<close>), the migrations of the database, the
  programs \<open>cmd/hub\<close> and \<open>cmd/sign\<close>, and the service managers of macOS and Windows contain logic that this development does not cover
  yet. Terminals and process groups are system calls; the loops that copy bytes between a browser and a channel are input and output. The
  web interface under \<open>web\<close> is not part of the Go sources.
\<close>

section \<open>The hub and the agents together\<close>

lemma only_sends_mono:
  assumes "only_sends A P m" and "\<And>x. P x \<Longrightarrow> Q x"
  shows "only_sends A Q m"
  using assms unfolding only_sends_def by (metis list.pred_mono_strong)

text \<open>Every agent that is connected announced the features of its configuration.\<close>

definition announced :: "(nat \<Rightarrow> config) \<Rightarrow> (int \<Rightarrow> agentConn option) \<Rightarrow> bool" where
  "announced cfgs A \<longleftrightarrow> (\<forall>i ac. A i = Some ac \<longrightarrow> ac_features ac = features (cfgs (ac_ref ac)))"

lemma allowed_consents:
  "announced cfgs A \<Longrightarrow> allowed ev s A m \<Longrightarrow> requireElevated ev s \<and> cf_allow_shell (cfgs (fst m))"
  unfolding announced_def allowed_def by (metis features_shell)

lemma sends_by_consent:
  assumes "announced cfgs (hb_agents h)" and "only_sends (hb_agents h) (allowed ev s (hb_agents h)) m"
  shows "\<exists>ms. hb_sent (snd (run_state m h)) = hb_sent h @ ms \<and> list_all (\<lambda>m. requireElevated ev s \<and> cf_allow_shell (cfgs (fst m))) ms"
  using only_sendsD [OF only_sends_mono [OF assms(2) allowed_consents [OF assms(1)]] prod.collapse [symmetric]] .

lemmas control_allowed = postPower_allowed postService_allowed postSignal_allowed fileSession_allowed
  only_sends_mono [OF openShell_allowed conjunct1]

text \<open>
  (C11) Remote control by consent: whatever a request for power, services, signals, a terminal or files makes the
  hub send goes to a machine whose owner allowed it, and only for a session that was confirmed recently.
\<close>

theorem remote_control_needs_consent:
  assumes "announced cfgs (hb_agents h)"
    and "h' \<in> {snd (run_state (postPower link ev r idStr action s) h), snd (run_state (postService link ev r idStr service s) h),
      snd (run_state (postSignal link ev r idStr pid signal s) h), snd (run_state (openShell link accept ev r idStr cols rows s) h),
      snd (run_state (fileSession link pipe ev idStr s :: (unit reply + system \<times> nat) hub_op) h)}"
  shows "\<exists>ms. hb_sent h' = hb_sent h @ ms \<and> list_all (\<lambda>m. requireElevated ev s \<and> cf_allow_shell (cfgs (fst m))) ms"
  using assms(2) by (elim insertE emptyE) (simp_all only:, (rule sends_by_consent [OF assms(1)], rule control_allowed, (assumption)?)+)

definition consent_link :: link where
  "consent_link = (\<lambda>_ _ _. Answered True NoPayload)"

definition consent_session :: session where
  "consent_session = \<lparr>ss_user = demo_user, ss_token = [], ss_elevated = 1000\<rparr>"

definition consent_hub :: hub where
  "consent_hub = live_hub\<lparr>hb_agents := [7 \<mapsto> (demo_agent 7)\<lparr>ac_features := features (ag_cfg (demo_agent_of True))\<rparr>]\<rparr>"

definition consent_run :: hub where
  "consent_run = snd (run_state (postPower consent_link (demo_env 0 []) demo_request ''7'' (Some ''reboot'') consent_session) consent_hub)"

lemma consent_run_sent: "map fst (hb_sent consent_run) = [1]"
  by code_simp

theorem remote_control_needs_consent_witness:
  "map fst (hb_sent consent_run) = [1] \<and> requireElevated (demo_env 0 []) consent_session"
proof -
  have "announced (\<lambda>_. ag_cfg (demo_agent_of True)) (hb_agents consent_hub)"
    by (simp add: announced_def consent_hub_def)
  from remote_control_needs_consent [OF this, of consent_run consent_link "demo_env 0 []" demo_request "''7''" "Some ''reboot''" consent_session]
  obtain ms where "hb_sent consent_run = hb_sent consent_hub @ ms" "list_all (\<lambda>m. requireElevated (demo_env 0 []) consent_session \<and>
      cf_allow_shell (ag_cfg (demo_agent_of True))) ms" by (auto simp: consent_run_def)
  moreover have "hb_sent consent_hub = []" by (simp add: consent_hub_def live_hub_def empty_hub_def)
  ultimately show ?thesis using consent_run_sent by (cases ms) auto
qed

end
